theory Spec2Isabelle
  imports Complex_Main "HOL-Library.AList" "HOL-Library.Multiset" "HOL-Library.Sublist"
begin

section \<open>Values of the host language\<close>

text \<open>
  The pages are TypeScript. A string is modelled as a \<^typ>\<open>string\<close> whose characters are
  the code units below 256; code units above that range are outside the model. A number
  that holds a count is an \<^typ>\<open>int\<close>, a number that holds a quotient or a score is an
  exact \<^typ>\<open>rat\<close>: the rounding of doubles is outside the model. The values a number can
  take besides the finite ones are kept where the code can observe them. An object and a
  \<open>Map\<close> are association lists in the order in which their keys were first set
  (\<open>AList.update\<close> replaces a value in place and appends a new key), read with
  \<open>map_of\<close>. Two functions of the platform are not in the sources, and the functions
  that call them take them as parameters: the collation behind \<open>localeCompare\<close>, which
  depends on the locale of the host, and the parser of dates, \<open>getTime\<close>.
\<close>

datatype jsnum = NaN | PosInf | NegInf | Fin rat

definition isWhiteSpace :: "char \<Rightarrow> bool" where
  \<comment> \<open>white space and line terminators, as \<open>trim\<close> and the class \<open>\s\<close> read them\<close>
  "isWhiteSpace c = (of_char c \<in> {9, 10, 11, 12, 13, 32, 160 :: nat})"

definition isDigit :: "char \<Rightarrow> bool" where
  "isDigit c = (48 \<le> (of_char c :: nat) \<and> (of_char c :: nat) \<le> 57)"

definition isWordChar :: "char \<Rightarrow> bool" where
  \<comment> \<open>the class \<open>\w\<close>: letters, digits and the underscore\<close>
  "isWordChar c = (let n = (of_char c :: nat) in
     (48 \<le> n \<and> n \<le> 57) \<or> (65 \<le> n \<and> n \<le> 90) \<or> n = 95 \<or> (97 \<le> n \<and> n \<le> 122))"

definition lowerChar :: "char \<Rightarrow> char" where
  "lowerChar c = (let n = (of_char c :: nat) in
     if (65 \<le> n \<and> n \<le> 90) \<or> (192 \<le> n \<and> n \<le> 222 \<and> n \<noteq> 215)
     then char_of (n + 32) else c)"

definition toLowerCase :: "string \<Rightarrow> string" where
  "toLowerCase s = map lowerChar s"

definition trim :: "string \<Rightarrow> string" where
  "trim s = rev (dropWhile isWhiteSpace (rev (dropWhile isWhiteSpace s)))"

fun str_includes :: "string \<Rightarrow> string \<Rightarrow> bool" where
  \<comment> \<open>\<open>s.includes(sub)\<close>\<close>
  "str_includes [] sub = (sub = [])"
| "str_includes (c # cs) sub = (prefix sub (c # cs) \<or> str_includes cs sub)"

fun splitChar :: "char \<Rightarrow> string \<Rightarrow> string list" where
  \<comment> \<open>\<open>s.split(",")\<close> for a separator of one character\<close>
  "splitChar sep [] = [[]]"
| "splitChar sep (c # cs) =
     (if c = sep then [] # splitChar sep cs
      else (case splitChar sep cs of [] \<Rightarrow> [[c]] | h # t \<Rightarrow> (c # h) # t))"

fun splitLines :: "string \<Rightarrow> string list" where
  \<comment> \<open>\<open>s.split(/\r?\n/)\<close>\<close>
  "splitLines [] = [[]]"
| "splitLines (c # cs) =
     (if c = CHR 0x0A then [] # splitLines cs
      else if c = CHR 0x0D \<and> cs \<noteq> [] \<and> hd cs = CHR 0x0A then [] # splitLines (tl cs)
      else (case splitLines cs of [] \<Rightarrow> [[c]] | h # t \<Rightarrow> (c # h) # t))"

type_synonym collation = "string \<Rightarrow> string \<Rightarrow> int"
  \<comment> \<open>\<open>a.localeCompare(b)\<close> as a function of \<open>a\<close> and \<open>b\<close>: negative, zero or positive\<close>

subsection \<open>Conversion of a string to a number\<close>

definition digitVal :: "char \<Rightarrow> nat" where
  "digitVal c = (let n = (of_char c :: nat) in
     if 48 \<le> n \<and> n \<le> 57 then n - 48
     else if 97 \<le> n \<and> n \<le> 102 then n - 87
     else if 65 \<le> n \<and> n \<le> 70 then n - 55
     else 0)"

definition isHexDigit :: "char \<Rightarrow> bool" where
  "isHexDigit c = (let n = (of_char c :: nat) in
     (48 \<le> n \<and> n \<le> 57) \<or> (97 \<le> n \<and> n \<le> 102) \<or> (65 \<le> n \<and> n \<le> 70))"

definition baseVal :: "nat \<Rightarrow> string \<Rightarrow> nat" where
  "baseVal b s = foldl (\<lambda>acc c. b * acc + digitVal c) 0 s"

definition pow10 :: "int \<Rightarrow> rat" where
  "pow10 e = (if 0 \<le> e then 10 ^ nat e else 1 / 10 ^ nat (- e))"

definition exponentPart :: "string \<Rightarrow> int option" where
  \<comment> \<open>what follows the mantissa: nothing, or \<open>e\<close> with an optional sign and digits\<close>
  "exponentPart s =
     (case s of
        [] \<Rightarrow> Some 0
      | c # t \<Rightarrow>
          if c = CHR ''e'' \<or> c = CHR ''E'' then
            (let neg = (t \<noteq> [] \<and> hd t = CHR ''-'');
                 ds = (if t \<noteq> [] \<and> (hd t = CHR ''-'' \<or> hd t = CHR ''+'') then tl t else t)
             in if ds \<noteq> [] \<and> list_all isDigit ds
                then Some (if neg then - int (baseVal 10 ds) else int (baseVal 10 ds))
                else None)
          else None)"

definition unsignedDecimal :: "string \<Rightarrow> jsnum" where
  "unsignedDecimal s =
     (if s = ''Infinity'' then PosInf
      else
        (let ip = takeWhile isDigit s;
             r1 = dropWhile isDigit s;
             dot = (r1 \<noteq> [] \<and> hd r1 = CHR ''.'');
             fp = (if dot then takeWhile isDigit (tl r1) else []);
             r2 = (if dot then dropWhile isDigit (tl r1) else r1)
         in if ip = [] \<and> fp = [] then NaN
            else (case exponentPart r2 of
                    None \<Rightarrow> NaN
                  | Some e \<Rightarrow> Fin (of_nat (baseVal 10 (ip @ fp)) * pow10 (e - int (length fp))))))"

definition jsNeg :: "jsnum \<Rightarrow> jsnum" where
  "jsNeg x = (case x of NaN \<Rightarrow> NaN | PosInf \<Rightarrow> NegInf | NegInf \<Rightarrow> PosInf | Fin q \<Rightarrow> Fin (- q))"

definition nonDecimal :: "string \<Rightarrow> jsnum option" where
  \<comment> \<open>the literals \<open>0x..\<close>, \<open>0o..\<close> and \<open>0b..\<close>, which take no sign\<close>
  "nonDecimal s =
     (case s of
        z # p # ds \<Rightarrow>
          if z \<noteq> CHR ''0'' then None
          else if p = CHR ''x'' \<or> p = CHR ''X'' then
            Some (if ds \<noteq> [] \<and> list_all isHexDigit ds then Fin (of_nat (baseVal 16 ds)) else NaN)
          else if p = CHR ''o'' \<or> p = CHR ''O'' then
            Some (if ds \<noteq> [] \<and> list_all (\<lambda>c. isDigit c \<and> digitVal c < 8) ds
                  then Fin (of_nat (baseVal 8 ds)) else NaN)
          else if p = CHR ''b'' \<or> p = CHR ''B'' then
            Some (if ds \<noteq> [] \<and> list_all (\<lambda>c. c = CHR ''0'' \<or> c = CHR ''1'') ds
                  then Fin (of_nat (baseVal 2 ds)) else NaN)
          else None
      | _ \<Rightarrow> None)"

definition Number :: "string \<Rightarrow> jsnum" where
  \<comment> \<open>\<open>Number(s)\<close> for a string \<open>s\<close>\<close>
  "Number s =
     (let t = trim s in
      if t = [] then Fin 0
      else (case nonDecimal t of
              Some v \<Rightarrow> v
            | None \<Rightarrow>
                if hd t = CHR ''-'' then jsNeg (unsignedDecimal (tl t))
                else if hd t = CHR ''+'' then unsignedDecimal (tl t)
                else unsignedDecimal t))"

definition NumberU :: "string option \<Rightarrow> jsnum" where
  \<comment> \<open>\<open>Number(v)\<close> where \<open>v\<close> may be \<open>undefined\<close>\<close>
  "NumberU v = (case v of None \<Rightarrow> NaN | Some s \<Rightarrow> Number s)"

definition isFinite :: "jsnum \<Rightarrow> bool" where
  "isFinite x = (case x of Fin _ \<Rightarrow> True | _ \<Rightarrow> False)"

subsection \<open>Sorting with a comparator\<close>

text \<open>
  \<open>xs.sort(cmp)\<close> is stable, and only the sign of what \<open>cmp\<close> returns counts. It is modelled
  by a stable insertion sort: for a comparator that is a total preorder this is the one
  result the language allows; for an inconsistent comparator the language leaves the order
  to the implementation, and the model fixes one.
\<close>

fun insert_by :: "('a \<Rightarrow> 'a \<Rightarrow> rat) \<Rightarrow> 'a \<Rightarrow> 'a list \<Rightarrow> 'a list" where
  "insert_by cmp x [] = [x]"
| "insert_by cmp x (y # ys) = (if cmp x y \<le> 0 then x # y # ys else y # insert_by cmp x ys)"

definition sort_by :: "('a \<Rightarrow> 'a \<Rightarrow> rat) \<Rightarrow> 'a list \<Rightarrow> 'a list" where
  "sort_by cmp xs = foldr (insert_by cmp) xs []"

section \<open>Tabular text parser\<close>

type_synonym Row = "(string \<times> string) list"

definition nth_opt :: "'a list \<Rightarrow> nat \<Rightarrow> 'a option" where
  \<comment> \<open>\<open>xs[i]\<close>, \<open>undefined\<close> out of range\<close>
  "nth_opt xs i = (if i < length xs then Some (xs ! i) else None)"

definition parseCsv :: "string \<Rightarrow> Row list" where
  "parseCsv text =
     (case splitLines (trim text) of
        [] \<Rightarrow> []
      | l0 # rest \<Rightarrow>
          (let headers = map trim (splitChar CHR '','' l0)
           in map (\<lambda>line.
                 (let cols = splitChar CHR '','' line
                  in foldl (\<lambda>row (h, i).
                        AList.update h (trim (case nth_opt cols i of None \<Rightarrow> [] | Some c \<Rightarrow> c)) row)
                      [] (zip headers [0 ..< length headers])))
               rest))"

section \<open>Season aggregator (roll of honour)\<close>

record Pair =
  side_a :: string
  side_b :: string
  a_wins :: int
  b_wins :: int
  ties :: int
  a_points_for :: rat
  b_points_for :: rat

record H2H =
  managers :: "string list"
  pairs :: "Pair list"

record Totals =
  manager :: string
  seasons :: int
  gold :: int
  silver :: int
  bronze :: int
  podiums :: int
  points :: int
  avgFinish :: rat
  playoffsMade :: int
  winPct :: rat

definition MIN_SEASONS_FOR_AVG :: int where
  "MIN_SEASONS_FOR_AVG = 3"

definition newTotals :: "string \<Rightarrow> Totals" where
  "newTotals mgr = \<lparr>manager = mgr, seasons = 0, gold = 0, silver = 0, bronze = 0, podiums = 0,
     points = 0, avgFinish = 0, playoffsMade = 0, winPct = 0\<rparr>"

type_synonym aggState = "(string \<times> Totals) list \<times> (string \<times> (string \<times> rat) list) list"

definition medal :: "rat \<Rightarrow> Totals \<Rightarrow> Totals" where
  "medal placeNum t =
     (let t1 = (if placeNum = 1 then t\<lparr>gold := gold t + 1, points := points t + 3\<rparr>
                else if placeNum = 2 then t\<lparr>silver := silver t + 1, points := points t + 2\<rparr>
                else if placeNum = 3 then t\<lparr>bronze := bronze t + 1, points := points t + 1\<rparr>
                else t)
      in t1\<lparr>podiums := gold t1 + silver t1 + bronze t1\<rparr>)"

definition countRow :: "aggState \<Rightarrow> Row \<Rightarrow> aggState" where
  \<comment> \<open>one turn of the loop over the finishes; \<open>byMgr\<close> and \<open>bestByMgrSeason\<close> keep the
      order in which their keys were first set\<close>
  "countRow st r =
     (let mgr = trim (case map_of r ''manager'' of None \<Rightarrow> [] | Some v \<Rightarrow> v);
          season = trim (case map_of r ''season'' of None \<Rightarrow> [] | Some v \<Rightarrow> v)
      in case NumberU (map_of r ''place'') of
           Fin placeNum \<Rightarrow>
             if mgr = [] \<or> season = [] \<or> placeNum \<le> 0 \<or> placeNum \<ge> 9000 then st
             else
               (let byMgr = fst st;
                    bestByMgrSeason = snd st;
                    t = (case map_of byMgr mgr of None \<Rightarrow> newTotals mgr | Some t0 \<Rightarrow> t0);
                    m = (case map_of bestByMgrSeason mgr of None \<Rightarrow> [] | Some m0 \<Rightarrow> m0);
                    m1 = (case map_of m season of
                            None \<Rightarrow> AList.update season placeNum m
                          | Some prev \<Rightarrow> if placeNum < prev then AList.update season placeNum m else m)
                in (AList.update mgr (medal placeNum t) byMgr, AList.update mgr m1 bestByMgrSeason))
         | _ \<Rightarrow> st)"

definition h2hWinPct :: "H2H option \<Rightarrow> string \<Rightarrow> rat" where
  \<comment> \<open>the win percentage of \<open>mgr\<close> from every pair that names it\<close>
  "h2hWinPct h2hData mgr =
     (case h2hData of
        None \<Rightarrow> 0
      | Some d \<Rightarrow>
          (let wlt = foldl (\<lambda>(wins, losses, tied) p.
                        if side_a p = mgr then (wins + a_wins p, losses + b_wins p, tied + ties p)
                        else if side_b p = mgr then (wins + b_wins p, losses + a_wins p, tied + ties p)
                        else (wins, losses, tied))
                      (0, 0, 0) (pairs d);
               wins = fst wlt; losses = fst (snd wlt); tied = snd (snd wlt);
               games = wins + losses + tied
           in if games \<noteq> 0 then (of_int wins + (1 / 2) * of_int tied) / of_int games else 0))"

definition finalize :: "H2H option \<Rightarrow> (string \<times> (string \<times> rat) list) list \<Rightarrow> string \<times> Totals \<Rightarrow> Totals" where
  "finalize h2hData bestByMgrSeason e =
     (let mgr = fst e; t = snd e;
          seasonBest = map snd (case map_of bestByMgrSeason mgr of None \<Rightarrow> [] | Some m \<Rightarrow> m);
          n = int (length seasonBest)
      in t\<lparr>seasons := n,
           avgFinish := (if n \<noteq> 0 then foldl (\<lambda>a x. a + x) 0 seasonBest / of_int n else 0),
           playoffsMade := int (length (filter (\<lambda>x. x \<le> 4) seasonBest)),
           winPct := h2hWinPct h2hData mgr\<rparr>)"

definition cmpTable :: "collation \<Rightarrow> Totals \<Rightarrow> Totals \<Rightarrow> rat" where
  "cmpTable localeCompare x y =
     (if points y \<noteq> points x then of_int (points y - points x)
      else if gold y \<noteq> gold x then of_int (gold y - gold x)
      else if avgFinish x \<noteq> avgFinish y then avgFinish x - avgFinish y
      else of_int (localeCompare (manager x) (manager y)))"

definition table :: "collation \<Rightarrow> Row list \<Rightarrow> H2H option \<Rightarrow> Totals list" where
  "table localeCompare rows h2hData =
     (let st = foldl countRow ([], []) rows
      in sort_by (cmpTable localeCompare) (map (finalize h2hData (snd st)) (fst st)))"

record HallOfFame =
  titles :: "Totals list"
  bestAvg :: "Totals list"

definition cmpTitles :: "collation \<Rightarrow> Totals \<Rightarrow> Totals \<Rightarrow> rat" where
  "cmpTitles localeCompare x y =
     (if gold y \<noteq> gold x then of_int (gold y - gold x)
      else if points y \<noteq> points x then of_int (points y - points x)
      else of_int (localeCompare (manager x) (manager y)))"

definition cmpAvg :: "collation \<Rightarrow> Totals \<Rightarrow> Totals \<Rightarrow> rat" where
  "cmpAvg localeCompare x y =
     (if avgFinish x \<noteq> avgFinish y then avgFinish x - avgFinish y
      else of_int (localeCompare (manager x) (manager y)))"

definition hallOfFame :: "collation \<Rightarrow> Totals list \<Rightarrow> HallOfFame" where
  "hallOfFame localeCompare tbl =
     (if tbl = [] then \<lparr>titles = [], bestAvg = []\<rparr>
      else \<lparr>titles = sort_by (cmpTitles localeCompare) (filter (\<lambda>t. gold t > 0) tbl),
            bestAvg = take 5 (sort_by (cmpAvg localeCompare) (filter (\<lambda>t. seasons t \<ge> MIN_SEASONS_FOR_AVG) tbl))\<rparr>)"

section \<open>Head-to-head resolver\<close>

record HRow =
  opponent :: string
  wins :: int
  losses :: int
  r_ties :: int
  pf :: rat
  pa :: rat
  r_winPct :: rat

definition HIDDEN :: "string set" where
  \<comment> \<open>managers hidden from the lists but counted in the statistics\<close>
  "HIDDEN = {''Brendan''}"

definition mkRow :: "string \<Rightarrow> int \<Rightarrow> int \<Rightarrow> int \<Rightarrow> rat \<Rightarrow> rat \<Rightarrow> HRow" where
  \<comment> \<open>the body shared by the two branches of the loop, after the sides are chosen\<close>
  "mkRow opp w l t f a =
     (let games = w + l + t;
          winPct = (if games \<noteq> 0 then (of_int w + (1 / 2) * of_int t) / of_int games else 0)
      in \<lparr>opponent = opp, wins = w, losses = l, r_ties = t, pf = f, pa = a, r_winPct = winPct\<rparr>)"

definition pairRow :: "string list \<Rightarrow> string \<Rightarrow> Pair \<Rightarrow> HRow option" where
  \<comment> \<open>what one pair pushes onto \<open>rows\<close>, if anything; \<open>roster\<close> is \<open>data.managers\<close>\<close>
  "pairRow roster mgr p =
     (let oppSet = set (filter (\<lambda>m. m \<noteq> mgr) roster)
      in if side_a p = mgr then
           (if side_b p \<notin> oppSet then None
            else Some (mkRow (side_b p) (a_wins p) (b_wins p) (ties p) (a_points_for p) (b_points_for p)))
         else if side_b p = mgr then
           (if side_a p \<notin> oppSet then None
            else Some (mkRow (side_a p) (b_wins p) (a_wins p) (ties p) (b_points_for p) (a_points_for p)))
         else None)"

definition cmpH2H :: "collation \<Rightarrow> HRow \<Rightarrow> HRow \<Rightarrow> rat" where
  "cmpH2H localeCompare x y =
     (if r_winPct y \<noteq> r_winPct x then r_winPct y - r_winPct x
      else
        (let gA = wins x + losses x + r_ties x;
             gB = wins y + losses y + r_ties y
         in if gB \<noteq> gA then of_int (gB - gA)
            else of_int (localeCompare (opponent x) (opponent y))))"

definition h2h_table :: "collation \<Rightarrow> H2H option \<Rightarrow> string \<Rightarrow> HRow list" where
  \<comment> \<open>\<open>table\<close> of the head-to-head page\<close>
  "h2h_table localeCompare data mgr =
     (case data of
        None \<Rightarrow> []
      | Some d \<Rightarrow>
          if mgr = [] then []
          else sort_by (cmpH2H localeCompare) (List.map_filter (pairRow (managers d) mgr) (pairs d)))"

definition visibleTable :: "HRow list \<Rightarrow> string \<Rightarrow> HRow list" where
  "visibleTable tbl mgr = (if mgr = [] then [] else filter (\<lambda>r. opponent r \<notin> HIDDEN) tbl)"

record Overall =
  totW :: int
  totL :: int
  totT :: int
  tot_pf :: rat
  tot_pa :: rat
  gp :: int
  wp :: rat

definition overall :: "HRow list \<Rightarrow> Overall option" where
  \<comment> \<open>the totals summary, rendered only when the table has a row\<close>
  "overall tbl =
     (if length tbl > 0 then
        (let w = foldl (\<lambda>acc r. acc + wins r) 0 tbl;
             l = foldl (\<lambda>acc r. acc + losses r) 0 tbl;
             t = foldl (\<lambda>acc r. acc + r_ties r) 0 tbl;
             f = foldl (\<lambda>acc r. acc + pf r) 0 tbl;
             a = foldl (\<lambda>acc r. acc + pa r) 0 tbl;
             g = w + l + t
         in Some \<lparr>totW = w, totL = l, totT = t, tot_pf = f, tot_pa = a, gp = g,
                  wp = (if g \<noteq> 0 then (of_int w + (1 / 2) * of_int t) / of_int g else 0)\<rparr>)
      else None)"

section \<open>Ownership tracker (waivers page)\<close>

fun jsMinus :: "jsnum \<Rightarrow> jsnum \<Rightarrow> jsnum" where
  \<comment> \<open>\<open>x - y\<close> on numbers\<close>
  "jsMinus (Fin x) (Fin y) = Fin (x - y)"
| "jsMinus NaN _ = NaN"
| "jsMinus _ NaN = NaN"
| "jsMinus PosInf PosInf = NaN"
| "jsMinus NegInf NegInf = NaN"
| "jsMinus PosInf _ = PosInf"
| "jsMinus NegInf _ = NegInf"
| "jsMinus (Fin x) PosInf = NegInf"
| "jsMinus (Fin x) NegInf = PosInf"

definition cmpResult :: "jsnum \<Rightarrow> rat" where
  \<comment> \<open>how \<open>sort\<close> reads what a comparator returns: \<open>NaN\<close> as 0, otherwise the sign\<close>
  "cmpResult v = (case v of NaN \<Rightarrow> 0 | PosInf \<Rightarrow> 1 | NegInf \<Rightarrow> - 1 | Fin q \<Rightarrow> q)"

record Txn =
  txn_season :: int
  txn_date :: string
  txn_type :: string
  txn_player :: string
  txn_position :: string
  txn_nfl :: string
  from_team :: string
  to_team :: string
  txn_note :: string

record TxnFile =
  file_season :: int
  file_rows :: "Txn list"
  updated_at :: string

record DraftRow =
  d_player :: string
  d_position :: string
  d_nfl :: string
  d_manager :: string

datatype OwnType = Drafted | Waiver | Trade

record OwnedTeam =
  team :: string
  acquired :: OwnType

record MapVal =
  player :: string
  position :: string
  nfl :: string
  drafted :: int
  adds :: int
  total :: int
  owned :: "OwnedTeam list"

definition orEmpty :: "string option \<Rightarrow> string" where
  \<comment> \<open>\<open>v || ""\<close>\<close>
  "orEmpty v = (case v of None \<Rightarrow> [] | Some s \<Rightarrow> s)"

definition parseCSV :: "string \<Rightarrow> DraftRow list" where
  \<comment> \<open>the parser of the draft results: headers in lower case, cells trimmed\<close>
  "parseCSV text =
     (case splitLines (trim text) of
        [] \<Rightarrow> []
      | l0 # rest \<Rightarrow>
          (let headers = map (\<lambda>h. toLowerCase (trim h)) (splitChar CHR '','' l0)
           in map (\<lambda>line.
                 (let cells = map trim (splitChar CHR '','' line);
                      obj = foldl (\<lambda>acc (h, idx). AList.update h (orEmpty (nth_opt cells idx)) acc)
                              [] (zip headers [0 ..< length headers])
                  in \<lparr>d_player = orEmpty (map_of obj ''player''),
                      d_position = orEmpty (map_of obj ''position''),
                      d_nfl = orEmpty (map_of obj ''editorial_team_abbr''),
                      d_manager = orEmpty (map_of obj ''manager'')\<rparr>))
               rest))"

definition freshVal :: "string \<Rightarrow> string \<Rightarrow> string \<Rightarrow> MapVal" where
  "freshVal key pos nflTeam = \<lparr>player = key, position = pos, nfl = nflTeam,
     drafted = 0, adds = 0, total = 0, owned = []\<rparr>"

definition draftEntry :: "string \<Rightarrow> MapVal option \<Rightarrow> DraftRow \<Rightarrow> MapVal" where
  \<comment> \<open>the entry of \<open>key\<close> after one draft row of that player\<close>
  "draftEntry key found d =
     (let existing = (case found of None \<Rightarrow> freshVal key (d_position d) (d_nfl d) | Some e \<Rightarrow> e);
          e1 = existing\<lparr>drafted := drafted existing + 1, total := total existing + 1,
                 position := (if position existing \<noteq> [] then position existing else d_position d),
                 nfl := (if nfl existing \<noteq> [] then nfl existing else d_nfl d)\<rparr>
      in if trim (d_manager d) \<noteq> []
         then e1\<lparr>owned := \<lparr>team = trim (d_manager d), acquired = Drafted\<rparr> # owned e1\<rparr>
         else e1)"

definition draftStep :: "(string \<times> MapVal) list \<Rightarrow> DraftRow \<Rightarrow> (string \<times> MapVal) list" where
  "draftStep m d =
     (let key = trim (d_player d)
      in if key = [] then m else AList.update key (draftEntry key (map_of m key) d) m)"

definition isAdd :: "Txn \<Rightarrow> bool" where
  \<comment> \<open>the filter of the transaction rows\<close>
  "isAdd r = (txn_player r \<noteq> [] \<and> txn_type r = ''add'' \<and> trim (to_team r) \<noteq> [])"

definition cmpDate :: "(string \<Rightarrow> jsnum) \<Rightarrow> Txn \<Rightarrow> Txn \<Rightarrow> rat" where
  "cmpDate getTime x y = cmpResult (jsMinus (getTime (txn_date x)) (getTime (txn_date y)))"

definition sortedAdds :: "(string \<Rightarrow> jsnum) \<Rightarrow> TxnFile \<Rightarrow> Txn list" where
  \<comment> \<open>\<open>adds\<close>: the rows that pass the filter, sorted by date\<close>
  "sortedAdds getTime dat = sort_by (cmpDate getTime) (filter isAdd (file_rows dat))"

definition addEntry :: "string \<Rightarrow> MapVal option \<Rightarrow> Txn \<Rightarrow> MapVal" where
  \<comment> \<open>the entry of \<open>key\<close> after one add of that player\<close>
  "addEntry key found r =
     (let existing = (case found of None \<Rightarrow> freshVal key (txn_position r) (txn_nfl r) | Some e \<Rightarrow> e);
          e1 = existing\<lparr>adds := adds existing + 1, total := total existing + 1,
                 position := (if position existing \<noteq> [] then position existing else txn_position r),
                 nfl := (if nfl existing \<noteq> [] then nfl existing else txn_nfl r)\<rparr>
      in e1\<lparr>owned := owned e1 @
              [\<lparr>team = trim (to_team r), acquired = (if txn_note r = ''Trade'' then Trade else Waiver)\<rparr>]\<rparr>)"

definition addStep :: "(string \<times> MapVal) list \<Rightarrow> Txn \<Rightarrow> (string \<times> MapVal) list" where
  "addStep m r =
     (let key = trim (txn_player r)
      in if key = [] then m else AList.update key (addEntry key (map_of m key) r) m)"

definition ownership :: "(string \<Rightarrow> jsnum) \<Rightarrow> TxnFile \<Rightarrow> DraftRow list \<Rightarrow> (string \<times> MapVal) list" where
  \<comment> \<open>\<open>map\<close> after the two loops: the draft rows first, then the adds in date order\<close>
  "ownership getTime dat draft = foldl addStep (foldl draftStep [] draft) (sortedAdds getTime dat)"

definition queryMatch :: "string \<Rightarrow> MapVal \<Rightarrow> bool" where
  "queryMatch query x =
     (trim query = [] \<or>
      str_includes (toLowerCase (player x)) (toLowerCase query) \<or>
      list_ex (\<lambda>ot. str_includes (toLowerCase (team ot)) (toLowerCase query)) (owned x))"

definition cmpBoard :: "collation \<Rightarrow> MapVal \<Rightarrow> MapVal \<Rightarrow> rat" where
  "cmpBoard localeCompare x y =
     (if total y - total x \<noteq> 0 then of_int (total y - total x)
      else of_int (localeCompare (player x) (player y)))"

definition leaderboard ::
  "collation \<Rightarrow> (string \<Rightarrow> jsnum) \<Rightarrow> TxnFile option \<Rightarrow> DraftRow list \<Rightarrow> string \<Rightarrow> int \<Rightarrow> MapVal list" where
  \<comment> \<open>\<open>getTime\<close> is the date parser of the platform, \<open>new Date(s).getTime()\<close>, \<open>NaN\<close> for
      a string that is no date; \<open>localeCompare\<close> is its collation\<close>
  "leaderboard localeCompare getTime dat draft query minPickups =
     (case dat of
        None \<Rightarrow> []
      | Some f \<Rightarrow>
          sort_by (cmpBoard localeCompare)
            (filter (queryMatch query)
              (filter (\<lambda>x. total x \<ge> minPickups) (map snd (ownership getTime f draft)))))"

section \<open>Record-breaker normalizer\<close>

type_synonym StringMap = "(string \<times> string) list"

record RecordSection =
  sec_title :: string
  sec_headers :: "string list"
  sec_rows :: "StringMap list"

record YearData =
  head_to_head :: "RecordSection list option"
  team_points :: "RecordSection list option"
  team_stats :: "RecordSection list option"

record RecordsData =
  years :: "(string \<times> YearData) list"

datatype SeasonalKey = Head_to_head | Team_points | Team_stats

datatype Mode = All_time | Seasonal SeasonalKey

definition yearSections :: "YearData \<Rightarrow> SeasonalKey \<Rightarrow> RecordSection list option" where
  \<comment> \<open>\<open>yd[key]\<close>\<close>
  "yearSections yd key =
     (case key of Head_to_head \<Rightarrow> head_to_head yd | Team_points \<Rightarrow> team_points yd
      | Team_stats \<Rightarrow> team_stats yd)"

definition shouldExcludeSection :: "string \<Rightarrow> bool" where
  "shouldExcludeSection sectionName =
     (let s = toLowerCase (trim sectionName) in
      if str_includes s ''points from draft players'' then True
      else if str_includes s ''points from drafted players'' then True
      else if (str_includes s ''points from waiver-wire pickups'' \<or>
               str_includes s ''points from waiver wire pickups'') \<and> str_includes s ''least'' then True
      else if str_includes s ''kicking points'' \<and> str_includes s ''least'' then True
      else if str_includes s ''defensive points'' \<and> str_includes s ''least'' then True
      else if str_includes s ''touchdowns'' \<and> str_includes s ''least'' then True
      else if str_includes s ''passing yards'' \<and> str_includes s ''least'' then True
      else if str_includes s ''rushing yards'' \<and> str_includes s ''least'' then True
      else if str_includes s ''receiving yards'' \<and> str_includes s ''least'' then True
      else if str_includes s ''field goals'' \<and> str_includes s ''least'' then True
      else if str_includes s ''post-draft'' \<and> str_includes s ''least'' then True
      else if str_includes s ''field goals'' \<and> str_includes s ''most'' then True
      else if str_includes s ''margin of defeat'' then True
      else False)"

definition hasAllTimeTag :: "StringMap \<Rightarrow> bool" where
  "hasAllTimeTag row = list_ex (\<lambda>v. str_includes (toLowerCase v) ''all time'') (map snd row)"

subsection \<open>Normalisation of a cell\<close>

definition allTimeLen :: "char option \<Rightarrow> string \<Rightarrow> nat" where
  \<comment> \<open>the length of a match of \<open>/\ball\s*time\b/i\<close> at the start of \<open>s\<close>, after the
      character \<open>prev\<close>; 0 when there is none\<close>
  "allTimeLen prev s =
     (let ws = takeWhile isWhiteSpace (drop 3 s);
          rest = dropWhile isWhiteSpace (drop 3 s)
      in if (case prev of None \<Rightarrow> True | Some p \<Rightarrow> \<not> isWordChar p) \<and>
            toLowerCase (take 3 s) = ''all'' \<and> toLowerCase (take 4 rest) = ''time'' \<and>
            (case drop 4 rest of [] \<Rightarrow> True | c # _ \<Rightarrow> \<not> isWordChar c)
         then 3 + length ws + 4 else 0)"

fun dropAllTime :: "char option \<Rightarrow> nat \<Rightarrow> string \<Rightarrow> string" where
  \<comment> \<open>\<open>s.replace(allTimeWordRe, "")\<close>: \<open>skip\<close> counts the characters of a match still to
      be left out\<close>
  "dropAllTime prev skip [] = []"
| "dropAllTime prev skip (c # cs) =
     (if skip > 0 then dropAllTime (Some c) (skip - 1) cs
      else (let n = allTimeLen prev (c # cs) in
            if n > 0 then dropAllTime (Some c) (n - 1) cs
            else c # dropAllTime (Some c) 0 cs))"

definition seasonTagAt :: "string \<Rightarrow> bool" where
  \<comment> \<open>whether the whole of \<open>s\<close> matches \<open>/\s*(,|-)?\s*season\s+\d{4}\s*$/i\<close>\<close>
  "seasonTagAt s =
     (let s1 = dropWhile isWhiteSpace s;
          s2 = (if s1 \<noteq> [] \<and> (hd s1 = CHR '','' \<or> hd s1 = CHR ''-'') then tl s1 else s1);
          s3 = dropWhile isWhiteSpace s2;
          s4 = drop 6 s3;
          s5 = dropWhile isWhiteSpace s4;
          s6 = drop 4 s5
      in toLowerCase (take 6 s3) = ''season'' \<and> s4 \<noteq> [] \<and> isWhiteSpace (hd s4) \<and>
         length (take 4 s5) = 4 \<and> list_all isDigit (take 4 s5) \<and>
         dropWhile isWhiteSpace s6 = [])"

fun dropSeasonTag :: "string \<Rightarrow> string" where
  \<comment> \<open>\<open>s.replace(seasonTagRe, "")\<close>: the leftmost match runs to the end of the string\<close>
  "dropSeasonTag [] = []"
| "dropSeasonTag (c # cs) = (if seasonTagAt (c # cs) then [] else c # dropSeasonTag cs)"

fun collapseSpaces :: "bool \<Rightarrow> string \<Rightarrow> string" where
  \<comment> \<open>\<open>s.replace(/\s+/g, " ")\<close>: the flag tells that the run of white space has begun\<close>
  "collapseSpaces inRun [] = []"
| "collapseSpaces inRun (c # cs) =
     (if isWhiteSpace c then (if inRun then collapseSpaces True cs else CHR '' '' # collapseSpaces True cs)
      else c # collapseSpaces False cs)"

definition normalizeCell :: "string \<Rightarrow> string" where
  \<comment> \<open>the two replacements of dashes match only code units above 255 (U+2010 to U+2014 and
      U+2212) and leave the strings of the model as they are\<close>
  "normalizeCell val =
     (let s0 = trim (toLowerCase val);
          s1 = dropAllTime None 0 s0;
          s2 = dropSeasonTag s1
      in trim (collapseSpaces False s2))"

subsection \<open>Numbers in the last column\<close>

definition numberLen :: "string \<Rightarrow> nat" where
  \<comment> \<open>the length of a match of \<open>/-?\d+(\.\d+)?/\<close> at the start of \<open>s\<close>; 0 when there is none\<close>
  "numberLen s =
     (let neg = (s \<noteq> [] \<and> hd s = CHR ''-'');
          s1 = (if neg then tl s else s);
          ip = takeWhile isDigit s1;
          r = dropWhile isDigit s1;
          fp = (if r \<noteq> [] \<and> hd r = CHR ''.'' then takeWhile isDigit (tl r) else [])
      in if ip = [] then 0
         else (if neg then 1 else 0) + length ip + (if fp = [] then 0 else 1 + length fp))"

fun numMatches :: "string \<Rightarrow> string list" where
  \<comment> \<open>\<open>s.match(/-?\d+(\.\d+)?/g)\<close>, the empty list for \<open>null\<close>\<close>
  "numMatches [] = []"
| "numMatches (c # cs) =
     (let n = numberLen (c # cs) in
      if n = 0 then numMatches cs else take n (c # cs) # numMatches (drop (n - 1) cs))"

fun joinBar :: "string list \<Rightarrow> string" where
  \<comment> \<open>\<open>xs.join("|")\<close>\<close>
  "joinBar [] = []"
| "joinBar [x] = x"
| "joinBar (x # y # ys) = x @ ''|'' @ joinBar (y # ys)"

definition lastCell :: "string list \<Rightarrow> StringMap \<Rightarrow> string" where
  \<comment> \<open>\<open>row[headers[headers.length - 1]] ?? ""\<close>, for headers that are not empty\<close>
  "lastCell hs row = (case map_of row (last hs) of None \<Rightarrow> [] | Some v \<Rightarrow> v)"

definition extractNumericSignature :: "string list \<Rightarrow> StringMap \<Rightarrow> string" where
  "extractNumericSignature hs row =
     (if hs = [] then []
      else (case numMatches (lastCell hs row) of [] \<Rightarrow> [] | ms \<Rightarrow> joinBar ms))"

definition numericFromRow :: "string list \<Rightarrow> StringMap \<Rightarrow> jsnum option" where
  \<comment> \<open>\<open>None\<close> for \<open>null\<close>\<close>
  "numericFromRow hs row =
     (if hs = [] then None
      else (case numMatches (lastCell hs row) of [] \<Rightarrow> None | m # _ \<Rightarrow> Some (Number m)))"

definition jsLess :: "jsnum \<Rightarrow> jsnum \<Rightarrow> bool" where
  \<comment> \<open>\<open>x < y\<close> on numbers; \<open>x > y\<close> is \<open>jsLess y x\<close>\<close>
  "jsLess x y =
     (case x of
        NaN \<Rightarrow> False
      | PosInf \<Rightarrow> False
      | NegInf \<Rightarrow> (case y of NaN \<Rightarrow> False | NegInf \<Rightarrow> False | _ \<Rightarrow> True)
      | Fin a \<Rightarrow> (case y of NaN \<Rightarrow> False | PosInf \<Rightarrow> True | NegInf \<Rightarrow> False | Fin b \<Rightarrow> a < b))"

subsection \<open>Order of the sections\<close>

definition ORDER_PATTERNS :: "string list list" where
  "ORDER_PATTERNS =
     [[''win''], [''loss''], [''team points'', ''most''], [''touchdowns'', ''most''],
      [''rushing'', ''most''], [''receiving'', ''most''], [''passing'', ''most''],
      [''offensive points'', ''most''], [''margin of victory'', ''largest''],
      [''strength of schedule'', ''hardest''], [''team points'', ''least''],
      [''offensive points'', ''least''], [''margin of victory'', ''smallest''],
      [''kicking points'', ''most''], [''defensive points'', ''most''],
      [''strength of schedule'', ''easiest'']]"

fun rankFrom :: "string \<Rightarrow> int \<Rightarrow> string list list \<Rightarrow> int" where
  \<comment> \<open>the loop of \<open>rankSection\<close> from index \<open>i\<close> on\<close>
  "rankFrom t i [] = 10000"
| "rankFrom t i (tokens # rest) =
     (if list_all (\<lambda>tok. str_includes t tok) tokens then
        (if tokens = [''win''] \<and> str_includes t ''margin of victory'' then rankFrom t (i + 1) rest
         else if tokens = [''loss''] \<and> str_includes t ''margin of victory'' then rankFrom t (i + 1) rest
         else i)
      else rankFrom t (i + 1) rest)"

definition rankSection :: "string \<Rightarrow> int" where
  "rankSection title = rankFrom (normalizeCell title) 0 ORDER_PATTERNS"

definition compareSections :: "collation \<Rightarrow> RecordSection \<Rightarrow> RecordSection \<Rightarrow> rat" where
  "compareSections localeCompare x y =
     (let ra = rankSection (sec_title x); rb = rankSection (sec_title y)
      in if ra \<noteq> rb then of_int (ra - rb)
         else of_int (localeCompare (sec_title x) (sec_title y)))"

subsection \<open>All-time mode\<close>

definition firstCell :: "string list \<Rightarrow> StringMap \<Rightarrow> string" where
  \<comment> \<open>\<open>r[headers[0]] ?? r["Record"] ?? ""\<close>; with no header the key read is \<open>undefined\<close>\<close>
  "firstCell hs r =
     (case map_of r (case hs of [] \<Rightarrow> ''undefined'' | h # _ \<Rightarrow> h) of
        Some v \<Rightarrow> v
      | None \<Rightarrow> (case map_of r ''Record'' of Some v \<Rightarrow> v | None \<Rightarrow> []))"

definition allTimePushes :: "RecordsData \<Rightarrow> (string \<times> string list \<times> StringMap) list" where
  \<comment> \<open>the calls \<open>push(title, headers, row)\<close> in the order of the three nested loops\<close>
  "allTimePushes dat =
     concat (map (\<lambda>yd.
       concat (map (\<lambda>key.
         (case yearSections yd key of
            None \<Rightarrow> []
          | Some sections \<Rightarrow>
              concat (map (\<lambda>sec.
                if shouldExcludeSection (sec_title sec) then []
                else map (\<lambda>r. (sec_title sec, sec_headers sec, r))
                       (filter hasAllTimeTag (sec_rows sec)))
                sections)))
         [Head_to_head, Team_points, Team_stats]))
       (map snd (years dat)))"

definition pushEntry ::
  "(string list \<times> StringMap list) option \<Rightarrow> string list \<times> StringMap \<Rightarrow> string list \<times> StringMap list" where
  "pushEntry found hr =
     (case found of None \<Rightarrow> (fst hr, [snd hr]) | Some e \<Rightarrow> (fst e, snd e @ [snd hr]))"

definition push ::
  "(string \<times> string list \<times> StringMap list) list \<Rightarrow> string \<times> string list \<times> StringMap
     \<Rightarrow> (string \<times> string list \<times> StringMap list) list" where
  "push bySection p = AList.update (fst p) (pushEntry (map_of bySection (fst p)) (snd p)) bySection"

definition keepMinOf :: "string \<Rightarrow> bool" where
  "keepMinOf secNorm =
     (str_includes secNorm ''least'' \<or> str_includes secNorm ''easiest'' \<or>
      str_includes secNorm ''smallest'')"

definition recordKey :: "string \<Rightarrow> string list \<Rightarrow> StringMap \<Rightarrow> string" where
  \<comment> \<open>\<open>key\<close>: the normalised title and the normalised first cell\<close>
  "recordKey secNorm hs r = secNorm @ ''::'' @ normalizeCell (firstCell hs r)"

definition better :: "bool \<Rightarrow> jsnum \<Rightarrow> jsnum \<Rightarrow> bool" where
  \<comment> \<open>\<open>better\<close> for the new value \<open>valRaw\<close> against \<open>current.val\<close>\<close>
  "better keepMin valRaw cur =
     ((\<not> keepMin \<and> jsLess cur valRaw) \<or> (keepMin \<and> jsLess valRaw cur))"

definition recordEntry ::
  "bool \<Rightarrow> (StringMap \<times> jsnum) option \<Rightarrow> StringMap \<Rightarrow> jsnum \<Rightarrow> StringMap \<times> jsnum" where
  \<comment> \<open>the value under a key after a row with the number \<open>valRaw\<close>\<close>
  "recordEntry keepMin current r valRaw =
     (case current of
        None \<Rightarrow> (r, valRaw)
      | Some cur \<Rightarrow> if better keepMin valRaw (snd cur) then (r, valRaw) else cur)"

definition recordStep ::
  "string \<Rightarrow> string list \<Rightarrow> (string \<times> StringMap \<times> jsnum) list \<Rightarrow> StringMap
     \<Rightarrow> (string \<times> StringMap \<times> jsnum) list" where
  \<comment> \<open>one turn of the loop over the rows of a section\<close>
  "recordStep secNorm hs byRecord r =
     (case numericFromRow hs r of
        None \<Rightarrow> byRecord
      | Some valRaw \<Rightarrow>
          if valRaw = NaN then byRecord
          else (let key = recordKey secNorm hs r
                in AList.update key
                     (recordEntry (keepMinOf secNorm) (map_of byRecord key) r valRaw) byRecord))"

definition dedupeSection :: "string \<times> string list \<times> StringMap list \<Rightarrow> RecordSection option" where
  \<comment> \<open>what one entry of \<open>bySection\<close> pushes onto \<open>out\<close>, if anything\<close>
  "dedupeSection e =
     (let title = fst e; hs = fst (snd e);
          byRecord = foldl (recordStep (normalizeCell title) hs) [] (snd (snd e));
          deduped = map (\<lambda>v. fst (snd v)) byRecord
      in if deduped \<noteq> [] then Some \<lparr>sec_title = title, sec_headers = hs, sec_rows = deduped\<rparr>
         else None)"

definition allTimeOut :: "RecordsData \<Rightarrow> RecordSection list" where
  \<comment> \<open>\<open>out\<close> after the loop over \<open>bySection\<close>, before it is sorted\<close>
  "allTimeOut d = List.map_filter dedupeSection (foldl push [] (allTimePushes d))"

definition allTimeSections :: "collation \<Rightarrow> RecordsData option \<Rightarrow> RecordSection list" where
  "allTimeSections localeCompare dat =
     (case dat of
        None \<Rightarrow> []
      | Some d \<Rightarrow> sort_by (compareSections localeCompare) (allTimeOut d))"

subsection \<open>Seasonal mode\<close>

definition holderCell :: "string list \<Rightarrow> StringMap \<Rightarrow> string" where
  \<comment> \<open>the cell under the first header that contains "holder", under "Record Holder"
      when there is no such header\<close>
  "holderCell hs r =
     (case map_of r (case List.find (\<lambda>h. str_includes (toLowerCase h) ''holder'') hs of
                       None \<Rightarrow> ''Record Holder'' | Some h \<Rightarrow> h) of
        None \<Rightarrow> []
      | Some v \<Rightarrow> v)"

definition rowSig :: "RecordSection \<Rightarrow> StringMap \<Rightarrow> string" where
  \<comment> \<open>\<open>sig\<close>\<close>
  "rowSig sec r =
     normalizeCell (sec_title sec) @ '' :: '' @
     normalizeCell (firstCell (sec_headers sec) r) @ '' :: '' @
     extractNumericSignature (sec_headers sec) r @ '' :: '' @
     normalizeCell (holderCell (sec_headers sec) r)"

fun keepUnseen :: "(StringMap \<Rightarrow> string) \<Rightarrow> string list \<Rightarrow> StringMap list \<Rightarrow> StringMap list" where
  \<comment> \<open>the loop with the set \<open>seen\<close>: a row is kept when its signature is new\<close>
  "keepUnseen sg seen [] = []"
| "keepUnseen sg seen (r # rs) =
     (if sg r \<in> set seen then keepUnseen sg seen rs
      else r # keepUnseen sg (sg r # seen) rs)"

definition seasonalRows :: "RecordSection \<Rightarrow> RecordSection option" where
  \<comment> \<open>the body shared by the seasonal loop and the loop of the extra tables, after the test
      of the title\<close>
  "seasonalRows sec =
     (let rs = filter (\<lambda>r. \<not> hasAllTimeTag r) (sec_rows sec)
      in if rs = [] then None
         else Some \<lparr>sec_title = sec_title sec, sec_headers = sec_headers sec,
                    sec_rows = keepUnseen (rowSig sec) [] rs\<rparr>)"

definition seasonalSections :: "collation \<Rightarrow> RecordsData option \<Rightarrow> Mode \<Rightarrow> string \<Rightarrow> RecordSection list" where
  "seasonalSections localeCompare dat mode year =
     (case dat of
        None \<Rightarrow> []
      | Some d \<Rightarrow>
          (case mode of
             All_time \<Rightarrow> []
           | Seasonal key \<Rightarrow>
               if year = [] then []
               else (case map_of (years d) year of
                       None \<Rightarrow> []
                     | Some yd \<Rightarrow>
                         sort_by (compareSections localeCompare)
                           (List.map_filter
                              (\<lambda>sec. if shouldExcludeSection (sec_title sec) then None
                                     else seasonalRows sec)
                              (case yearSections yd key of None \<Rightarrow> [] | Some secs \<Rightarrow> secs)))))"

definition isPostDraftMost :: "string \<Rightarrow> bool" where
  "isPostDraftMost title =
     (let t = normalizeCell title
      in str_includes t ''points from waiver-wire pickups'' \<and> str_includes t ''most'')"

definition isDraftPlayersMost :: "string \<Rightarrow> bool" where
  "isDraftPlayersMost title =
     (let t = normalizeCell title
      in (str_includes t ''points from draft players'' \<or>
          str_includes t ''points from drafted players'') \<and> str_includes t ''most'')"

definition cmpExtra :: "collation \<Rightarrow> RecordSection \<Rightarrow> RecordSection \<Rightarrow> rat" where
  "cmpExtra localeCompare x y =
     (let aPost = (if isPostDraftMost (sec_title x) then 0 else 1 :: int);
          bPost = (if isPostDraftMost (sec_title y) then 0 else 1 :: int)
      in if aPost \<noteq> bPost then of_int (aPost - bPost)
         else of_int (localeCompare (sec_title x) (sec_title y)))"

definition teamPointsExtraTables :: "collation \<Rightarrow> RecordsData option \<Rightarrow> Mode \<Rightarrow> string \<Rightarrow> RecordSection list" where
  "teamPointsExtraTables localeCompare dat mode year =
     (case dat of
        None \<Rightarrow> []
      | Some d \<Rightarrow>
          if year = [] \<or> mode \<noteq> Seasonal Team_points then []
          else
            (let secs = (case map_of (years d) year of
                           None \<Rightarrow> []
                         | Some yd \<Rightarrow> (case team_points yd of None \<Rightarrow> [] | Some ss \<Rightarrow> ss))
             in sort_by (cmpExtra localeCompare)
                  (List.map_filter
                     (\<lambda>sec. if \<not> (isPostDraftMost (sec_title sec) \<or> isDraftPlayersMost (sec_title sec))
                            then None else seasonalRows sec)
                     secs)))"

section \<open>Draft board grouper\<close>

definition jsNeq :: "jsnum \<Rightarrow> jsnum \<Rightarrow> bool" where
  \<comment> \<open>\<open>x !== y\<close> on numbers: \<open>NaN\<close> differs from every number, itself included\<close>
  "jsNeq x y = (x = NaN \<or> y = NaN \<or> x \<noteq> y)"

fun digitsOf :: "nat \<Rightarrow> nat \<Rightarrow> string" where
  \<comment> \<open>the decimal digits of \<open>n\<close>; the first argument bounds their number\<close>
  "digitsOf 0 n = []"
| "digitsOf (Suc fuel) n =
     (if n < 10 then [char_of (48 + n)] else digitsOf fuel (n div 10) @ [char_of (48 + n mod 10)])"

definition jsString :: "int \<Rightarrow> string" where
  \<comment> \<open>\<open>String(y)\<close> for an integer\<close>
  "jsString y = (if y < 0 then CHR ''-'' # digitsOf (Suc (nat (- y))) (nat (- y))
                 else digitsOf (Suc (nat y)) (nat y))"

definition groupedByRoundSingle :: "Row list \<Rightarrow> (rat \<times> Row list) list" where
  "groupedByRoundSingle rows =
     sort_by (\<lambda>x y. fst x - fst y)
       (foldl (\<lambda>m r.
          (let key = (case NumberU (map_of r ''round'') of Fin rn \<Rightarrow> rn | _ \<Rightarrow> 0)
           in AList.update key ((case map_of m key of None \<Rightarrow> [] | Some rs \<Rightarrow> rs) @ [r]) m))
        [] rows)"

definition cmpPick :: "Row \<Rightarrow> Row \<Rightarrow> rat" where
  \<comment> \<open>season descending, then round and pick ascending\<close>
  "cmpPick x y =
     (let ay = NumberU (map_of x ''season''); by = NumberU (map_of y ''season'');
          ar = NumberU (map_of x ''round''); br = NumberU (map_of y ''round'')
      in cmpResult
           (if jsNeq ay by then jsMinus by ay
            else if jsNeq ar br then jsMinus ar br
            else jsMinus (NumberU (map_of x ''pick'')) (NumberU (map_of y ''pick''))))"

definition managerRowsFlat :: "string \<Rightarrow> (int \<times> Row list) list \<Rightarrow> Row list" where
  \<comment> \<open>\<open>allRowsByYear\<close> is an object keyed by year, given as the list of its entries\<close>
  "managerRowsFlat managerFilter allRowsByYear =
     (if managerFilter = [] then []
      else
        sort_by cmpPick
          (concat (map (\<lambda>y.
             map (\<lambda>r. AList.update ''season'' (jsString y) r)
               (filter (\<lambda>r. (case map_of r ''manager'' of None \<Rightarrow> [] | Some v \<Rightarrow> v) = managerFilter)
                  (case map_of allRowsByYear y of None \<Rightarrow> [] | Some rs \<Rightarrow> rs)))
             (sort_by (\<lambda>x y. of_int (y - x)) (map fst allRowsByYear)))))"

definition playerSearchResults :: "string \<Rightarrow> (int \<times> Row list) list \<Rightarrow> Row list" where
  "playerSearchResults playerQuery allRowsByYear =
     (if trim playerQuery = [] then []
      else
        (let q = toLowerCase (trim playerQuery)
         in sort_by cmpPick
              (concat (map (\<lambda>e.
                 map (\<lambda>r. AList.update ''season'' (jsString (fst e)) r)
                   (filter (\<lambda>r. str_includes
                        (toLowerCase (case map_of r ''player'' of None \<Rightarrow> [] | Some v \<Rightarrow> v)) q)
                      (snd e)))
                 allRowsByYear))))"

section \<open>Notions of the statements, invariants and example data\<close>

text \<open>
  The definitions of this section are not part of the program: they word what the
  theorems say (orders, signatures and sums as the specification names them), the
  invariants of the loops, and the inputs of the worked examples.
\<close>

definition finishesText :: string where
  \<comment> \<open>the finishes file of the end-to-end scenario\<close>
  "finishesText = ''manager,season,place\<newline>Alice,2023,1\<newline>Alice,2024,3''"

definition finishesRows :: "Row list" where
  \<comment> \<open>its two rows\<close>
  "finishesRows =
     [[(''manager'', ''Alice''), (''season'', ''2023''), (''place'', ''1'')],
      [(''manager'', ''Alice''), (''season'', ''2024''), (''place'', ''3'')]]"

definition pctOf :: "int \<Rightarrow> int \<Rightarrow> int \<Rightarrow> rat" where
  \<comment> \<open>the win percentage formula as the specification words it:
      \<open>(wins + 0.5 * ties) / (wins + losses + ties)\<close>, and 0 when the denominator is 0\<close>
  "pctOf w l t = (if w + l + t = 0 then 0 else (of_int w + (1 / 2) * of_int t) / of_int (w + l + t))"

definition xyData :: "rat \<Rightarrow> rat \<Rightarrow> H2H" where
  \<comment> \<open>X against Y: 3 wins, 1 loss, 1 tie for X, with the points of the two sides\<close>
  "xyData fa fb = \<lparr>managers = [''X'', ''Y''],
     pairs = [\<lparr>side_a = ''X'', side_b = ''Y'', a_wins = 3, b_wins = 1, ties = 1,
               a_points_for = fa, b_points_for = fb\<rparr>]\<rparr>"

definition consistentCompare :: "collation \<Rightarrow> bool" where
  \<comment> \<open>a consistent comparison function, which the language standard requires
      \<open>localeCompare\<close> to be: the sign of the result flips with the arguments, and
      "not after" is transitive\<close>
  "consistentCompare lc =
     ((\<forall>x y. (lc x y < 0) = (0 < lc y x)) \<and>
      (\<forall>x y z. lc x y \<le> 0 \<and> lc y z \<le> 0 \<longrightarrow> lc x z \<le> 0))"

definition separating :: "collation \<Rightarrow> bool" where
  \<comment> \<open>a collation that returns 0 on equal strings only\<close>
  "separating lc = (\<forall>x y. lc x y = 0 \<longrightarrow> x = y)"

fun codeUnitCompare :: collation where
  \<comment> \<open>an example of a collation: the lexicographic order of the code units\<close>
  "codeUnitCompare [] [] = 0"
| "codeUnitCompare [] (y # ys) = - 1"
| "codeUnitCompare (x # xs) [] = 1"
| "codeUnitCompare (x # xs) (y # ys) =
     (if (of_char x :: nat) < of_char y then - 1
      else if (of_char y :: nat) < of_char x then 1
      else codeUnitCompare xs ys)"

definition softHyphenCompare :: collation where
  \<comment> \<open>an example of a collation that ignores a character, as the collations of the
      platform ignore the soft hyphen U+00AD: the order of the code units that remain\<close>
  "softHyphenCompare x y =
     codeUnitCompare (filter (\<lambda>c. c \<noteq> CHR 0xAD) x) (filter (\<lambda>c. c \<noteq> CHR 0xAD) y)"

definition rankedBefore :: "collation \<Rightarrow> Totals \<Rightarrow> Totals \<Rightarrow> bool" where
  \<comment> \<open>the ranking as the specification words it: points descending, then gold count
      descending, then average finish ascending, then the name, in the order of the
      collation \<open>lc\<close>\<close>
  "rankedBefore lc x y =
     (points x > points y \<or> (points x = points y \<and>
       (gold x > gold y \<or> (gold x = gold y \<and>
         (avgFinish x < avgFinish y \<or> (avgFinish x = avgFinish y \<and>
           lc (manager x) (manager y) < 0))))))"

definition rankedNotAfter :: "collation \<Rightarrow> Totals \<Rightarrow> Totals \<Rightarrow> bool" where
  \<comment> \<open>the same ranking, names that collate equal included\<close>
  "rankedNotAfter lc x y =
     (points x > points y \<or> (points x = points y \<and>
       (gold x > gold y \<or> (gold x = gold y \<and>
         (avgFinish x < avgFinish y \<or> (avgFinish x = avgFinish y \<and>
           lc (manager x) (manager y) \<le> 0))))))"

definition titleBefore :: "collation \<Rightarrow> Totals \<Rightarrow> Totals \<Rightarrow> bool" where
  \<comment> \<open>the order of the comparator of \<open>titles\<close>: gold count descending, then points
      descending, then the name, in the order of the collation \<open>lc\<close>\<close>
  "titleBefore lc x y =
     (gold x > gold y \<or> (gold x = gold y \<and>
       (points x > points y \<or> (points x = points y \<and>
           lc (manager x) (manager y) < 0))))"

definition titleNotAfter :: "collation \<Rightarrow> Totals \<Rightarrow> Totals \<Rightarrow> bool" where
  \<comment> \<open>the same order, names that collate equal included\<close>
  "titleNotAfter lc x y =
     (gold x > gold y \<or> (gold x = gold y \<and>
       (points x > points y \<or> (points x = points y \<and>
           lc (manager x) (manager y) \<le> 0))))"

definition hyphenRows :: "Row list" where
  \<comment> \<open>two managers with one title each, whose names differ by a soft hyphen\<close>
  "hyphenRows =
     [[(''manager'', ''ab''), (''season'', ''2020''), (''place'', ''1'')],
      [(''manager'', [CHR ''a'', CHR 0xAD, CHR ''b'']), (''season'', ''2021''), (''place'', ''1'')]]"

definition titleRows :: "Row list" where
  \<comment> \<open>A has one title and two second places, B has two titles\<close>
  "titleRows =
     [[(''manager'', ''A''), (''season'', ''2020''), (''place'', ''1'')],
      [(''manager'', ''A''), (''season'', ''2021''), (''place'', ''2'')],
      [(''manager'', ''A''), (''season'', ''2022''), (''place'', ''2'')],
      [(''manager'', ''B''), (''season'', ''2023''), (''place'', ''1'')],
      [(''manager'', ''B''), (''season'', ''2024''), (''place'', ''1'')]]"



definition keyed :: "(string \<times> Totals) list \<Rightarrow> bool" where
  \<comment> \<open>the invariant of \<open>byMgr\<close>: one entry per key, each under its own non-empty name\<close>
  "keyed byMgr = (distinct (map fst byMgr) \<and> (\<forall>e \<in> set byMgr. manager (snd e) = fst e \<and> fst e \<noteq> []))"

definition opponentsListed :: "H2H \<Rightarrow> string \<Rightarrow> bool" where
  \<comment> \<open>every pair that names \<open>mgr\<close> has another manager of the roster on its other side\<close>
  "opponentsListed d mgr =
     (\<forall>p \<in> set (pairs d).
        (side_a p = mgr \<longrightarrow> side_b p \<noteq> mgr \<and> side_b p \<in> set (managers d)) \<and>
        (side_b p = mgr \<longrightarrow> side_a p \<noteq> mgr \<and> side_a p \<in> set (managers d)))"

definition othersInRoster :: "H2H \<Rightarrow> string \<Rightarrow> bool" where
  \<comment> \<open>every pair that names \<open>mgr\<close> has a name of the roster on its other side\<close>
  "othersInRoster d mgr =
     (\<forall>p \<in> set (pairs d).
        (side_a p = mgr \<longrightarrow> side_b p \<in> set (managers d)) \<and>
        (side_b p = mgr \<longrightarrow> side_a p \<in> set (managers d)))"

definition pageWinPct :: "collation \<Rightarrow> H2H \<Rightarrow> string \<Rightarrow> rat" where
  \<comment> \<open>the overall PCT of the head-to-head page, 0 when the page renders no summary\<close>
  "pageWinPct lc d mgr = (case overall (h2h_table lc (Some d) mgr) of None \<Rightarrow> 0 | Some s \<Rightarrow> wp s)"

definition oneFinish :: "Row list" where
  \<comment> \<open>one finish, so that A is a manager of the standings\<close>
  "oneFinish = [[(''manager'', ''A''), (''season'', ''2023''), (''place'', ''1'')]]"

definition mkPair :: "string \<Rightarrow> string \<Rightarrow> int \<Rightarrow> int \<Rightarrow> int \<Rightarrow> Pair" where
  \<comment> \<open>a pair with its wins, losses and ties, and no points\<close>
  "mkPair x y w l t = \<lparr>side_a = x, side_b = y, a_wins = w, b_wins = l, ties = t,
     a_points_for = 0, b_points_for = 0\<rparr>"

definition selfData :: H2H where
  \<comment> \<open>a pair that names A on both sides, beside a pair of A and B\<close>
  "selfData = \<lparr>managers = [''A'', ''B''],
     pairs = [mkPair ''A'' ''A'' 1 0 0, mkPair ''A'' ''B'' 0 1 0]\<rparr>"

definition absentData :: H2H where
  \<comment> \<open>a pair of A with Z, who is not in the roster, beside a pair of A and B\<close>
  "absentData = \<lparr>managers = [''A'', ''B''],
     pairs = [mkPair ''A'' ''Z'' 1 0 0, mkPair ''A'' ''B'' 0 1 0]\<rparr>"

definition listedData :: H2H where
  \<comment> \<open>every opponent of A is another manager of the roster\<close>
  "listedData = \<lparr>managers = [''A'', ''B'', ''C''],
     pairs = [mkPair ''A'' ''C'' 1 0 1, mkPair ''B'' ''A'' 1 2 0]\<rparr>"


text \<open>What one pair adds to the wins, losses and ties that the season aggregator sums.\<close>

definition aggW :: "string \<Rightarrow> Pair \<Rightarrow> int" where
  "aggW mgr p = (if side_a p = mgr then a_wins p else if side_b p = mgr then b_wins p else 0)"
definition aggL :: "string \<Rightarrow> Pair \<Rightarrow> int" where
  "aggL mgr p = (if side_a p = mgr then b_wins p else if side_b p = mgr then a_wins p else 0)"
definition aggT :: "string \<Rightarrow> Pair \<Rightarrow> int" where
  "aggT mgr p = (if side_a p = mgr \<or> side_b p = mgr then ties p else 0)"


definition hiddenRows :: "HRow list \<Rightarrow> HRow list" where
  \<comment> \<open>the rows of the table that \<open>visibleTable\<close> leaves out\<close>
  "hiddenRows tbl = filter (\<lambda>r. opponent r \<in> HIDDEN) tbl"

definition brendanData :: H2H where
  \<comment> \<open>Ann has played the hidden Brendan and Cy\<close>
  "brendanData = \<lparr>managers = [''Ann'', ''Brendan'', ''Cy''],
     pairs = [\<lparr>side_a = ''Ann'', side_b = ''Brendan'', a_wins = 2, b_wins = 1, ties = 0,
                a_points_for = 300, b_points_for = 280\<rparr>,
              \<lparr>side_a = ''Cy'', side_b = ''Ann'', a_wins = 1, b_wins = 1, ties = 0,
                a_points_for = 200, b_points_for = 210\<rparr>]\<rparr>"

definition draftedOwners :: "string \<Rightarrow> DraftRow list \<Rightarrow> OwnedTeam list" where
  \<comment> \<open>the drafted owners of player \<open>k\<close>: each draft row with a manager, the latest first\<close>
  "draftedOwners k draft =
     rev (map (\<lambda>d. \<lparr>team = trim (d_manager d), acquired = Drafted\<rparr>)
            (filter (\<lambda>d. trim (d_player d) = k \<and> trim (d_manager d) \<noteq> []) draft))"

definition addOwners :: "string \<Rightarrow> Txn list \<Rightarrow> OwnedTeam list" where
  \<comment> \<open>the owners that the adds of player \<open>k\<close> give, in the order of the list\<close>
  "addOwners k as =
     map (\<lambda>r. \<lparr>team = trim (to_team r), acquired = (if txn_note r = ''Trade'' then Trade else Waiver)\<rparr>)
       (filter (\<lambda>r. trim (txn_player r) = k) as)"

definition timeOf :: "(string \<Rightarrow> jsnum) \<Rightarrow> Txn \<Rightarrow> rat" where
  \<comment> \<open>the time of a row whose date parses\<close>
  "timeOf getTime r = (case getTime (txn_date r) of Fin q \<Rightarrow> q | _ \<Rightarrow> 0)"

definition stat :: "MapVal option \<Rightarrow> int \<times> int \<times> int \<times> OwnedTeam list" where
  \<comment> \<open>the counters and owners of an entry; those of a fresh entry when there is none\<close>
  "stat found = (case found of None \<Rightarrow> (0, 0, 0, []) | Some e \<Rightarrow> (drafted e, adds e, total e, owned e))"

definition playerKeyed :: "(string \<times> MapVal) list \<Rightarrow> bool" where
  \<comment> \<open>the invariant of \<open>map\<close>: one entry per key, each under its own non-empty name\<close>
  "playerKeyed m = (distinct (map fst m) \<and> (\<forall>e \<in> set m. player (snd e) = fst e \<and> fst e \<noteq> []))"


definition exTime :: "string \<Rightarrow> jsnum" where
  \<comment> \<open>the times of the two dates of the example, in milliseconds\<close>
  "exTime s = (if s = ''2025-09-10'' then Fin 1757462400000
               else if s = ''2025-09-17'' then Fin 1758067200000 else NaN)"

definition exDraft :: "DraftRow list" where
  \<comment> \<open>Mia drafts Joe Flacco\<close>
  "exDraft = [\<lparr>d_player = ''Joe Flacco'', d_position = ''QB'', d_nfl = ''Cle'', d_manager = ''Mia''\<rparr>,
              \<lparr>d_player = ''Bijan Robinson'', d_position = ''RB'', d_nfl = ''Atl'', d_manager = ''Ned''\<rparr>]"

definition exTxn :: TxnFile where
  \<comment> \<open>Ned adds Joe Flacco a week after Mia has dropped him\<close>
  "exTxn = \<lparr>file_season = 2025,
     file_rows =
       [\<lparr>txn_season = 2025, txn_date = ''2025-09-17'', txn_type = ''add'', txn_player = ''Joe Flacco'',
          txn_position = ''QB'', txn_nfl = ''Cle'', from_team = ''Waivers'', to_team = ''Ned'',
          txn_note = []\<rparr>,
        \<lparr>txn_season = 2025, txn_date = ''2025-09-10'', txn_type = ''drop'', txn_player = ''Joe Flacco'',
          txn_position = ''QB'', txn_nfl = ''Cle'', from_team = ''Mia'', to_team = [],
          txn_note = []\<rparr>],
     updated_at = ''2025-09-18''\<rparr>"

definition holderCellRecord :: "string list \<Rightarrow> StringMap \<Rightarrow> string" where
  \<comment> \<open>the holder cell as the specification words it: the fallback is the column "Record"\<close>
  "holderCellRecord hs r =
     (case map_of r (case List.find (\<lambda>h. str_includes (toLowerCase h) ''holder'') hs of
                       None \<Rightarrow> ''Record'' | Some h \<Rightarrow> h) of
        None \<Rightarrow> []
      | Some v \<Rightarrow> v)"

definition rowSigRecord :: "RecordSection \<Rightarrow> StringMap \<Rightarrow> string" where
  \<comment> \<open>the composite signature with that fallback\<close>
  "rowSigRecord sec r =
     normalizeCell (sec_title sec) @ '' :: '' @
     normalizeCell (firstCell (sec_headers sec) r) @ '' :: '' @
     extractNumericSignature (sec_headers sec) r @ '' :: '' @
     normalizeCell (holderCellRecord (sec_headers sec) r)"

definition seasonRows :: "StringMap list" where
  \<comment> \<open>two rows that differ in the cell "Record Holder" only\<close>
  "seasonRows =
     [[(''Team'', ''Sharks''), (''Points'', ''150''), (''Record Holder'', ''Ann'')],
      [(''Team'', ''Sharks''), (''Points'', ''150''), (''Record Holder'', ''Cy'')]]"

definition seasonSec :: RecordSection where
  \<comment> \<open>a section with no header that contains "holder"\<close>
  "seasonSec = \<lparr>sec_title = ''Most Points'', sec_headers = [''Team'', ''Points''], sec_rows = seasonRows\<rparr>"

definition seasonData :: RecordsData where
  \<comment> \<open>one year with that section\<close>
  "seasonData = \<lparr>years = [(''2024'',
     \<lparr>head_to_head = None, team_points = Some [seasonSec], team_stats = None\<rparr>)]\<rparr>"

definition sourceSections :: "RecordsData \<Rightarrow> SeasonalKey \<Rightarrow> string \<Rightarrow> RecordSection list" where
  \<comment> \<open>the sections of the selected year and category, as supplied\<close>
  "sourceSections d key year =
     (if year = [] then []
      else (case map_of (years d) year of
              None \<Rightarrow> []
            | Some yd \<Rightarrow> (case yearSections yd key of None \<Rightarrow> [] | Some secs \<Rightarrow> secs)))"

definition seasonRowsOf :: "RecordSection \<Rightarrow> StringMap list" where
  \<comment> \<open>the rows of a section that carry no "all time" tag\<close>
  "seasonRowsOf src = filter (\<lambda>r. \<not> hasAllTimeTag r) (sec_rows src)"

definition allTimeHeaders :: "RecordsData \<Rightarrow> string \<Rightarrow> string list" where
  \<comment> \<open>the headers of the first section that pushes a row under the title \<open>t\<close>\<close>
  "allTimeHeaders d t =
     (case filter (\<lambda>p. fst p = t) (allTimePushes d) of [] \<Rightarrow> [] | p # _ \<Rightarrow> fst (snd p))"

definition allTimeRows :: "RecordsData \<Rightarrow> string \<Rightarrow> StringMap list" where
  \<comment> \<open>the rows pushed under the title \<open>t\<close>, in the order of the loops\<close>
  "allTimeRows d t = map (\<lambda>p. snd (snd p)) (filter (\<lambda>p. fst p = t) (allTimePushes d))"

definition valued :: "string list \<Rightarrow> StringMap \<Rightarrow> bool" where
  \<comment> \<open>the last column of the row holds a number\<close>
  "valued hs r = (case numericFromRow hs r of None \<Rightarrow> False | Some v \<Rightarrow> v \<noteq> NaN)"

definition valueOf :: "string list \<Rightarrow> StringMap \<Rightarrow> jsnum" where
  \<comment> \<open>that number\<close>
  "valueOf hs r = (case numericFromRow hs r of None \<Rightarrow> NaN | Some v \<Rightarrow> v)"

definition rowsOf :: "(string list \<times> StringMap list) option \<Rightarrow> StringMap list" where
  \<comment> \<open>the rows of an entry of \<open>bySection\<close>, none when there is no entry\<close>
  "rowsOf found = (case found of None \<Rightarrow> [] | Some e \<Rightarrow> snd e)"

definition bestOf :: "bool \<Rightarrow> string list \<Rightarrow> (StringMap \<times> jsnum) option \<Rightarrow> StringMap set \<Rightarrow> bool" where
  \<comment> \<open>the invariant of one key of \<open>byRecord\<close>: its row is one of the rows seen and none of them is better\<close>
  "bestOf km hs cur S =
     (case cur of
        None \<Rightarrow> S = {}
      | Some e \<Rightarrow> fst e \<in> S \<and> snd e = valueOf hs (fst e) \<and>
                  (\<forall>r \<in> S. \<not> better km (valueOf hs r) (snd e)))"


definition row42 :: StringMap where
  \<comment> \<open>an all-time row of the Sharks with 42 points\<close>
  "row42 = [(''Team'', ''Sharks''), (''Season'', ''All Time''), (''Points'', ''42'')]"

definition row50 :: StringMap where
  \<comment> \<open>an all-time row of the Sharks with 50 points\<close>
  "row50 = [(''Team'', ''Sharks''), (''Season'', ''All Time''), (''Points'', ''50'')]"

definition pointsHeaders :: "string list" where
  \<comment> \<open>the headers of the two rows\<close>
  "pointsHeaders = [''Team'', ''Season'', ''Points'']"

definition pointsData :: "string \<Rightarrow> string \<Rightarrow> RecordsData" where
  \<comment> \<open>two years: the row with 42 under the first title, the row with 50 under the second\<close>
  "pointsData title1 title2 = \<lparr>years =
     [(''2023'', \<lparr>head_to_head = None,
         team_points = Some [\<lparr>sec_title = title1, sec_headers = pointsHeaders, sec_rows = [row42]\<rparr>],
         team_stats = None\<rparr>),
      (''2024'', \<lparr>head_to_head = None,
         team_points = Some [\<lparr>sec_title = title2, sec_headers = pointsHeaders, sec_rows = [row50]\<rparr>],
         team_stats = None\<rparr>)]\<rparr>"

section \<open>Properties\<close>

subsection \<open>Lists, maps and the comparator sort\<close>

lemma set_insert_by: "set (insert_by cmp x xs) = insert x (set xs)"
  by (induction xs) auto

lemma set_sort_by: "set (sort_by cmp xs) = set xs"
  by (induction xs) (simp_all add: sort_by_def set_insert_by)

lemma mset_insert_by: "mset (insert_by cmp x xs) = add_mset x (mset xs)"
  by (induction xs) auto

lemma mset_sort_by: "mset (sort_by cmp xs) = mset xs"
  by (induction xs) (simp_all add: sort_by_def mset_insert_by)

lemma length_sort_by: "length (sort_by cmp xs) = length xs"
  using mset_sort_by [of cmp xs] by (metis size_mset)

lemma sort_by_Nil_iff: "sort_by cmp xs = [] \<longleftrightarrow> xs = []"
  using length_sort_by [of cmp xs] by (metis length_0_conv)

lemma set_update_subset: "set (AList.update k v al) \<subseteq> insert (k, v) (set al)"
  by (induction al) auto

lemma set_map_filter_conv:
  "set (List.map_filter f xs) = {y. \<exists>x \<in> set xs. f x = Some y}"
  by (induction xs) (auto split: option.splits)

lemma mset_map_sort_by: "mset (map f (sort_by cmp xs)) = mset (map f xs)"
  by (simp only: mset_map mset_sort_by)

lemma distinct_map_sort_by: "distinct (map f (sort_by cmp xs)) = distinct (map f xs)"
  using mset_map_sort_by [of f cmp xs] by (rule mset_eq_imp_distinct_iff)

lemma sum_list_map_sort_by: "sum_list (map f (sort_by cmp xs)) = sum_list (map f xs)"
  for f :: "'a \<Rightarrow> 'b :: comm_monoid_add"
proof -
  have "sum_mset (mset (map f (sort_by cmp xs))) = sum_mset (mset (map f xs))"
    by (simp only: mset_map_sort_by)
  then show ?thesis by (simp only: sum_mset_sum_list)
qed

lemma filter_sort_by_single:
  assumes "filter P xs = [x]"
  shows "filter P (sort_by cmp xs) = [x]"
proof -
  have "mset (filter P (sort_by cmp xs)) = mset (filter P xs)"
    by (simp only: mset_filter mset_sort_by)
  also have "\<dots> = mset [x]" by (simp only: assms)
  also have "\<dots> = {#x#}" by simp
  finally show ?thesis by (simp only: mset_single_iff)
qed

lemma sorted_insert_by_on:
  assumes tot: "\<And>x y. x \<in> A \<Longrightarrow> y \<in> A \<Longrightarrow> cmp x y \<le> 0 \<or> cmp y x \<le> 0"
    and tr: "\<And>x y z. x \<in> A \<Longrightarrow> y \<in> A \<Longrightarrow> z \<in> A \<Longrightarrow> cmp x y \<le> 0 \<Longrightarrow> cmp y z \<le> 0 \<Longrightarrow> cmp x z \<le> 0"
  shows "a \<in> A \<Longrightarrow> set xs \<subseteq> A \<Longrightarrow> sorted_wrt (\<lambda>x y. cmp x y \<le> 0) xs \<Longrightarrow>
     sorted_wrt (\<lambda>x y. cmp x y \<le> 0) (insert_by cmp a xs)"
proof (induction xs)
  case Nil
  then show ?case by simp
next
  case (Cons y ys)
  show ?case
  proof (cases "cmp a y \<le> 0")
    case True
    have "cmp a z \<le> 0" if "z \<in> set ys" for z
    proof -
      from Cons.prems that have "cmp y z \<le> 0" "z \<in> A" "y \<in> A" by auto
      with True Cons.prems(1) show ?thesis using tr by blast
    qed
    with True Cons.prems show ?thesis by simp
  next
    case False
    then have "cmp y a \<le> 0" using tot [of a y] Cons.prems by auto
    with False Cons show ?thesis by (auto simp: set_insert_by)
  qed
qed

lemma sorted_sort_by_on:
  assumes tot: "\<And>x y. x \<in> A \<Longrightarrow> y \<in> A \<Longrightarrow> cmp x y \<le> 0 \<or> cmp y x \<le> 0"
    and tr: "\<And>x y z. x \<in> A \<Longrightarrow> y \<in> A \<Longrightarrow> z \<in> A \<Longrightarrow> cmp x y \<le> 0 \<Longrightarrow> cmp y z \<le> 0 \<Longrightarrow> cmp x z \<le> 0"
  shows "set xs \<subseteq> A \<Longrightarrow> sorted_wrt (\<lambda>x y. cmp x y \<le> 0) (sort_by cmp xs)"
proof (induction xs)
  case Nil
  then show ?case by (simp add: sort_by_def)
next
  case (Cons x xs)
  have e: "sort_by cmp (x # xs) = insert_by cmp x (sort_by cmp xs)" by (simp add: sort_by_def)
  show ?case unfolding e
  proof (rule sorted_insert_by_on [where A = A])
    show "x \<in> A" using Cons.prems by simp
    show "set (sort_by cmp xs) \<subseteq> A" using Cons.prems by (simp add: set_sort_by)
    show "sorted_wrt (\<lambda>x y. cmp x y \<le> 0) (sort_by cmp xs)" using Cons by simp
  qed (use tot tr in blast)+
qed

lemma sorted_sort_by:
  assumes tot: "\<And>x y. cmp x y \<le> 0 \<or> cmp y x \<le> 0"
    and tr: "\<And>x y z. cmp x y \<le> 0 \<Longrightarrow> cmp y z \<le> 0 \<Longrightarrow> cmp x z \<le> 0"
  shows "sorted_wrt (\<lambda>x y. cmp x y \<le> 0) (sort_by cmp xs)"
  by (rule sorted_sort_by_on [where A = UNIV]) (use tot tr in blast)+

lemma sorted_wrt_strict:
  assumes s: "sorted_wrt (\<lambda>x y. cmp x y \<le> 0) xs" and d: "distinct (map f xs)"
    and z: "\<And>x y. cmp x y = 0 \<Longrightarrow> f x = f y"
  shows "sorted_wrt (\<lambda>x y. cmp x y < (0::rat)) xs"
  using s d
proof (induction xs)
  case Nil
  then show ?case by simp
next
  case (Cons a xs)
  have "cmp a y < 0" if "y \<in> set xs" for y
  proof -
    from Cons.prems that have le: "cmp a y \<le> 0" and ne: "f a \<noteq> f y" by auto
    from ne z have "cmp a y \<noteq> 0" by blast
    with le show ?thesis by simp
  qed
  with Cons show ?case by simp
qed

lemma foldl_plus_sum: "foldl (\<lambda>acc r. acc + f r) a xs = a + sum_list (map f xs)"
  for a :: "'b :: comm_monoid_add"
  by (induction xs arbitrary: a) (simp_all add: add.assoc)

lemma sum_map_filter:
  "sum_list (map g (List.map_filter f xs)) =
     sum_list (map (\<lambda>x. case f x of None \<Rightarrow> 0 | Some r \<Rightarrow> g r) xs)"
  for g :: "'b \<Rightarrow> 'c :: comm_monoid_add"
  by (induction xs) (auto split: option.splits)

lemma sum_list_split:
  "sum_list (map f xs) = sum_list (map f (filter P xs)) + sum_list (map f (filter (\<lambda>x. \<not> P x) xs))"
  for f :: "'a \<Rightarrow> 'b :: comm_monoid_add"
  by (induction xs) (simp_all add: ac_simps)

subsection \<open>Season aggregator\<close>

text \<open>
  C1. The two finish rows of Alice (first in 2023, third in 2024), with no head-to-head
  data loaded, give exactly one totals entry: two seasons, one gold, no silver, one
  bronze, two podiums, four points, an average finish of 2, two playoff seasons and a win
  percentage of 0. The rows are those the parser reads from the text of the file.
\<close>

theorem alice_two_seasons:
  "parseCsv finishesText = finishesRows \<and>
   table lc finishesRows None =
     [\<lparr>manager = ''Alice'', seasons = 2, gold = 1, silver = 0, bronze = 1, podiums = 2,
       points = 4, avgFinish = 2, playoffsMade = 2, winPct = 0\<rparr>]"
  unfolding finishesText_def finishesRows_def by code_simp

subsection \<open>Head-to-head resolver\<close>

lemma mkRow_sel [simp]:
  "opponent (mkRow opp w l t f a) = opp" "wins (mkRow opp w l t f a) = w"
  "losses (mkRow opp w l t f a) = l" "r_ties (mkRow opp w l t f a) = t"
  "pf (mkRow opp w l t f a) = f" "pa (mkRow opp w l t f a) = a"
  "r_winPct (mkRow opp w l t f a) = pctOf w l t"
  by (simp_all add: mkRow_def pctOf_def Let_def)

lemma set_h2h_table:
  "set (h2h_table lc (Some d) mgr) =
     (if mgr = [] then {} else {r. \<exists>p \<in> set (pairs d). pairRow (managers d) mgr p = Some r})"
  by (auto simp: h2h_table_def set_sort_by set_map_filter_conv)

lemma pairRow_pct:
  "pairRow roster mgr p = Some r \<Longrightarrow> r_winPct r = pctOf (wins r) (losses r) (r_ties r)"
  by (auto simp: pairRow_def Let_def split: if_splits)

lemma h2h_table_xyData: "h2h_table lc (Some (xyData fa fb)) ''Y'' =
       [\<lparr>opponent = ''X'', wins = 1, losses = 3, r_ties = 1, pf = fb, pa = fa, r_winPct = 3 / 10\<rparr>]"
  by (simp add: xyData_def h2h_table_def pairRow_def mkRow_def sort_by_def Let_def)

text \<open>
  C2. A pair in which the target manager is side \<open>b\<close> is read with the sides swapped:
  the row against the opponent has the wins of \<open>b\<close>, the losses of \<open>a\<close> (the wins of
  \<open>a\<close>) and the ties of the pair; a row is pushed when the opponent is another manager
  of the roster. For the pair of X and Y with 3 wins of X, 1 win of Y and 1 tie, read for
  Y, the row is 1 win, 3 losses, 1 tie and a win percentage of 0.3. In every row of the
  table the win percentage is \<open>(wins + 0.5 * ties) / (wins + losses + ties)\<close>, and 0 when
  that sum of games is 0.
\<close>

theorem resolver_orientation:
  "(\<forall>r \<in> set (h2h_table lc (Some d) mgr). r_winPct r = pctOf (wins r) (losses r) (r_ties r)) \<and>
   (\<forall>p \<in> set (pairs d).
      mgr \<noteq> [] \<and> side_b p = mgr \<and> side_a p \<noteq> mgr \<and> side_a p \<in> set (managers d) \<longrightarrow>
      \<lparr>opponent = side_a p, wins = b_wins p, losses = a_wins p, r_ties = ties p,
        pf = b_points_for p, pa = a_points_for p,
        r_winPct = pctOf (b_wins p) (a_wins p) (ties p)\<rparr> \<in> set (h2h_table lc (Some d) mgr)) \<and>
   h2h_table lc (Some (xyData fa fb)) ''Y'' =
     [\<lparr>opponent = ''X'', wins = 1, losses = 3, r_ties = 1, pf = fb, pa = fa, r_winPct = 3 / 10\<rparr>] \<and>
   pctOf 1 3 1 = 3 / 10 \<and> pctOf 0 0 0 = 0"
proof (intro conjI ballI impI)
  fix r assume "r \<in> set (h2h_table lc (Some d) mgr)"
  then show "r_winPct r = pctOf (wins r) (losses r) (r_ties r)"
    by (auto simp: set_h2h_table dest: pairRow_pct split: if_splits)
next
  fix p assume p: "p \<in> set (pairs d)"
    and h: "mgr \<noteq> [] \<and> side_b p = mgr \<and> side_a p \<noteq> mgr \<and> side_a p \<in> set (managers d)"
  have "pairRow (managers d) mgr p =
      Some (mkRow (side_a p) (b_wins p) (a_wins p) (ties p) (b_points_for p) (a_points_for p))"
    using h by (auto simp: pairRow_def Let_def)
  moreover have "mkRow (side_a p) (b_wins p) (a_wins p) (ties p) (b_points_for p) (a_points_for p) =
     \<lparr>opponent = side_a p, wins = b_wins p, losses = a_wins p, r_ties = ties p,
        pf = b_points_for p, pa = a_points_for p,
        r_winPct = pctOf (b_wins p) (a_wins p) (ties p)\<rparr>"
    by (simp add: mkRow_def pctOf_def Let_def)
  ultimately show "\<lparr>opponent = side_a p, wins = b_wins p, losses = a_wins p, r_ties = ties p,
        pf = b_points_for p, pa = a_points_for p,
        r_winPct = pctOf (b_wins p) (a_wins p) (ties p)\<rparr> \<in> set (h2h_table lc (Some d) mgr)"
    using p h by (auto simp: set_h2h_table)
next
  show "h2h_table lc (Some (xyData fa fb)) ''Y'' =
     [\<lparr>opponent = ''X'', wins = 1, losses = 3, r_ties = 1, pf = fb, pa = fa, r_winPct = 3 / 10\<rparr>]"
    by (rule h2h_table_xyData)
qed (simp_all add: pctOf_def)

theorem resolver_orientation_witness:
  "\<lparr>opponent = ''X'', wins = 1, losses = 3, r_ties = 1, pf = 90, pa = 100, r_winPct = 3 / 10\<rparr>
     \<in> set (h2h_table codeUnitCompare (Some (xyData 100 90)) ''Y'') \<and>
   r_winPct (hd (h2h_table codeUnitCompare (Some (xyData 100 90)) ''Y'')) = 3 / 10"
proof -
  let ?p = "\<lparr>side_a = ''X'', side_b = ''Y'', a_wins = 3, b_wins = 1, ties = 1,
               a_points_for = 100, b_points_for = 90\<rparr>"
  have th: "(\<forall>r \<in> set (h2h_table codeUnitCompare (Some (xyData 100 90)) ''Y''). r_winPct r = pctOf (wins r) (losses r) (r_ties r)) \<and>
    (\<forall>p \<in> set (pairs (xyData 100 90)).
      ''Y'' \<noteq> [] \<and> side_b p = ''Y'' \<and> side_a p \<noteq> ''Y'' \<and> side_a p \<in> set (managers (xyData 100 90)) \<longrightarrow>
      \<lparr>opponent = side_a p, wins = b_wins p, losses = a_wins p, r_ties = ties p,
        pf = b_points_for p, pa = a_points_for p,
        r_winPct = pctOf (b_wins p) (a_wins p) (ties p)\<rparr> \<in> set (h2h_table codeUnitCompare (Some (xyData 100 90)) ''Y''))"
    using resolver_orientation [of codeUnitCompare "xyData 100 90" "''Y''" 0 0] by blast
  have mem: "?p \<in> set (pairs (xyData 100 90))" by (simp add: xyData_def)
  have hyp: "''Y'' \<noteq> [] \<and> side_b ?p = ''Y'' \<and> side_a ?p \<noteq> ''Y'' \<and> side_a ?p \<in> set (managers (xyData 100 90))"
    by (simp add: xyData_def)
  from th mem hyp have "\<lparr>opponent = side_a ?p, wins = b_wins ?p, losses = a_wins ?p, r_ties = ties ?p,
        pf = b_points_for ?p, pa = a_points_for ?p,
        r_winPct = pctOf (b_wins ?p) (a_wins ?p) (ties ?p)\<rparr> \<in> set (h2h_table codeUnitCompare (Some (xyData 100 90)) ''Y'')"
    by blast
  then have 1: "\<lparr>opponent = ''X'', wins = 1, losses = 3, r_ties = 1, pf = 90, pa = 100, r_winPct = 3 / 10\<rparr>
     \<in> set (h2h_table codeUnitCompare (Some (xyData 100 90)) ''Y'')"
    by (simp add: pctOf_def)
  have "hd (h2h_table codeUnitCompare (Some (xyData 100 90)) ''Y'') \<in> set (h2h_table codeUnitCompare (Some (xyData 100 90)) ''Y'')"
    using 1 by (metis empty_iff hd_in_set list.set(1))
  with th have "r_winPct (hd (h2h_table codeUnitCompare (Some (xyData 100 90)) ''Y'')) =
     pctOf (wins (hd (h2h_table codeUnitCompare (Some (xyData 100 90)) ''Y''))) (losses (hd (h2h_table codeUnitCompare (Some (xyData 100 90)) ''Y''))) (r_ties (hd (h2h_table codeUnitCompare (Some (xyData 100 90)) ''Y'')))"
    by blast
  moreover have "h2h_table codeUnitCompare (Some (xyData 100 90)) ''Y'' = [\<lparr>opponent = ''X'', wins = 1, losses = 3, r_ties = 1, pf = 90, pa = 100, r_winPct = 3 / 10\<rparr>]"
    using resolver_orientation [of codeUnitCompare "xyData 100 90" "''Y''" 100 90] by blast
  ultimately show ?thesis using 1 by (simp add: pctOf_def)
qed

subsection \<open>Collations\<close>

lemma codeUnitCompare_refl [simp]: "codeUnitCompare x x = 0"
  by (induction x) auto

lemma codeUnitCompare_eq_0: "codeUnitCompare x y = 0 \<Longrightarrow> x = y"
proof (induction x y rule: codeUnitCompare.induct)
  case (4 x xs y ys)
  then have "(of_char x :: nat) = of_char y" "codeUnitCompare xs ys = 0"
    by (auto split: if_splits)
  with 4 show ?case by (auto split: if_splits)
qed auto

lemma codeUnitCompare_flip: "codeUnitCompare y x = - codeUnitCompare x y"
  by (induction x y rule: codeUnitCompare.induct) auto

lemma codeUnitCompare_trans:
  "codeUnitCompare x y \<le> 0 \<Longrightarrow> codeUnitCompare y z \<le> 0 \<Longrightarrow> codeUnitCompare x z \<le> 0"
proof (induction x y arbitrary: z rule: codeUnitCompare.induct)
  case (1)
  then show ?case by simp
next
  case (2 y ys)
  then show ?case by (cases z) auto
next
  case (3 x xs)
  then show ?case by simp
next
  case (4 x xs y ys)
  show ?case
  proof (cases z)
    case Nil
    with 4 show ?thesis by simp
  next
    case (Cons c cs)
    show ?thesis
    proof (cases "(of_char x :: nat) < of_char y")
      case True
      with 4(2,3) Cons show ?thesis by (auto split: if_splits)
    next
      case False
      with 4(2) have xy: "(of_char x :: nat) = of_char y" and r: "codeUnitCompare xs ys \<le> 0"
        by (auto split: if_splits)
      show ?thesis
      proof (cases "(of_char y :: nat) < of_char c")
        case True
        with xy Cons show ?thesis by simp
      next
        case F2: False
        with 4(3) Cons have yc: "(of_char y :: nat) = of_char c" and r2: "codeUnitCompare ys cs \<le> 0"
          by (auto split: if_splits)
        from 4(1) [OF False _ r r2] xy have "codeUnitCompare xs cs \<le> 0" by simp
        with xy yc Cons show ?thesis by simp
      qed
    qed
  qed
qed

lemma consistent_codeUnitCompare: "consistentCompare codeUnitCompare"
  unfolding consistentCompare_def
proof (intro conjI allI impI)
  fix x y show "(codeUnitCompare x y < 0) = (0 < codeUnitCompare y x)"
    using codeUnitCompare_flip [of x y] by linarith
next
  fix x y z assume "codeUnitCompare x y \<le> 0 \<and> codeUnitCompare y z \<le> 0"
  then show "codeUnitCompare x z \<le> 0" using codeUnitCompare_trans by blast
qed

lemma separating_codeUnitCompare: "separating codeUnitCompare"
  unfolding separating_def using codeUnitCompare_eq_0 by blast

lemma consistent_softHyphenCompare: "consistentCompare softHyphenCompare"
  using consistent_codeUnitCompare
  unfolding consistentCompare_def softHyphenCompare_def by blast

lemma consistent_flip: "consistentCompare lc \<Longrightarrow> (lc x y < 0) = (0 < lc y x)"
  by (simp add: consistentCompare_def)

lemma consistent_trans:
  "consistentCompare lc \<Longrightarrow> lc x y \<le> 0 \<Longrightarrow> lc y z \<le> 0 \<Longrightarrow> lc x z \<le> 0"
  unfolding consistentCompare_def by blast

lemma consistent_total: "consistentCompare lc \<Longrightarrow> lc x y \<le> 0 \<or> lc y x \<le> 0"
  using consistent_flip [of lc y x] by linarith

lemma consistent_refl: "consistentCompare lc \<Longrightarrow> lc x x = 0"
  using consistent_flip [of lc x x] by linarith

lemma consistent_0_sym: "consistentCompare lc \<Longrightarrow> lc x y = 0 \<Longrightarrow> lc y x = 0"
  using consistent_flip [of lc x y] consistent_flip [of lc y x] by linarith

lemma consistent_less_trans:
  assumes c: "consistentCompare lc" and a: "lc x y < 0" and b: "lc y z < 0"
  shows "lc x z < 0"
proof -
  from a b have le: "lc x z \<le> 0" using consistent_trans [OF c, of x y z] by simp
  have "lc x z \<noteq> 0"
  proof
    assume "lc x z = 0"
    then have "lc z x \<le> 0" using consistent_0_sym [OF c] by simp
    with a have "lc z y \<le> 0" using consistent_trans [OF c, of z x y] by simp
    with b consistent_flip [OF c, of y z] show False by simp
  qed
  with le show ?thesis by simp
qed

subsection \<open>The comparators of the standings\<close>

lemma cmpTable_le: "cmpTable lc x y \<le> 0 \<longleftrightarrow> rankedNotAfter lc x y"
  by (auto simp: cmpTable_def rankedNotAfter_def)

lemma cmpTable_less: "cmpTable lc x y < 0 \<longleftrightarrow> rankedBefore lc x y"
  by (auto simp: cmpTable_def rankedBefore_def)

lemma cmpTable_0: "cmpTable lc x y = 0 \<longleftrightarrow>
   points x = points y \<and> gold x = gold y \<and> avgFinish x = avgFinish y \<and>
   lc (manager x) (manager y) = 0"
  by (auto simp: cmpTable_def)

lemma cmpTable_0_sym: "consistentCompare lc \<Longrightarrow> cmpTable lc x y = 0 \<Longrightarrow> cmpTable lc y x = 0"
  using consistent_0_sym [of lc "manager x" "manager y"] by (simp add: cmpTable_0)

lemma rankedNotAfter_total:
  "consistentCompare lc \<Longrightarrow> rankedNotAfter lc x y \<or> rankedNotAfter lc y x"
  unfolding rankedNotAfter_def using consistent_total [of lc "manager x" "manager y"] by auto

lemma rankedNotAfter_trans:
  "consistentCompare lc \<Longrightarrow> rankedNotAfter lc x y \<Longrightarrow> rankedNotAfter lc y z \<Longrightarrow>
     rankedNotAfter lc x z"
  unfolding rankedNotAfter_def
  using consistent_trans [of lc "manager x" "manager y" "manager z"] by auto

lemma rankedBefore_trans:
  "consistentCompare lc \<Longrightarrow> rankedBefore lc x y \<Longrightarrow> rankedBefore lc y z \<Longrightarrow>
     rankedBefore lc x z"
  unfolding rankedBefore_def
  using consistent_less_trans [of lc "manager x" "manager y" "manager z"] by auto

lemma rankedBefore_asym:
  "consistentCompare lc \<Longrightarrow> \<not> (rankedBefore lc x y \<and> rankedBefore lc y x)"
  unfolding rankedBefore_def using consistent_flip [of lc "manager x" "manager y"] by auto

lemma cmpTitles_le: "cmpTitles lc x y \<le> 0 \<longleftrightarrow> titleNotAfter lc x y"
  by (auto simp: cmpTitles_def titleNotAfter_def)

lemma cmpTitles_less: "cmpTitles lc x y < 0 \<longleftrightarrow> titleBefore lc x y"
  by (auto simp: cmpTitles_def titleBefore_def)

lemma cmpTitles_0: "cmpTitles lc x y = 0 \<Longrightarrow> lc (manager x) (manager y) = 0"
  by (auto simp: cmpTitles_def split: if_splits)

lemma titleNotAfter_total:
  "consistentCompare lc \<Longrightarrow> titleNotAfter lc x y \<or> titleNotAfter lc y x"
  unfolding titleNotAfter_def using consistent_total [of lc "manager x" "manager y"] by auto

lemma titleNotAfter_trans:
  "consistentCompare lc \<Longrightarrow> titleNotAfter lc x y \<Longrightarrow> titleNotAfter lc y z \<Longrightarrow>
     titleNotAfter lc x z"
  unfolding titleNotAfter_def
  using consistent_trans [of lc "manager x" "manager y" "manager z"] by auto

subsection \<open>Standings and hall of fame\<close>

lemma manager_medal [simp]: "manager (medal p t) = manager t"
  by (simp add: medal_def Let_def)

lemma keyed_update:
  "keyed byMgr \<Longrightarrow> manager t = k \<Longrightarrow> k \<noteq> [] \<Longrightarrow> keyed (AList.update k t byMgr)"
  unfolding keyed_def using set_update_subset [of k t byMgr]
  by (auto simp: distinct_update)

lemma keyed_lookup: "keyed byMgr \<Longrightarrow> map_of byMgr k = Some t \<Longrightarrow> manager t = k"
  unfolding keyed_def by (auto dest: map_of_SomeD)

lemma keyed_countRow: "keyed (fst st) \<Longrightarrow> keyed (fst (countRow st r))"
  by (auto simp: countRow_def Let_def newTotals_def intro!: keyed_update dest: keyed_lookup
      split: jsnum.splits option.splits)

lemma keyed_foldl: "keyed (fst st) \<Longrightarrow> keyed (fst (foldl countRow st rows))"
  by (induction rows arbitrary: st) (simp_all add: keyed_countRow)

lemma keyed_init: "keyed (fst (foldl countRow ([], []) rows))"
  by (rule keyed_foldl) (simp add: keyed_def)

lemma finalize_sel [simp]:
  "manager (finalize h b e) = manager (snd e)"
  "winPct (finalize h b e) = h2hWinPct h (fst e)"
  "gold (finalize h b e) = gold (snd e)"
  "points (finalize h b e) = points (snd e)"
  by (simp_all add: finalize_def Let_def)

lemma table_entry:
  assumes "t \<in> set (table lc rows h)"
  shows "manager t \<noteq> [] \<and> winPct t = h2hWinPct h (manager t)"
proof -
  let ?st = "foldl countRow ([], []) rows"
  from assms obtain e where e: "e \<in> set (fst ?st)" and t: "t = finalize h (snd ?st) e"
    by (auto simp: table_def Let_def set_sort_by)
  from keyed_init [of rows] e have "manager (snd e) = fst e" "fst e \<noteq> []"
    by (auto simp: keyed_def)
  with t show ?thesis by simp
qed

lemma distinct_managers_table: "distinct (map manager (table lc rows h))"
proof -
  let ?st = "foldl countRow ([], []) rows"
  let ?l = "map (finalize h (snd ?st)) (fst ?st)"
  have eq: "map manager ?l = map fst (fst ?st)"
    using keyed_init [of rows] by (auto simp: keyed_def)
  have "distinct (map fst (fst ?st))"
    using keyed_init [of rows] by (simp add: keyed_def)
  then have d: "distinct (map manager ?l)" by (simp only: eq)
  have "distinct (map manager (sort_by (cmpTable lc) ?l))"
    using d by (simp only: distinct_map_sort_by)
  then show ?thesis by (simp add: table_def Let_def)
qed

lemma sorted_table:
  assumes c: "consistentCompare lc"
  shows "sorted_wrt (rankedNotAfter lc) (table lc rows h)"
proof -
  have "sorted_wrt (\<lambda>x y. cmpTable lc x y \<le> 0) (table lc rows h)"
    unfolding table_def Let_def
    by (rule sorted_sort_by)
      (use rankedNotAfter_total [OF c] rankedNotAfter_trans [OF c] in \<open>auto simp: cmpTable_le\<close>)
  then show ?thesis by (simp add: cmpTable_le)
qed

lemma table_same_manager:
  "x \<in> set (table lc rows h) \<Longrightarrow> y \<in> set (table lc rows h) \<Longrightarrow> manager x = manager y \<Longrightarrow> x = y"
  using distinct_managers_table [of lc rows h] by (auto simp: distinct_map dest: inj_onD)

lemma sorted_table_strict:
  assumes c: "consistentCompare lc" and s: "separating lc"
  shows "sorted_wrt (rankedBefore lc) (table lc rows h)"
proof -
  have "sorted_wrt (\<lambda>x y. cmpTable lc x y \<le> 0) (table lc rows h)"
    using sorted_table [OF c] by (simp add: cmpTable_le)
  then have "sorted_wrt (\<lambda>x y. cmpTable lc x y < 0) (table lc rows h)"
    by (rule sorted_wrt_strict [OF _ distinct_managers_table])
      (use s in \<open>auto simp: cmpTable_0 separating_def\<close>)
  then show ?thesis by (simp add: cmpTable_less)
qed

text \<open>
  C7 (as amended). For every finishes input the output of the season aggregator is sorted
  by points descending, then gold count descending, then average finish ascending, then
  manager name in the order of the collation that \<open>localeCompare\<close> applies, a consistent
  comparator. The output is a rearrangement of the entries of \<open>byMgr\<close>, no manager name
  occurs twice in it, and on its entries the comparison is a total preorder: any two
  entries are ranked one way or the other and the ranking is transitive. It is a total
  order, in which distinct entries compare unequal and the output is strictly sorted, when
  the collation returns 0 on equal names only; a collation may return 0 on distinct names,
  and such entries compare equal.
\<close>

theorem table_order:
  assumes c: "consistentCompare lc"
  shows "sorted_wrt (rankedNotAfter lc) (table lc rows h) \<and>
   distinct (map manager (table lc rows h)) \<and>
   mset (table lc rows h) =
     mset (map (finalize h (snd (foldl countRow ([], []) rows))) (fst (foldl countRow ([], []) rows))) \<and>
   (\<forall>x \<in> set (table lc rows h). \<forall>y \<in> set (table lc rows h).
      (cmpTable lc x y \<le> 0 \<longleftrightarrow> rankedNotAfter lc x y) \<and>
      (cmpTable lc x y < 0 \<longleftrightarrow> rankedBefore lc x y) \<and>
      (rankedNotAfter lc x y \<or> rankedNotAfter lc y x) \<and>
      \<not> (rankedBefore lc x y \<and> rankedBefore lc y x)) \<and>
   (\<forall>x y z. rankedNotAfter lc x y \<and> rankedNotAfter lc y z \<longrightarrow> rankedNotAfter lc x z) \<and>
   (separating lc \<longrightarrow>
      sorted_wrt (rankedBefore lc) (table lc rows h) \<and>
      (\<forall>x \<in> set (table lc rows h). \<forall>y \<in> set (table lc rows h).
         (cmpTable lc x y = 0 \<longleftrightarrow> x = y) \<and>
         (x \<noteq> y \<longrightarrow> rankedBefore lc x y \<or> rankedBefore lc y x)))"
proof (intro conjI)
  show "sorted_wrt (rankedNotAfter lc) (table lc rows h)" by (rule sorted_table [OF c])
  show "distinct (map manager (table lc rows h))" by (rule distinct_managers_table)
  show "mset (table lc rows h) =
     mset (map (finalize h (snd (foldl countRow ([], []) rows))) (fst (foldl countRow ([], []) rows)))"
    by (simp add: table_def Let_def mset_sort_by)
  show "\<forall>x \<in> set (table lc rows h). \<forall>y \<in> set (table lc rows h).
      (cmpTable lc x y \<le> 0 \<longleftrightarrow> rankedNotAfter lc x y) \<and>
      (cmpTable lc x y < 0 \<longleftrightarrow> rankedBefore lc x y) \<and>
      (rankedNotAfter lc x y \<or> rankedNotAfter lc y x) \<and>
      \<not> (rankedBefore lc x y \<and> rankedBefore lc y x)"
    using rankedNotAfter_total [OF c] rankedBefore_asym [OF c]
    by (simp add: cmpTable_le cmpTable_less)
  show "\<forall>x y z. rankedNotAfter lc x y \<and> rankedNotAfter lc y z \<longrightarrow> rankedNotAfter lc x z"
    using rankedNotAfter_trans [OF c] by blast
  show "separating lc \<longrightarrow>
      sorted_wrt (rankedBefore lc) (table lc rows h) \<and>
      (\<forall>x \<in> set (table lc rows h). \<forall>y \<in> set (table lc rows h).
         (cmpTable lc x y = 0 \<longleftrightarrow> x = y) \<and>
         (x \<noteq> y \<longrightarrow> rankedBefore lc x y \<or> rankedBefore lc y x))"
  proof (intro impI conjI ballI)
    assume s: "separating lc"
    show "sorted_wrt (rankedBefore lc) (table lc rows h)" by (rule sorted_table_strict [OF c s])
    fix x y assume x: "x \<in> set (table lc rows h)" and y: "y \<in> set (table lc rows h)"
    show z: "cmpTable lc x y = 0 \<longleftrightarrow> x = y"
    proof
      assume "cmpTable lc x y = 0"
      then have "manager x = manager y" using s by (simp add: cmpTable_0 separating_def)
      then show "x = y" by (rule table_same_manager [OF x y])
    next
      assume "x = y"
      then show "cmpTable lc x y = 0" using consistent_refl [OF c] by (simp add: cmpTable_0)
    qed
    assume "x \<noteq> y"
    with z have "cmpTable lc x y \<noteq> 0" by simp
    moreover have "cmpTable lc x y = 0" if "\<not> rankedBefore lc x y" "\<not> rankedBefore lc y x"
    proof -
      from that have n: "\<not> cmpTable lc x y < 0" "\<not> cmpTable lc y x < 0"
        by (simp_all add: cmpTable_less)
      from rankedNotAfter_total [OF c, of x y]
      have "cmpTable lc x y \<le> 0 \<or> cmpTable lc y x \<le> 0" by (simp add: cmpTable_le)
      with n have "cmpTable lc x y = 0 \<or> cmpTable lc y x = 0" by auto
      then show ?thesis using cmpTable_0_sym [OF c] by blast
    qed
    ultimately show "rankedBefore lc x y \<or> rankedBefore lc y x" by blast
  qed
qed

theorem table_order_witness:
  "consistentCompare codeUnitCompare \<and> separating codeUnitCompare \<and>
   sorted_wrt (rankedBefore codeUnitCompare) (table codeUnitCompare titleRows None) \<and>
   map manager (table codeUnitCompare titleRows None) = [''A'', ''B''] \<and>
   map points (table codeUnitCompare titleRows None) = [7, 6] \<and>
   cmpTable codeUnitCompare (hd (table codeUnitCompare titleRows None))
     (last (table codeUnitCompare titleRows None)) < 0"
proof -
  let ?t = "table codeUnitCompare titleRows None"
  note th = table_order [OF consistent_codeUnitCompare, of titleRows None]
  have m: "map manager ?t = [''A'', ''B'']"
    unfolding titleRows_def by code_simp
  then obtain x y where xy: "?t = [x, y]" by auto
  from th separating_codeUnitCompare have s: "sorted_wrt (rankedBefore codeUnitCompare) ?t"
    by blast
  with xy have r: "rankedBefore codeUnitCompare x y" by simp
  from th have "\<forall>u \<in> set ?t. \<forall>v \<in> set ?t.
      (cmpTable codeUnitCompare u v < 0 \<longleftrightarrow> rankedBefore codeUnitCompare u v)"
    by blast
  with xy r have "cmpTable codeUnitCompare x y < 0" by simp
  with xy have cl: "cmpTable codeUnitCompare (hd ?t) (last ?t) < 0" by simp
  have p: "map points ?t = [7, 6]"
    unfolding titleRows_def by code_simp
  from consistent_codeUnitCompare separating_codeUnitCompare s m p cl show ?thesis
    by (intro conjI)
qed

theorem table_order_names_tie:
  "consistentCompare softHyphenCompare \<and>
   map manager (table softHyphenCompare hyphenRows None) = [''ab'', [CHR ''a'', CHR 0xAD, CHR ''b'']] \<and>
   table softHyphenCompare hyphenRows None ! 0 \<noteq> table softHyphenCompare hyphenRows None ! 1 \<and>
   cmpTable softHyphenCompare (table softHyphenCompare hyphenRows None ! 0)
     (table softHyphenCompare hyphenRows None ! 1) = 0"
proof (intro conjI)
  show "consistentCompare softHyphenCompare" by (rule consistent_softHyphenCompare)
  show "map manager (table softHyphenCompare hyphenRows None) = [''ab'', [CHR ''a'', CHR 0xAD, CHR ''b'']]"
    unfolding hyphenRows_def by code_simp
  show "table softHyphenCompare hyphenRows None ! 0 \<noteq> table softHyphenCompare hyphenRows None ! 1"
    unfolding hyphenRows_def by code_simp
  show "cmpTable softHyphenCompare (table softHyphenCompare hyphenRows None ! 0)
     (table softHyphenCompare hyphenRows None ! 1) = 0"
    unfolding hyphenRows_def by code_simp
qed

lemma titles_eq:
  "titles (hallOfFame lc tbl) = sort_by (cmpTitles lc) (filter (\<lambda>t. gold t > 0) tbl)"
  by (simp add: hallOfFame_def sort_by_def)

text \<open>
  C6 (as amended). The title holders of the hall of fame are exactly the managers of the
  standings with a gold count above 0, each once, sorted by gold count descending, then
  points descending, then manager name in the order of the collation that
  \<open>localeCompare\<close> applies, a consistent comparator; strictly so when the collation returns
  0 on equal names only. (The standings themselves are sorted by points first: the two
  orders differ.)
\<close>

theorem title_holders:
  assumes c: "consistentCompare lc"
  shows "set (titles (hallOfFame lc (table lc rows h))) = {t \<in> set (table lc rows h). gold t > 0} \<and>
   distinct (map manager (titles (hallOfFame lc (table lc rows h)))) \<and>
   sorted_wrt (titleNotAfter lc) (titles (hallOfFame lc (table lc rows h))) \<and>
   (separating lc \<longrightarrow> sorted_wrt (titleBefore lc) (titles (hallOfFame lc (table lc rows h))))"
proof (intro conjI impI)
  let ?f = "filter (\<lambda>t. gold t > 0) (table lc rows h)"
  show "set (titles (hallOfFame lc (table lc rows h))) = {t \<in> set (table lc rows h). gold t > 0}"
    by (simp add: titles_eq set_sort_by)
  have df: "distinct (map manager ?f)"
    using distinct_managers_table [of lc rows h] by (rule distinct_map_filter)
  then show d: "distinct (map manager (titles (hallOfFame lc (table lc rows h))))"
    by (simp only: titles_eq distinct_map_sort_by)
  have le: "sorted_wrt (\<lambda>x y. cmpTitles lc x y \<le> 0) (titles (hallOfFame lc (table lc rows h)))"
    unfolding titles_eq
    by (rule sorted_sort_by)
      (use titleNotAfter_total [OF c] titleNotAfter_trans [OF c] in \<open>auto simp: cmpTitles_le\<close>)
  then show "sorted_wrt (titleNotAfter lc) (titles (hallOfFame lc (table lc rows h)))"
    by (simp add: cmpTitles_le)
  assume s: "separating lc"
  from le have "sorted_wrt (\<lambda>x y. cmpTitles lc x y < 0) (titles (hallOfFame lc (table lc rows h)))"
    by (rule sorted_wrt_strict [OF _ d]) (use s cmpTitles_0 in \<open>auto simp: separating_def\<close>)
  then show "sorted_wrt (titleBefore lc) (titles (hallOfFame lc (table lc rows h)))"
    by (simp add: cmpTitles_less)
qed

theorem title_holders_witness:
  "consistentCompare codeUnitCompare \<and>
   sorted_wrt (titleNotAfter codeUnitCompare)
     (titles (hallOfFame codeUnitCompare (table codeUnitCompare titleRows None))) \<and>
   map manager (titles (hallOfFame codeUnitCompare (table codeUnitCompare titleRows None))) = [''B'', ''A''] \<and>
   map gold (titles (hallOfFame codeUnitCompare (table codeUnitCompare titleRows None))) = [2, 1]"
proof -
  have "sorted_wrt (titleNotAfter codeUnitCompare)
     (titles (hallOfFame codeUnitCompare (table codeUnitCompare titleRows None)))"
    using title_holders [OF consistent_codeUnitCompare, of titleRows None] by blast
  moreover have "map manager (titles (hallOfFame codeUnitCompare (table codeUnitCompare titleRows None))) = [''B'', ''A'']"
    unfolding titleRows_def by code_simp
  moreover have "map gold (titles (hallOfFame codeUnitCompare (table codeUnitCompare titleRows None))) = [2, 1]"
    unfolding titleRows_def by code_simp
  ultimately show ?thesis using consistent_codeUnitCompare by (intro conjI)
qed

theorem title_holders_not_in_table_order:
  "\<forall>lc. map manager (table lc titleRows None) = [''A'', ''B''] \<and>
     map points (table lc titleRows None) = [7, 6] \<and>
     map manager (titles (hallOfFame lc (table lc titleRows None))) = [''B'', ''A''] \<and>
     map points (titles (hallOfFame lc (table lc titleRows None))) = [6, 7] \<and>
     map gold (titles (hallOfFame lc (table lc titleRows None))) = [2, 1] \<and>
     \<not> sorted_wrt (rankedNotAfter lc) (titles (hallOfFame lc (table lc titleRows None)))"
proof (intro allI conjI)
  fix lc :: collation
  show "map manager (table lc titleRows None) = [''A'', ''B'']"
    unfolding titleRows_def by code_simp
  show "map points (table lc titleRows None) = [7, 6]"
    unfolding titleRows_def by code_simp
  show "map manager (titles (hallOfFame lc (table lc titleRows None))) = [''B'', ''A'']"
    unfolding titleRows_def by code_simp
  show "map points (titles (hallOfFame lc (table lc titleRows None))) = [6, 7]"
    unfolding titleRows_def by code_simp
  show "map gold (titles (hallOfFame lc (table lc titleRows None))) = [2, 1]"
    unfolding titleRows_def by code_simp
  show "\<not> sorted_wrt (rankedNotAfter lc) (titles (hallOfFame lc (table lc titleRows None)))"
    unfolding titleRows_def by code_simp
qed

subsection \<open>Totals of the head-to-head page\<close>

lemma foldl_wlt:
  "foldl (\<lambda>(wins, losses, tied) p.
        if side_a p = mgr then (wins + a_wins p, losses + b_wins p, tied + ties p)
        else if side_b p = mgr then (wins + b_wins p, losses + a_wins p, tied + ties p)
        else (wins, losses, tied)) (w, l, t) ps =
   (w + sum_list (map (aggW mgr) ps), l + sum_list (map (aggL mgr) ps), t + sum_list (map (aggT mgr) ps))"
  by (induction ps arbitrary: w l t) (auto simp: aggW_def aggL_def aggT_def)

lemma h2hWinPct_sum:
  "h2hWinPct (Some d) mgr =
     pctOf (sum_list (map (aggW mgr) (pairs d))) (sum_list (map (aggL mgr) (pairs d)))
       (sum_list (map (aggT mgr) (pairs d)))"
  by (simp add: h2hWinPct_def foldl_wlt pctOf_def Let_def)

lemma overall_Some:
  "overall tbl = Some s \<Longrightarrow>
     totW s = sum_list (map wins tbl) \<and> totL s = sum_list (map losses tbl) \<and>
     totT s = sum_list (map r_ties tbl) \<and> tot_pf s = sum_list (map pf tbl) \<and>
     tot_pa s = sum_list (map pa tbl) \<and> gp s = totW s + totL s + totT s \<and>
     wp s = pctOf (totW s) (totL s) (totT s)"
  by (auto simp: overall_def Let_def foldl_plus_sum pctOf_def split: if_splits)

lemma overall_None: "overall tbl = None \<longleftrightarrow> tbl = []"
  by (auto simp: overall_def Let_def)

lemma pairRow_listed:
  assumes "(side_a p = mgr \<longrightarrow> side_b p \<noteq> mgr \<and> side_b p \<in> set roster)"
    and "(side_b p = mgr \<longrightarrow> side_a p \<noteq> mgr \<and> side_a p \<in> set roster)"
  shows "(case pairRow roster mgr p of None \<Rightarrow> 0 | Some r \<Rightarrow> wins r) = aggW mgr p"
    and "(case pairRow roster mgr p of None \<Rightarrow> 0 | Some r \<Rightarrow> losses r) = aggL mgr p"
    and "(case pairRow roster mgr p of None \<Rightarrow> 0 | Some r \<Rightarrow> r_ties r) = aggT mgr p"
  using assms by (auto simp: pairRow_def Let_def aggW_def aggL_def aggT_def)

lemma table_sums:
  assumes "opponentsListed d mgr" and "mgr \<noteq> []"
  shows "sum_list (map wins (h2h_table lc (Some d) mgr)) = sum_list (map (aggW mgr) (pairs d))"
    and "sum_list (map losses (h2h_table lc (Some d) mgr)) = sum_list (map (aggL mgr) (pairs d))"
    and "sum_list (map r_ties (h2h_table lc (Some d) mgr)) = sum_list (map (aggT mgr) (pairs d))"
proof -
  have l: "\<And>p. p \<in> set (pairs d) \<Longrightarrow>
      (side_a p = mgr \<longrightarrow> side_b p \<noteq> mgr \<and> side_b p \<in> set (managers d)) \<and>
      (side_b p = mgr \<longrightarrow> side_a p \<noteq> mgr \<and> side_a p \<in> set (managers d))"
    using assms(1) by (simp add: opponentsListed_def)
  have t: "h2h_table lc (Some d) mgr = sort_by (cmpH2H lc) (List.map_filter (pairRow (managers d) mgr) (pairs d))"
    using assms(2) by (simp add: h2h_table_def)
  show "sum_list (map wins (h2h_table lc (Some d) mgr)) = sum_list (map (aggW mgr) (pairs d))"
    unfolding t sum_list_map_sort_by sum_map_filter
    by (rule arg_cong [where f = sum_list], rule map_cong [OF refl]) (use l pairRow_listed(1) in blast)
  show "sum_list (map losses (h2h_table lc (Some d) mgr)) = sum_list (map (aggL mgr) (pairs d))"
    unfolding t sum_list_map_sort_by sum_map_filter
    by (rule arg_cong [where f = sum_list], rule map_cong [OF refl]) (use l pairRow_listed(2) in blast)
  show "sum_list (map r_ties (h2h_table lc (Some d) mgr)) = sum_list (map (aggT mgr) (pairs d))"
    unfolding t sum_list_map_sort_by sum_map_filter
    by (rule arg_cong [where f = sum_list], rule map_cong [OF refl]) (use l pairRow_listed(3) in blast)
qed

lemma pageWinPct_agrees:
  assumes "opponentsListed d mgr" and "mgr \<noteq> []"
  shows "h2hWinPct (Some d) mgr = pageWinPct lc d mgr"
proof (cases "overall (h2h_table lc (Some d) mgr)")
  case None
  then have "h2h_table lc (Some d) mgr = []" by (simp add: overall_None)
  then have "sum_list (map (aggW mgr) (pairs d)) = 0" "sum_list (map (aggL mgr) (pairs d)) = 0"
    "sum_list (map (aggT mgr) (pairs d)) = 0"
    using table_sums [OF assms, where lc = lc] by simp_all
  with None show ?thesis by (simp add: h2hWinPct_sum pageWinPct_def pctOf_def)
next
  case (Some s)
  from overall_Some [OF Some] table_sums [OF assms, where lc = lc] Some show ?thesis
    by (simp add: h2hWinPct_sum pageWinPct_def)
qed

text \<open>
  C10 (as amended). For every manager of the standings and every head-to-head data set in
  which each pair that names the manager has, on its other side, a different manager that
  is listed in the managers array, the win percentage of the season aggregator equals the
  overall PCT of the head-to-head page (0 where the page has no row and renders no
  summary). When the other side of a pair is absent from the managers array the two may
  differ: with A against the unlisted Z (1-0) and against B (0-1) the aggregator gives
  1/2 and the page 0.
\<close>

theorem winPct_agreement:
  "(\<forall>t \<in> set (table lc rows (Some d)).
      opponentsListed d (manager t) \<longrightarrow> winPct t = pageWinPct lc d (manager t)) \<and>
   \<not> opponentsListed absentData ''A'' \<and>
   map winPct (table lc oneFinish (Some absentData)) = [1 / 2] \<and>
   pageWinPct lc absentData ''A'' = 0"
proof (intro conjI ballI impI)
  fix t assume "t \<in> set (table lc rows (Some d))" and l: "opponentsListed d (manager t)"
  then have "manager t \<noteq> []" "winPct t = h2hWinPct (Some d) (manager t)"
    using table_entry by blast+
  with l show "winPct t = pageWinPct lc d (manager t)" by (simp add: pageWinPct_agrees)
next
  show "\<not> opponentsListed absentData ''A''"
    by (simp add: opponentsListed_def absentData_def mkPair_def)
  show "map winPct (table lc oneFinish (Some absentData)) = [1 / 2]"
    unfolding oneFinish_def absentData_def mkPair_def by code_simp
  show "pageWinPct lc absentData ''A'' = 0"
    unfolding pageWinPct_def absentData_def mkPair_def by code_simp
qed

theorem winPct_agreement_witness:
  "opponentsListed listedData ''A'' \<and>
   map manager (table codeUnitCompare oneFinish (Some listedData)) = [''A''] \<and>
   winPct (hd (table codeUnitCompare oneFinish (Some listedData))) = pageWinPct codeUnitCompare listedData ''A'' \<and>
   pageWinPct codeUnitCompare listedData ''A'' = 7 / 10"
proof -
  let ?t = "table codeUnitCompare oneFinish (Some listedData)"
  have m: "map manager ?t = [''A'']"
    unfolding oneFinish_def listedData_def mkPair_def by code_simp
  then obtain x where x: "?t = [x]" and mx: "manager x = ''A''" by auto
  have l: "opponentsListed listedData ''A''"
    by (simp add: opponentsListed_def listedData_def mkPair_def)
  have "\<forall>t \<in> set ?t. opponentsListed listedData (manager t) \<longrightarrow> winPct t = pageWinPct codeUnitCompare listedData (manager t)"
    using winPct_agreement [of codeUnitCompare oneFinish listedData] by blast
  with x mx l have "winPct x = pageWinPct codeUnitCompare listedData ''A''" by simp
  with x have e: "winPct (hd ?t) = pageWinPct codeUnitCompare listedData ''A''" by simp
  have p: "pageWinPct codeUnitCompare listedData ''A'' = 7 / 10"
    unfolding pageWinPct_def listedData_def mkPair_def by code_simp
  from l m e p show ?thesis by blast
qed

theorem winPct_self_pair:
  "othersInRoster selfData ''A'' \<and>
   (\<forall>lc. map manager (table lc oneFinish (Some selfData)) = [''A''] \<and>
      map winPct (table lc oneFinish (Some selfData)) = [1 / 2] \<and>
      pageWinPct lc selfData ''A'' = 0)"
proof (intro conjI allI)
  show "othersInRoster selfData ''A''"
    by (simp add: othersInRoster_def selfData_def mkPair_def)
  fix lc :: collation
  show "map manager (table lc oneFinish (Some selfData)) = [''A'']"
    unfolding oneFinish_def selfData_def mkPair_def by code_simp
  show "map winPct (table lc oneFinish (Some selfData)) = [1 / 2]"
    unfolding oneFinish_def selfData_def mkPair_def by code_simp
  show "pageWinPct lc selfData ''A'' = 0"
    unfolding pageWinPct_def selfData_def mkPair_def by code_simp
qed

lemma visible_hidden_split:
  "mgr \<noteq> [] \<Longrightarrow> sum_list (map f tbl) =
     sum_list (map f (visibleTable tbl mgr)) + sum_list (map f (hiddenRows tbl))"
  for f :: "HRow \<Rightarrow> 'b :: comm_monoid_add"
  using sum_list_split [where f = f and P = "\<lambda>r. opponent r \<notin> HIDDEN" and xs = tbl]
  by (simp add: visibleTable_def hiddenRows_def)

lemma pairRow_opponent:
  "pairRow roster mgr p = Some r \<Longrightarrow>
     (side_a p = mgr \<and> opponent r = side_b p) \<or> (side_b p = mgr \<and> opponent r = side_a p)"
  by (auto simp: pairRow_def Let_def split: if_splits)

lemma pairRow_hidden:
  assumes "h \<noteq> mgr" and "h \<in> set roster"
    and "(side_a p = mgr \<and> side_b p = h) \<or> (side_b p = mgr \<and> side_a p = h)"
  shows "\<exists>r. pairRow roster mgr p = Some r \<and> opponent r = h"
  using assms by (auto simp: pairRow_def Let_def)

text \<open>
  C8. For every target manager, pairs and roster: no row of the rendered per-opponent
  table has a hidden manager as opponent; a pair between the target and a hidden manager
  of the roster still gives a row of the full table, which the rendered table leaves out;
  and the overall wins, losses, ties, points for and points against are the sums over the
  rendered rows plus the sums over the hidden rows, the overall win percentage being
  computed from those totals.
\<close>

theorem hidden_opponent:
  "(\<forall>r \<in> set (visibleTable (h2h_table lc (Some d) mgr) mgr). opponent r \<notin> HIDDEN) \<and>
   (\<forall>p \<in> set (pairs d). \<forall>h \<in> HIDDEN.
      mgr \<noteq> [] \<and> h \<noteq> mgr \<and> h \<in> set (managers d) \<and>
      ((side_a p = mgr \<and> side_b p = h) \<or> (side_b p = mgr \<and> side_a p = h)) \<longrightarrow>
      (\<exists>r. pairRow (managers d) mgr p = Some r \<and> opponent r = h \<and>
           r \<in> set (h2h_table lc (Some d) mgr) \<and>
           r \<in> set (hiddenRows (h2h_table lc (Some d) mgr)) \<and>
           r \<notin> set (visibleTable (h2h_table lc (Some d) mgr) mgr))) \<and>
   (\<forall>s. overall (h2h_table lc (Some d) mgr) = Some s \<longrightarrow>
      totW s = sum_list (map wins (visibleTable (h2h_table lc (Some d) mgr) mgr)) +
               sum_list (map wins (hiddenRows (h2h_table lc (Some d) mgr))) \<and>
      totL s = sum_list (map losses (visibleTable (h2h_table lc (Some d) mgr) mgr)) +
               sum_list (map losses (hiddenRows (h2h_table lc (Some d) mgr))) \<and>
      totT s = sum_list (map r_ties (visibleTable (h2h_table lc (Some d) mgr) mgr)) +
               sum_list (map r_ties (hiddenRows (h2h_table lc (Some d) mgr))) \<and>
      tot_pf s = sum_list (map pf (visibleTable (h2h_table lc (Some d) mgr) mgr)) +
               sum_list (map pf (hiddenRows (h2h_table lc (Some d) mgr))) \<and>
      tot_pa s = sum_list (map pa (visibleTable (h2h_table lc (Some d) mgr) mgr)) +
               sum_list (map pa (hiddenRows (h2h_table lc (Some d) mgr))) \<and>
      wp s = pctOf (totW s) (totL s) (totT s))"
proof (intro conjI ballI allI impI)
  fix r assume "r \<in> set (visibleTable (h2h_table lc (Some d) mgr) mgr)"
  then show "opponent r \<notin> HIDDEN" by (auto simp: visibleTable_def split: if_splits)
next
  fix p h
  assume p: "p \<in> set (pairs d)" and h: "h \<in> HIDDEN"
    and a: "mgr \<noteq> [] \<and> h \<noteq> mgr \<and> h \<in> set (managers d) \<and>
      ((side_a p = mgr \<and> side_b p = h) \<or> (side_b p = mgr \<and> side_a p = h))"
  from a obtain r where r: "pairRow (managers d) mgr p = Some r" "opponent r = h"
    using pairRow_hidden [of h mgr "managers d" p] by blast
  with p a have "r \<in> set (h2h_table lc (Some d) mgr)" by (auto simp: set_h2h_table)
  with r h show "\<exists>r. pairRow (managers d) mgr p = Some r \<and> opponent r = h \<and>
           r \<in> set (h2h_table lc (Some d) mgr) \<and>
           r \<in> set (hiddenRows (h2h_table lc (Some d) mgr)) \<and>
           r \<notin> set (visibleTable (h2h_table lc (Some d) mgr) mgr)"
    by (auto simp: hiddenRows_def visibleTable_def)
next
  fix s assume s: "overall (h2h_table lc (Some d) mgr) = Some s"
  then have ne: "mgr \<noteq> []" by (auto simp: overall_def h2h_table_def split: if_splits)
  note o = overall_Some [OF s]
  from o have "totW s = sum_list (map wins (h2h_table lc (Some d) mgr))" by (rule conjunct1)
  then show "totW s = sum_list (map wins (visibleTable (h2h_table lc (Some d) mgr) mgr)) +
               sum_list (map wins (hiddenRows (h2h_table lc (Some d) mgr)))"
    by (rule trans [OF _ visible_hidden_split [OF ne]])
  from o have "totL s = sum_list (map losses (h2h_table lc (Some d) mgr))" by blast
  then show "totL s = sum_list (map losses (visibleTable (h2h_table lc (Some d) mgr) mgr)) +
               sum_list (map losses (hiddenRows (h2h_table lc (Some d) mgr)))"
    by (rule trans [OF _ visible_hidden_split [OF ne]])
  from o have "totT s = sum_list (map r_ties (h2h_table lc (Some d) mgr))" by blast
  then show "totT s = sum_list (map r_ties (visibleTable (h2h_table lc (Some d) mgr) mgr)) +
               sum_list (map r_ties (hiddenRows (h2h_table lc (Some d) mgr)))"
    by (rule trans [OF _ visible_hidden_split [OF ne]])
  from o have "tot_pf s = sum_list (map pf (h2h_table lc (Some d) mgr))" by blast
  then show "tot_pf s = sum_list (map pf (visibleTable (h2h_table lc (Some d) mgr) mgr)) +
               sum_list (map pf (hiddenRows (h2h_table lc (Some d) mgr)))"
    by (rule trans [OF _ visible_hidden_split [OF ne]])
  from o have "tot_pa s = sum_list (map pa (h2h_table lc (Some d) mgr))" by blast
  then show "tot_pa s = sum_list (map pa (visibleTable (h2h_table lc (Some d) mgr) mgr)) +
               sum_list (map pa (hiddenRows (h2h_table lc (Some d) mgr)))"
    by (rule trans [OF _ visible_hidden_split [OF ne]])
  from o show "wp s = pctOf (totW s) (totL s) (totT s)" by blast
qed


theorem hidden_opponent_witness:
  "map opponent (visibleTable (h2h_table codeUnitCompare (Some brendanData) ''Ann'') ''Ann'') = [''Cy''] \<and>
   map opponent (hiddenRows (h2h_table codeUnitCompare (Some brendanData) ''Ann'')) = [''Brendan''] \<and>
   ''Brendan'' \<in> opponent ` set (h2h_table codeUnitCompare (Some brendanData) ''Ann'') \<and>
   ''Brendan'' \<notin> opponent ` set (visibleTable (h2h_table codeUnitCompare (Some brendanData) ''Ann'') ''Ann'') \<and>
   overall (h2h_table codeUnitCompare (Some brendanData) ''Ann'') =
     Some \<lparr>totW = 3, totL = 2, totT = 0, tot_pf = 510, tot_pa = 480, gp = 5, wp = 3 / 5\<rparr> \<and>
   totW (the (overall (h2h_table codeUnitCompare (Some brendanData) ''Ann''))) = 1 + 2"
proof -
  let ?t = "h2h_table codeUnitCompare (Some brendanData) ''Ann''"
  let ?p = "\<lparr>side_a = ''Ann'', side_b = ''Brendan'', a_wins = 2, b_wins = 1, ties = 0,
                a_points_for = 300, b_points_for = 280\<rparr>"
  note th = hidden_opponent [of codeUnitCompare brendanData "''Ann''"]
  note th1 = th [THEN conjunct1]
  note th2 = th [THEN conjunct2, THEN conjunct1]
  note th3 = th [THEN conjunct2, THEN conjunct2]
  have v: "map opponent (visibleTable ?t ''Ann'') = [''Cy'']"
    unfolding brendanData_def by code_simp
  have hr: "map opponent (hiddenRows ?t) = [''Brendan'']"
    unfolding brendanData_def by code_simp
  have mw1: "map wins (visibleTable ?t ''Ann'') = [1]"
    unfolding brendanData_def by code_simp
  have mw2: "map wins (hiddenRows ?t) = [2]"
    unfolding brendanData_def by code_simp
  have o: "overall ?t = Some \<lparr>totW = 3, totL = 2, totT = 0, tot_pf = 510, tot_pa = 480, gp = 5, wp = 3 / 5\<rparr>"
    unfolding brendanData_def by code_simp
  have pm: "?p \<in> set (pairs brendanData)" by (simp add: brendanData_def)
  have hm: "''Brendan'' \<in> HIDDEN" by (simp add: HIDDEN_def)
  have hy: "''Ann'' \<noteq> [] \<and> ''Brendan'' \<noteq> ''Ann'' \<and> ''Brendan'' \<in> set (managers brendanData) \<and>
      ((side_a ?p = ''Ann'' \<and> side_b ?p = ''Brendan'') \<or> (side_b ?p = ''Ann'' \<and> side_a ?p = ''Brendan''))"
    by (simp add: brendanData_def)
  from th2 [THEN bspec, OF pm, THEN bspec, OF hm, THEN mp, OF hy]
  obtain r where r: "opponent r = ''Brendan''" "r \<in> set ?t" by blast
  then have i: "''Brendan'' \<in> opponent ` set ?t" by (metis imageI)
  have n: "''Brendan'' \<notin> opponent ` set (visibleTable ?t ''Ann'')"
  proof
    assume "''Brendan'' \<in> opponent ` set (visibleTable ?t ''Ann'')"
    then obtain x where "x \<in> set (visibleTable ?t ''Ann'')" "opponent x = ''Brendan''" by auto
    with th1 hm show False by (metis bspec)
  qed
  from th3 [THEN spec, THEN mp, OF o]
  have "totW \<lparr>totW = 3, totL = 2, totT = 0, tot_pf = 510, tot_pa = 480, gp = 5, wp = 3 / 5\<rparr>
      = sum_list (map wins (visibleTable ?t ''Ann'')) + sum_list (map wins (hiddenRows ?t))"
    by (rule conjunct1)
  then have w: "totW (the (overall ?t)) = 1 + 2" by (simp add: o mw1 mw2)
  from v hr i n o w show ?thesis by (intro conjI)
qed

subsection \<open>Ownership tracker\<close>

lemma lookup_draft_fold:
  "k \<noteq> [] \<Longrightarrow> map_of (foldl draftStep m ds) k =
     foldl (\<lambda>found d. Some (draftEntry k found d)) (map_of m k) (filter (\<lambda>d. trim (d_player d) = k) ds)"
  by (induction ds arbitrary: m) (auto simp: draftStep_def Let_def update_conv)

lemma lookup_add_fold:
  "k \<noteq> [] \<Longrightarrow> map_of (foldl addStep m rs) k =
     foldl (\<lambda>found r. Some (addEntry k found r)) (map_of m k) (filter (\<lambda>r. trim (txn_player r) = k) rs)"
  by (induction rs arbitrary: m) (auto simp: addStep_def Let_def update_conv)

lemma stat_draftEntry:
  "stat (Some (draftEntry k found d)) =
     (fst (stat found) + 1, fst (snd (stat found)), fst (snd (snd (stat found))) + 1,
      (if trim (d_manager d) \<noteq> [] then [\<lparr>team = trim (d_manager d), acquired = Drafted\<rparr>] else [])
        @ snd (snd (snd (stat found))))"
  by (cases found) (simp_all add: stat_def draftEntry_def freshVal_def Let_def)

lemma stat_addEntry:
  "stat (Some (addEntry k found r)) =
     (fst (stat found), fst (snd (stat found)) + 1, fst (snd (snd (stat found))) + 1,
      snd (snd (snd (stat found))) @
        [\<lparr>team = trim (to_team r), acquired = (if txn_note r = ''Trade'' then Trade else Waiver)\<rparr>])"
  by (cases found) (simp_all add: stat_def addEntry_def freshVal_def Let_def)

lemma stat_draft_fold:
  "stat (foldl (\<lambda>found d. Some (draftEntry k found d)) found ds) =
     (fst (stat found) + int (length ds), fst (snd (stat found)),
      fst (snd (snd (stat found))) + int (length ds),
      rev (map (\<lambda>d. \<lparr>team = trim (d_manager d), acquired = Drafted\<rparr>)
            (filter (\<lambda>d. trim (d_manager d) \<noteq> []) ds)) @ snd (snd (snd (stat found))))"
proof (induction ds arbitrary: found)
  case Nil
  then show ?case by simp
next
  case (Cons d ds)
  show ?case by (simp add: Cons.IH stat_draftEntry)
qed

lemma stat_add_fold:
  "stat (foldl (\<lambda>found r. Some (addEntry k found r)) found rs) =
     (fst (stat found), fst (snd (stat found)) + int (length rs),
      fst (snd (snd (stat found))) + int (length rs),
      snd (snd (snd (stat found))) @
        map (\<lambda>r. \<lparr>team = trim (to_team r), acquired = (if txn_note r = ''Trade'' then Trade else Waiver)\<rparr>) rs)"
proof (induction rs arbitrary: found)
  case Nil
  then show ?case by simp
next
  case (Cons r rs)
  show ?case by (simp add: Cons.IH stat_addEntry)
qed

lemma filter_filter_key:
  "filter (\<lambda>d. trim (d_manager d) \<noteq> []) (filter (\<lambda>d. trim (d_player d) = k) ds) =
   filter (\<lambda>d. trim (d_player d) = k \<and> trim (d_manager d) \<noteq> []) ds"
  by (induction ds) auto

lemma stat_ownership:
  assumes "k \<noteq> []"
  shows "stat (map_of (ownership getTime f draft) k) =
     (int (length (filter (\<lambda>d. trim (d_player d) = k) draft)),
      int (length (filter (\<lambda>r. trim (txn_player r) = k) (sortedAdds getTime f))),
      int (length (filter (\<lambda>d. trim (d_player d) = k) draft)) +
        int (length (filter (\<lambda>r. trim (txn_player r) = k) (sortedAdds getTime f))),
      draftedOwners k draft @ addOwners k (sortedAdds getTime f))"
  unfolding ownership_def lookup_add_fold [OF assms] lookup_draft_fold [OF assms]
    stat_add_fold stat_draft_fold
  by (simp add: stat_def draftedOwners_def addOwners_def filter_filter_key)

lemma playerKeyed_update:
  "playerKeyed m \<Longrightarrow> player e = k \<Longrightarrow> k \<noteq> [] \<Longrightarrow> playerKeyed (AList.update k e m)"
  unfolding playerKeyed_def using set_update_subset [of k e m]
  by (auto simp: distinct_update)

lemma player_draftEntry:
  "player (draftEntry k found d) = (case found of None \<Rightarrow> k | Some e \<Rightarrow> player e)"
  by (cases found) (simp_all add: draftEntry_def freshVal_def Let_def)

lemma player_addEntry:
  "player (addEntry k found r) = (case found of None \<Rightarrow> k | Some e \<Rightarrow> player e)"
  by (cases found) (simp_all add: addEntry_def freshVal_def Let_def)

lemma playerKeyed_lookup: "playerKeyed m \<Longrightarrow> map_of m k = Some e \<Longrightarrow> player e = k"
  unfolding playerKeyed_def by (auto dest: map_of_SomeD)

lemma playerKeyed_draftStep: "playerKeyed m \<Longrightarrow> playerKeyed (draftStep m d)"
  unfolding draftStep_def Let_def
  by (auto intro!: playerKeyed_update simp: player_draftEntry dest: playerKeyed_lookup split: option.splits)

lemma playerKeyed_addStep: "playerKeyed m \<Longrightarrow> playerKeyed (addStep m r)"
  unfolding addStep_def Let_def
  by (auto intro!: playerKeyed_update simp: player_addEntry dest: playerKeyed_lookup split: option.splits)

lemma playerKeyed_draft_fold: "playerKeyed m \<Longrightarrow> playerKeyed (foldl draftStep m ds)"
  by (induction ds arbitrary: m) (simp_all add: playerKeyed_draftStep)

lemma playerKeyed_add_fold: "playerKeyed m \<Longrightarrow> playerKeyed (foldl addStep m rs)"
  by (induction rs arbitrary: m) (simp_all add: playerKeyed_addStep)

lemma playerKeyed_ownership: "playerKeyed (ownership getTime f draft)"
  unfolding ownership_def
  by (intro playerKeyed_add_fold playerKeyed_draft_fold) (simp add: playerKeyed_def)

lemma ownership_entry:
  assumes "e \<in> set (map snd (ownership getTime f draft))"
  shows "player e \<noteq> [] \<and> map_of (ownership getTime f draft) (player e) = Some e"
proof -
  from assms obtain k where k: "(k, e) \<in> set (ownership getTime f draft)" by auto
  with playerKeyed_ownership [of getTime f draft] have "player e = k" "k \<noteq> []"
    "distinct (map fst (ownership getTime f draft))"
    by (auto simp: playerKeyed_def)
  with k show ?thesis by simp
qed

lemma set_leaderboard:
  "set (leaderboard lc getTime (Some f) draft query minPickups) =
     {e \<in> set (map snd (ownership getTime f draft)). total e \<ge> minPickups \<and> queryMatch query e}"
  by (auto simp: leaderboard_def set_sort_by)

lemma cmpDate_finite:
  "isFinite (getTime (txn_date x)) \<Longrightarrow> isFinite (getTime (txn_date y)) \<Longrightarrow>
     cmpDate getTime x y = timeOf getTime x - timeOf getTime y"
  by (auto simp: cmpDate_def timeOf_def isFinite_def cmpResult_def split: jsnum.splits)

lemma sortedAdds_by_time:
  assumes "\<forall>r \<in> set (file_rows f). isFinite (getTime (txn_date r))"
  shows "sorted_wrt (\<lambda>x y. timeOf getTime x \<le> timeOf getTime y) (sortedAdds getTime f)"
proof -
  let ?A = "set (filter isAdd (file_rows f))"
  have fin: "\<And>x. x \<in> ?A \<Longrightarrow> isFinite (getTime (txn_date x))" using assms by simp
  have "sorted_wrt (\<lambda>x y. cmpDate getTime x y \<le> 0) (sortedAdds getTime f)"
    unfolding sortedAdds_def
  proof (rule sorted_sort_by_on [where A = ?A])
    show "set (filter isAdd (file_rows f)) \<subseteq> ?A" by simp
  next
    fix x y assume "x \<in> ?A" "y \<in> ?A"
    then show "cmpDate getTime x y \<le> 0 \<or> cmpDate getTime y x \<le> 0"
      using fin by (simp add: cmpDate_finite) linarith
  next
    fix x y z assume "x \<in> ?A" "y \<in> ?A" "z \<in> ?A" "cmpDate getTime x y \<le> 0" "cmpDate getTime y z \<le> 0"
    then show "cmpDate getTime x z \<le> 0" using fin by (simp add: cmpDate_finite)
  qed
  moreover have "\<And>x y. x \<in> set (sortedAdds getTime f) \<Longrightarrow> y \<in> set (sortedAdds getTime f) \<Longrightarrow>
      cmpDate getTime x y \<le> 0 \<Longrightarrow> timeOf getTime x \<le> timeOf getTime y"
    using fin by (simp add: sortedAdds_def set_sort_by cmpDate_finite)
  ultimately show ?thesis by (rule sorted_wrt_mono_rel [rotated])
qed

lemma stat_Some: "fst (stat found) \<noteq> 0 \<Longrightarrow>
   \<exists>e. found = Some e \<and> stat found = (drafted e, adds e, total e, owned e)"
  by (cases found) (simp_all add: stat_def)

lemma stat_entry: "stat (Some e) = (drafted e, adds e, total e, owned e)"
  by (simp add: stat_def)

text \<open>
  C3. A player who appears once in the draft results, with manager M, and in exactly one
  transaction of type "add" with a non-empty destination team N and a note other than
  "Trade" has an entry with drafted = 1, adds = 1, total = 2 and the owners M (drafted)
  then N (waiver), in that order (M and N as trimmed; the default minimum of 2 and an
  empty search keep the entry). In general the draft results are folded before the
  transactions: in every entry the owners are the drafted ones, the latest first, followed
  by the owners of the adds in the order of the sorted list, which holds exactly the rows
  that pass the filter, in ascending date order when the dates parse.
\<close>

theorem ownership_order:
  "(\<forall>e \<in> set (leaderboard lc getTime (Some f) draft query minPickups).
      drafted e = int (length (filter (\<lambda>d. trim (d_player d) = player e) draft)) \<and>
      adds e = int (length (filter (\<lambda>r. trim (txn_player r) = player e) (sortedAdds getTime f))) \<and>
      total e = drafted e + adds e \<and>
      owned e = draftedOwners (player e) draft @ addOwners (player e) (sortedAdds getTime f)) \<and>
   mset (sortedAdds getTime f) = mset (filter isAdd (file_rows f)) \<and>
   ((\<forall>r \<in> set (file_rows f). isFinite (getTime (txn_date r))) \<longrightarrow>
      sorted_wrt (\<lambda>x y. timeOf getTime x \<le> timeOf getTime y) (sortedAdds getTime f)) \<and>
   (k \<noteq> [] \<and> filter (\<lambda>d. trim (d_player d) = k) draft = [d0] \<and>
    trim (d_manager d0) = M \<and> M \<noteq> [] \<and>
    filter (\<lambda>r. isAdd r \<and> trim (txn_player r) = k) (file_rows f) = [r0] \<and>
    trim (to_team r0) = N \<and> txn_note r0 \<noteq> ''Trade'' \<and>
    minPickups \<le> 2 \<and> trim query = [] \<longrightarrow>
      (\<exists>e \<in> set (leaderboard lc getTime (Some f) draft query minPickups).
         player e = k \<and> drafted e = 1 \<and> adds e = 1 \<and> total e = 2 \<and>
         owned e = [\<lparr>team = M, acquired = Drafted\<rparr>, \<lparr>team = N, acquired = Waiver\<rparr>]))"
proof (intro conjI ballI impI)
  fix e assume "e \<in> set (leaderboard lc getTime (Some f) draft query minPickups)"
  then have "e \<in> set (map snd (ownership getTime f draft))" by (simp add: set_leaderboard)
  then have ne: "player e \<noteq> []" and l: "map_of (ownership getTime f draft) (player e) = Some e"
    using ownership_entry by blast+
  from stat_ownership [OF ne, of getTime f draft]
  have s: "(drafted e, adds e, total e, owned e) =
     (int (length (filter (\<lambda>d. trim (d_player d) = player e) draft)),
      int (length (filter (\<lambda>r. trim (txn_player r) = player e) (sortedAdds getTime f))),
      int (length (filter (\<lambda>d. trim (d_player d) = player e) draft)) +
        int (length (filter (\<lambda>r. trim (txn_player r) = player e) (sortedAdds getTime f))),
      draftedOwners (player e) draft @ addOwners (player e) (sortedAdds getTime f))"
    by (simp only: l stat_entry)
  from s show "drafted e = int (length (filter (\<lambda>d. trim (d_player d) = player e) draft))" by simp
  from s show "adds e = int (length (filter (\<lambda>r. trim (txn_player r) = player e) (sortedAdds getTime f)))" by simp
  from s show "total e = drafted e + adds e" by simp
  from s show "owned e = draftedOwners (player e) draft @ addOwners (player e) (sortedAdds getTime f)" by simp
next
  show "mset (sortedAdds getTime f) = mset (filter isAdd (file_rows f))"
    by (simp only: sortedAdds_def mset_sort_by)
next
  assume "\<forall>r \<in> set (file_rows f). isFinite (getTime (txn_date r))"
  then show "sorted_wrt (\<lambda>x y. timeOf getTime x \<le> timeOf getTime y) (sortedAdds getTime f)"
    by (rule sortedAdds_by_time)
next
  assume a: "k \<noteq> [] \<and> filter (\<lambda>d. trim (d_player d) = k) draft = [d0] \<and>
    trim (d_manager d0) = M \<and> M \<noteq> [] \<and>
    filter (\<lambda>r. isAdd r \<and> trim (txn_player r) = k) (file_rows f) = [r0] \<and>
    trim (to_team r0) = N \<and> txn_note r0 \<noteq> ''Trade'' \<and>
    minPickups \<le> 2 \<and> trim query = []"
  then have k: "k \<noteq> []" and D: "filter (\<lambda>d. trim (d_player d) = k) draft = [d0]" by simp_all
  from a have "filter (\<lambda>r. trim (txn_player r) = k) (filter isAdd (file_rows f)) = [r0]" by simp
  then have A: "filter (\<lambda>r. trim (txn_player r) = k) (sortedAdds getTime f) = [r0]"
    unfolding sortedAdds_def by (rule filter_sort_by_single)
  have "filter (\<lambda>d. trim (d_player d) = k \<and> trim (d_manager d) \<noteq> []) draft =
      filter (\<lambda>d. trim (d_manager d) \<noteq> []) (filter (\<lambda>d. trim (d_player d) = k) draft)"
    by simp
  with D a have DO: "draftedOwners k draft = [\<lparr>team = M, acquired = Drafted\<rparr>]"
    by (simp add: draftedOwners_def)
  from A a have AO: "addOwners k (sortedAdds getTime f) = [\<lparr>team = N, acquired = Waiver\<rparr>]"
    by (simp add: addOwners_def)
  from stat_ownership [OF k, of getTime f draft] D A DO AO
  have s: "stat (map_of (ownership getTime f draft) k) =
      (1, 1, 2, [\<lparr>team = M, acquired = Drafted\<rparr>, \<lparr>team = N, acquired = Waiver\<rparr>])"
    by simp
  then obtain e where e: "map_of (ownership getTime f draft) k = Some e"
    and se: "stat (map_of (ownership getTime f draft) k) = (drafted e, adds e, total e, owned e)"
    using stat_Some [of "map_of (ownership getTime f draft) k"] by auto
  from s se have fields: "drafted e = 1" "adds e = 1" "total e = 2"
    "owned e = [\<lparr>team = M, acquired = Drafted\<rparr>, \<lparr>team = N, acquired = Waiver\<rparr>]" by simp_all
  from e have mem: "e \<in> set (map snd (ownership getTime f draft))"
    by (metis map_of_SomeD image_eqI set_map snd_conv)
  from e have pl: "player e = k"
    using playerKeyed_ownership playerKeyed_lookup by blast
  from mem fields a have "e \<in> set (leaderboard lc getTime (Some f) draft query minPickups)"
    by (simp add: set_leaderboard queryMatch_def)
  with pl fields show "\<exists>e \<in> set (leaderboard lc getTime (Some f) draft query minPickups).
         player e = k \<and> drafted e = 1 \<and> adds e = 1 \<and> total e = 2 \<and>
         owned e = [\<lparr>team = M, acquired = Drafted\<rparr>, \<lparr>team = N, acquired = Waiver\<rparr>]"
    by blast
qed

lemma leaderboard_example:
  "leaderboard lc exTime (Some exTxn) exDraft [] 2 =
     [\<lparr>player = ''Joe Flacco'', position = ''QB'', nfl = ''Cle'', drafted = 1, adds = 1, total = 2,
       owned = [\<lparr>team = ''Mia'', acquired = Drafted\<rparr>, \<lparr>team = ''Ned'', acquired = Waiver\<rparr>]\<rparr>]"
  unfolding exTime_def exTxn_def exDraft_def by code_simp


theorem ownership_order_witness:
  "leaderboard codeUnitCompare exTime (Some exTxn) exDraft [] 2 =
     [\<lparr>player = ''Joe Flacco'', position = ''QB'', nfl = ''Cle'', drafted = 1, adds = 1, total = 2,
       owned = [\<lparr>team = ''Mia'', acquired = Drafted\<rparr>, \<lparr>team = ''Ned'', acquired = Waiver\<rparr>]\<rparr>] \<and>
   (\<exists>e \<in> set (leaderboard codeUnitCompare exTime (Some exTxn) exDraft [] 2).
      player e = ''Joe Flacco'' \<and> drafted e = 1 \<and> adds e = 1 \<and> total e = 2 \<and>
      owned e = [\<lparr>team = ''Mia'', acquired = Drafted\<rparr>, \<lparr>team = ''Ned'', acquired = Waiver\<rparr>])"
proof -
  let ?d0 = "\<lparr>d_player = ''Joe Flacco'', d_position = ''QB'', d_nfl = ''Cle'', d_manager = ''Mia''\<rparr>"
  let ?r0 = "\<lparr>txn_season = 2025, txn_date = ''2025-09-17'', txn_type = ''add'', txn_player = ''Joe Flacco'',
          txn_position = ''QB'', txn_nfl = ''Cle'', from_team = ''Waivers'', to_team = ''Ned'',
          txn_note = []\<rparr>"
  have h1: "''Joe Flacco'' \<noteq> []" by simp
  have h2: "filter (\<lambda>d. trim (d_player d) = ''Joe Flacco'') exDraft = [?d0]"
    unfolding exDraft_def by code_simp
  have h3: "trim (d_manager ?d0) = ''Mia''" by code_simp
  have h4: "''Mia'' \<noteq> []" by simp
  have h5: "filter (\<lambda>r. isAdd r \<and> trim (txn_player r) = ''Joe Flacco'') (file_rows exTxn) = [?r0]"
    unfolding exTxn_def by code_simp
  have h6: "trim (to_team ?r0) = ''Ned''" by code_simp
  have h7: "txn_note ?r0 \<noteq> ''Trade''" by simp
  have h8: "(2::int) \<le> 2" by simp
  have h9: "trim [] = []" by code_simp
  note th = ownership_order [of codeUnitCompare exTime exTxn exDraft "[]" 2 "''Joe Flacco''" ?d0 "''Mia''" ?r0 "''Ned''",
      THEN conjunct2, THEN conjunct2, THEN conjunct2, THEN mp]
  have ex: "\<exists>e \<in> set (leaderboard codeUnitCompare exTime (Some exTxn) exDraft [] 2).
      player e = ''Joe Flacco'' \<and> drafted e = 1 \<and> adds e = 1 \<and> total e = 2 \<and>
      owned e = [\<lparr>team = ''Mia'', acquired = Drafted\<rparr>, \<lparr>team = ''Ned'', acquired = Waiver\<rparr>]"
    by (rule th) (intro conjI h1 h2 h3 h4 h5 h6 h7 h8 h9)
  from leaderboard_example ex show ?thesis by (rule conjI)
qed

subsection \<open>Empty inputs\<close>

text \<open>
  C9. An empty input gives an empty result, and never an error: the functions of the model
  are total and none of them has a failing branch. Parsing the empty text gives no record
  (for both parsers), and the season aggregator, the head-to-head resolver, the ownership
  tracker, the record-breaker normalizer (all-time, seasonal and extra tables) and the
  draft board grouper (by round, by manager, by player) map empty collections to the
  empty list.
\<close>

theorem empty_input_empty_output:
  "parseCsv [] = [] \<and> parseCSV [] = [] \<and>
   table lc [] h = [] \<and>
   h2h_table lc (Some \<lparr>managers = ms, pairs = []\<rparr>) mgr = [] \<and>
   leaderboard lc getTime (Some \<lparr>file_season = y, file_rows = [], updated_at = u\<rparr>) [] query minPickups = [] \<and>
   allTimeSections lc (Some \<lparr>years = []\<rparr>) = [] \<and>
   seasonalSections lc (Some \<lparr>years = []\<rparr>) mode year = [] \<and>
   teamPointsExtraTables lc (Some \<lparr>years = []\<rparr>) mode year = [] \<and>
   allTimeSections lc (Some \<lparr>years = [(yr, \<lparr>head_to_head = Some [], team_points = Some [], team_stats = None\<rparr>)]\<rparr>) = [] \<and>
   seasonalSections lc (Some \<lparr>years = [(yr, \<lparr>head_to_head = Some [], team_points = Some [], team_stats = None\<rparr>)]\<rparr>) mode year = [] \<and>
   groupedByRoundSingle [] = [] \<and> managerRowsFlat mf [] = [] \<and> playerSearchResults pq [] = []"
proof (intro conjI)
  show "parseCsv [] = []" by code_simp
  show "parseCSV [] = []" by code_simp
  show "table lc [] h = []" by (simp add: table_def sort_by_def)
  show "h2h_table lc (Some \<lparr>managers = ms, pairs = []\<rparr>) mgr = []"
    by (simp add: h2h_table_def sort_by_def)
  show "leaderboard lc getTime (Some \<lparr>file_season = y, file_rows = [], updated_at = u\<rparr>) [] query minPickups = []"
    by (simp add: leaderboard_def ownership_def sortedAdds_def sort_by_def)
  show "allTimeSections lc (Some \<lparr>years = []\<rparr>) = []"
    by (simp add: allTimeSections_def allTimeOut_def allTimePushes_def sort_by_def)
  show "seasonalSections lc (Some \<lparr>years = []\<rparr>) mode year = []"
    by (simp add: seasonalSections_def split: Mode.splits)
  show "teamPointsExtraTables lc (Some \<lparr>years = []\<rparr>) mode year = []"
    by (simp add: teamPointsExtraTables_def sort_by_def)
  show "allTimeSections lc (Some \<lparr>years = [(yr, \<lparr>head_to_head = Some [], team_points = Some [], team_stats = None\<rparr>)]\<rparr>) = []"
    by (simp add: allTimeSections_def allTimeOut_def allTimePushes_def yearSections_def sort_by_def)
  show "seasonalSections lc (Some \<lparr>years = [(yr, \<lparr>head_to_head = Some [], team_points = Some [], team_stats = None\<rparr>)]\<rparr>) mode year = []"
    by (simp add: seasonalSections_def yearSections_def sort_by_def split: Mode.splits SeasonalKey.splits)
  show "groupedByRoundSingle [] = []" by (simp add: groupedByRoundSingle_def sort_by_def)
  show "managerRowsFlat mf [] = []" by (simp add: managerRowsFlat_def sort_by_def)
  show "playerSearchResults pq [] = []" by (simp add: playerSearchResults_def sort_by_def Let_def)
qed

subsection \<open>Seasonal records\<close>

lemma keepUnseen_subseq: "subseq (keepUnseen sg seen rs) rs"
  by (induction rs arbitrary: seen) auto

lemma keepUnseen_sigs:
  "sg ` set (keepUnseen sg seen rs) = sg ` set rs - set seen"
  by (induction rs arbitrary: seen) auto

lemma keepUnseen_distinct: "distinct (map sg (keepUnseen sg seen rs))"
proof (induction rs arbitrary: seen)
  case Nil
  then show ?case by simp
next
  case (Cons r rs)
  have "sg r \<notin> sg ` set (keepUnseen sg (sg r # seen) rs)"
    by (simp add: keepUnseen_sigs)
  with Cons show ?case by auto
qed

lemma keepUnseen_first:
  "r \<in> set (keepUnseen sg seen rs) \<Longrightarrow> List.find (\<lambda>x. sg x = sg r) rs = Some r"
proof (induction rs arbitrary: seen)
  case Nil
  then show ?case by simp
next
  case (Cons a rs)
  show ?case
  proof (cases "sg a \<in> set seen")
    case True
    with Cons.prems have m: "r \<in> set (keepUnseen sg seen rs)" by simp
    then have "sg r \<in> sg ` set rs - set seen" using keepUnseen_sigs [of sg seen rs] by blast
    with True have "sg a \<noteq> sg r" by auto
    with Cons.IH [OF m] show ?thesis by simp
  next
    case False
    show ?thesis
    proof (cases "r = a")
      case True
      then show ?thesis by simp
    next
      case ne: False
      with False Cons.prems have m: "r \<in> set (keepUnseen sg (sg a # seen) rs)" by simp
      then have "sg r \<in> sg ` set rs - set (sg a # seen)"
        using keepUnseen_sigs [of sg "sg a # seen" rs] by blast
      then have "sg a \<noteq> sg r" by auto
      with Cons.IH [OF m] show ?thesis by simp
    qed
  qed
qed

lemma set_seasonalSections:
  "set (seasonalSections lc (Some d) (Seasonal key) year) =
     {sec. \<exists>src \<in> set (sourceSections d key year).
        \<not> shouldExcludeSection (sec_title src) \<and> seasonalRows src = Some sec}"
  by (auto simp: seasonalSections_def sourceSections_def set_sort_by set_map_filter_conv
      split: option.splits if_splits)

lemma seasonalRows_Some:
  "seasonalRows src = Some sec \<longleftrightarrow>
     seasonRowsOf src \<noteq> [] \<and>
     sec = \<lparr>sec_title = sec_title src, sec_headers = sec_headers src,
            sec_rows = keepUnseen (rowSig src) [] (seasonRowsOf src)\<rparr>"
  by (auto simp: seasonalRows_def seasonRowsOf_def Let_def)

lemma holderCell_fallback:
  "(\<forall>h \<in> set hs. \<not> str_includes (toLowerCase h) ''holder'') \<Longrightarrow>
     holderCell hs r = (case map_of r ''Record Holder'' of None \<Rightarrow> [] | Some v \<Rightarrow> v)"
proof -
  assume "\<forall>h \<in> set hs. \<not> str_includes (toLowerCase h) ''holder''"
  then have "List.find (\<lambda>h. str_includes (toLowerCase h) ''holder'') hs = None"
    by (simp add: find_None_iff)
  then show ?thesis by (simp add: holderCell_def)
qed

text \<open>
  C5 (as amended). In seasonal mode the output holds one section for every supplied
  section that is not excluded and keeps a row once the rows tagged "all time" are
  removed. Its rows are the remaining rows deduplicated by the composite signature of the
  normalised title, the normalised first-column value, the numeric substrings of the last
  column and the normalised value of the column whose header contains "holder", falling
  back to the column named "Record Holder" when no header does: the kept rows are a
  subsequence of the remaining rows (their order is kept), their signatures are distinct,
  every signature of a remaining row is kept, and each kept row is the first row with its
  signature.
\<close>

theorem seasonal_dedup:
  "(\<forall>sec \<in> set (seasonalSections lc (Some d) (Seasonal key) year).
      \<exists>src \<in> set (sourceSections d key year).
        \<not> shouldExcludeSection (sec_title src) \<and>
        sec_title sec = sec_title src \<and> sec_headers sec = sec_headers src \<and>
        seasonRowsOf src \<noteq> [] \<and>
        subseq (sec_rows sec) (seasonRowsOf src) \<and>
        distinct (map (rowSig src) (sec_rows sec)) \<and>
        rowSig src ` set (sec_rows sec) = rowSig src ` set (seasonRowsOf src) \<and>
        (\<forall>r \<in> set (sec_rows sec).
           \<not> hasAllTimeTag r \<and>
           List.find (\<lambda>x. rowSig src x = rowSig src r) (seasonRowsOf src) = Some r)) \<and>
   (\<forall>src \<in> set (sourceSections d key year).
      \<not> shouldExcludeSection (sec_title src) \<and> seasonRowsOf src \<noteq> [] \<longrightarrow>
      \<lparr>sec_title = sec_title src, sec_headers = sec_headers src,
        sec_rows = keepUnseen (rowSig src) [] (seasonRowsOf src)\<rparr>
        \<in> set (seasonalSections lc (Some d) (Seasonal key) year)) \<and>
   ((\<forall>h \<in> set hs. \<not> str_includes (toLowerCase h) ''holder'') \<longrightarrow>
      holderCell hs r0 = (case map_of r0 ''Record Holder'' of None \<Rightarrow> [] | Some v \<Rightarrow> v))"
proof (intro conjI ballI impI)
  fix sec assume "sec \<in> set (seasonalSections lc (Some d) (Seasonal key) year)"
  then obtain src where src: "src \<in> set (sourceSections d key year)"
      "\<not> shouldExcludeSection (sec_title src)" and sr: "seasonalRows src = Some sec"
    by (auto simp: set_seasonalSections)
  from sr have ne: "seasonRowsOf src \<noteq> []"
    and sec: "sec = \<lparr>sec_title = sec_title src, sec_headers = sec_headers src,
            sec_rows = keepUnseen (rowSig src) [] (seasonRowsOf src)\<rparr>"
    by (simp_all add: seasonalRows_Some)
  have rows: "sec_rows sec = keepUnseen (rowSig src) [] (seasonRowsOf src)" by (simp add: sec)
  have 1: "subseq (sec_rows sec) (seasonRowsOf src)" unfolding rows by (rule keepUnseen_subseq)
  have 2: "distinct (map (rowSig src) (sec_rows sec))" unfolding rows by (rule keepUnseen_distinct)
  have 3: "rowSig src ` set (sec_rows sec) = rowSig src ` set (seasonRowsOf src)"
    unfolding rows by (simp add: keepUnseen_sigs)
  have 4: "\<forall>r \<in> set (sec_rows sec). \<not> hasAllTimeTag r \<and>
           List.find (\<lambda>x. rowSig src x = rowSig src r) (seasonRowsOf src) = Some r"
  proof
    fix r assume r: "r \<in> set (sec_rows sec)"
    then have "r \<in> set (seasonRowsOf src)" using 1 by (metis subseq_order.dual_order.refl set_nths_subset subseq_conv_nths subsetD)
    then have "\<not> hasAllTimeTag r" by (simp add: seasonRowsOf_def)
    moreover from r have "List.find (\<lambda>x. rowSig src x = rowSig src r) (seasonRowsOf src) = Some r"
      unfolding rows by (rule keepUnseen_first)
    ultimately show "\<not> hasAllTimeTag r \<and>
           List.find (\<lambda>x. rowSig src x = rowSig src r) (seasonRowsOf src) = Some r" by blast
  qed
  from src ne sec 1 2 3 4
  show "\<exists>src \<in> set (sourceSections d key year).
        \<not> shouldExcludeSection (sec_title src) \<and>
        sec_title sec = sec_title src \<and> sec_headers sec = sec_headers src \<and>
        seasonRowsOf src \<noteq> [] \<and>
        subseq (sec_rows sec) (seasonRowsOf src) \<and>
        distinct (map (rowSig src) (sec_rows sec)) \<and>
        rowSig src ` set (sec_rows sec) = rowSig src ` set (seasonRowsOf src) \<and>
        (\<forall>r \<in> set (sec_rows sec).
           \<not> hasAllTimeTag r \<and>
           List.find (\<lambda>x. rowSig src x = rowSig src r) (seasonRowsOf src) = Some r)"
    by (intro bexI [of _ src] conjI) simp_all
next
  fix src assume "src \<in> set (sourceSections d key year)"
    and "\<not> shouldExcludeSection (sec_title src) \<and> seasonRowsOf src \<noteq> []"
  then show "\<lparr>sec_title = sec_title src, sec_headers = sec_headers src,
        sec_rows = keepUnseen (rowSig src) [] (seasonRowsOf src)\<rparr>
        \<in> set (seasonalSections lc (Some d) (Seasonal key) year)"
    unfolding set_seasonalSections using seasonalRows_Some by blast
next
  assume "\<forall>h \<in> set hs. \<not> str_includes (toLowerCase h) ''holder''"
  then show "holderCell hs r0 = (case map_of r0 ''Record Holder'' of None \<Rightarrow> [] | Some v \<Rightarrow> v)"
    by (rule holderCell_fallback)
qed

lemma seasonal_example:
  "seasonalSections lc (Some seasonData) (Seasonal Team_points) ''2024'' =
     [\<lparr>sec_title = ''Most Points'', sec_headers = [''Team'', ''Points''], sec_rows = seasonRows\<rparr>]"
  unfolding seasonData_def seasonSec_def seasonRows_def by code_simp

theorem seasonal_dedup_record_fallback:
  "(\<forall>lc. seasonalSections lc (Some seasonData) (Seasonal Team_points) ''2024'' =
     [\<lparr>sec_title = ''Most Points'', sec_headers = [''Team'', ''Points''], sec_rows = seasonRows\<rparr>]) \<and>
   length seasonRows = 2 \<and>
   keepUnseen (rowSigRecord seasonSec) [] (seasonRowsOf seasonSec) = [hd seasonRows] \<and>
   rowSigRecord seasonSec (seasonRows ! 0) = rowSigRecord seasonSec (seasonRows ! 1) \<and>
   rowSig seasonSec (seasonRows ! 0) \<noteq> rowSig seasonSec (seasonRows ! 1)"
proof (intro conjI allI)
  show "seasonalSections lc (Some seasonData) (Seasonal Team_points) ''2024'' =
     [\<lparr>sec_title = ''Most Points'', sec_headers = [''Team'', ''Points''], sec_rows = seasonRows\<rparr>]" for lc
    by (rule seasonal_example)
  show "length seasonRows = 2" by (simp add: seasonRows_def)
  show "keepUnseen (rowSigRecord seasonSec) [] (seasonRowsOf seasonSec) = [hd seasonRows]"
    unfolding seasonSec_def seasonRows_def by code_simp
  show "rowSigRecord seasonSec (seasonRows ! 0) = rowSigRecord seasonSec (seasonRows ! 1)"
    unfolding seasonSec_def seasonRows_def by code_simp
  show "rowSig seasonSec (seasonRows ! 0) \<noteq> rowSig seasonSec (seasonRows ! 1)"
    unfolding seasonSec_def seasonRows_def by code_simp
qed

theorem seasonal_dedup_witness:
  "seasonSec \<in> set (sourceSections seasonData Team_points ''2024'') \<and>
   \<lparr>sec_title = ''Most Points'', sec_headers = [''Team'', ''Points''],
     sec_rows = keepUnseen (rowSig seasonSec) [] (seasonRowsOf seasonSec)\<rparr>
     \<in> set (seasonalSections codeUnitCompare (Some seasonData) (Seasonal Team_points) ''2024'') \<and>
   keepUnseen (rowSig seasonSec) [] (seasonRowsOf seasonSec) = seasonRows \<and>
   holderCell [''Team'', ''Points''] (hd seasonRows) = ''Ann''"
proof -
  note th = seasonal_dedup [of codeUnitCompare seasonData Team_points "''2024''" "[''Team'', ''Points'']" "hd seasonRows"]
  have m: "seasonSec \<in> set (sourceSections seasonData Team_points ''2024'')"
    unfolding sourceSections_def seasonData_def by code_simp
  have e: "\<not> shouldExcludeSection (sec_title seasonSec) \<and> seasonRowsOf seasonSec \<noteq> []"
    unfolding seasonSec_def seasonRows_def by code_simp
  from th [THEN conjunct2, THEN conjunct1, THEN bspec, OF m, THEN mp, OF e]
  have 1: "\<lparr>sec_title = ''Most Points'', sec_headers = [''Team'', ''Points''],
     sec_rows = keepUnseen (rowSig seasonSec) [] (seasonRowsOf seasonSec)\<rparr>
     \<in> set (seasonalSections codeUnitCompare (Some seasonData) (Seasonal Team_points) ''2024'')"
    by (simp add: seasonSec_def)
  have 2: "keepUnseen (rowSig seasonSec) [] (seasonRowsOf seasonSec) = seasonRows"
    unfolding seasonSec_def seasonRows_def by code_simp
  have h: "\<forall>h \<in> set [''Team'', ''Points'']. \<not> str_includes (toLowerCase h) ''holder''"
    by code_simp
  from th [THEN conjunct2, THEN conjunct2, THEN mp, OF h]
  have 3: "holderCell [''Team'', ''Points''] (hd seasonRows) = ''Ann''"
    by (simp add: seasonRows_def)
  from m 1 2 3 show ?thesis by (intro conjI)
qed

subsection \<open>All-time records\<close>

lemma jsLess_irrefl [simp]: "\<not> jsLess v v"
  by (cases v) (simp_all add: jsLess_def)

lemma jsLess_trans: "jsLess x y \<Longrightarrow> jsLess y z \<Longrightarrow> jsLess x z"
  by (cases x; cases y; cases z) (simp_all add: jsLess_def)

lemma better_irrefl [simp]: "\<not> better km v v"
  by (simp add: better_def)

lemma better_trans: "better km x y \<Longrightarrow> better km y z \<Longrightarrow> better km x z"
  unfolding better_def using jsLess_trans by blast

lemma lookup_push_fold:
  "map_of (foldl push m ps) t =
     foldl (\<lambda>found p. Some (pushEntry found (snd p))) (map_of m t) (filter (\<lambda>p. fst p = t) ps)"
  by (induction ps arbitrary: m) (auto simp: push_def update_conv)

lemma rowsOf_push_fold:
  "rowsOf (foldl (\<lambda>found p. Some (pushEntry found (snd p))) found ps) =
     rowsOf found @ map (\<lambda>p. snd (snd p)) ps"
proof (induction ps arbitrary: found)
  case Nil
  then show ?case by simp
next
  case (Cons p ps)
  have "rowsOf (Some (pushEntry found (snd p))) = rowsOf found @ [snd (snd p)]"
    by (cases found) (simp_all add: rowsOf_def pushEntry_def)
  with Cons.IH [of "Some (pushEntry found (snd p))"] show ?case by simp
qed

lemma distinct_push_fold: "distinct (map fst m) \<Longrightarrow> distinct (map fst (foldl push m ps))"
  by (induction ps arbitrary: m) (simp_all add: push_def distinct_update)

lemma bySection_entry:
  assumes "e \<in> set (foldl push [] (allTimePushes d))"
  shows "snd (snd e) = allTimeRows d (fst e)"
proof -
  let ?b = "foldl push [] (allTimePushes d)"
  have "distinct (map fst ?b)" by (rule distinct_push_fold) simp
  with assms have "map_of ?b (fst e) = Some (snd e)"
    by (metis map_of_eq_Some_iff prod.collapse)
  then have "rowsOf (map_of ?b (fst e)) = snd (snd e)" by (simp add: rowsOf_def)
  then show ?thesis
    unfolding lookup_push_fold rowsOf_push_fold by (simp add: rowsOf_def allTimeRows_def)
qed

lemma recordStep_alt:
  "recordStep sn hs m r =
     (if valued hs r
      then AList.update (recordKey sn hs r)
             (recordEntry (keepMinOf sn) (map_of m (recordKey sn hs r)) r (valueOf hs r)) m
      else m)"
  by (simp add: recordStep_def valued_def valueOf_def Let_def split: option.splits)

lemma lookup_record_fold:
  "map_of (foldl (recordStep sn hs) m rs) k =
     foldl (\<lambda>cur r. Some (recordEntry (keepMinOf sn) cur r (valueOf hs r))) (map_of m k)
       (filter (\<lambda>r. valued hs r \<and> recordKey sn hs r = k) rs)"
  by (induction rs arbitrary: m) (auto simp: recordStep_alt update_conv)

lemma distinct_record_fold:
  "distinct (map fst m) \<Longrightarrow> distinct (map fst (foldl (recordStep sn hs) m rs))"
  by (induction rs arbitrary: m) (simp_all add: recordStep_alt distinct_update)

lemma bestOf_step:
  assumes "bestOf km hs cur S"
  shows "bestOf km hs (Some (recordEntry km cur r (valueOf hs r))) (insert r S)"
proof (cases cur)
  case None
  with assms show ?thesis by (simp add: bestOf_def recordEntry_def)
next
  case (Some e)
  with assms have e: "fst e \<in> S" "snd e = valueOf hs (fst e)"
    and b: "\<And>r'. r' \<in> S \<Longrightarrow> \<not> better km (valueOf hs r') (snd e)"
    by (auto simp: bestOf_def)
  show ?thesis
  proof (cases "better km (valueOf hs r) (snd e)")
    case True
    have "\<not> better km (valueOf hs r') (valueOf hs r)" if "r' \<in> S" for r'
      using b [OF that] True better_trans by blast
    with True Some show ?thesis by (simp add: bestOf_def recordEntry_def)
  next
    case False
    with Some e b show ?thesis by (auto simp: bestOf_def recordEntry_def)
  qed
qed

lemma bestOf_fold:
  "bestOf km hs cur S \<Longrightarrow>
     bestOf km hs (foldl (\<lambda>cur r. Some (recordEntry km cur r (valueOf hs r))) cur rs) (S \<union> set rs)"
proof (induction rs arbitrary: cur S)
  case Nil
  then show ?case by simp
next
  case (Cons r rs)
  from Cons.IH [OF bestOf_step [OF Cons.prems, of r]] show ?case by simp
qed

lemma byRecord_lookup:
  "bestOf (keepMinOf sn) hs (map_of (foldl (recordStep sn hs) [] rs) k)
     {r \<in> set rs. valued hs r \<and> recordKey sn hs r = k}"
proof -
  have "bestOf (keepMinOf sn) hs None {}" by (simp add: bestOf_def)
  from bestOf_fold [OF this, of "filter (\<lambda>r. valued hs r \<and> recordKey sn hs r = k) rs"]
  show ?thesis unfolding lookup_record_fold by simp
qed

lemma byRecord_entry:
  assumes "(k, r, v) \<in> set (foldl (recordStep sn hs) [] rs)"
  shows "r \<in> set rs \<and> valued hs r \<and> recordKey sn hs r = k \<and> v = valueOf hs r \<and>
     (\<forall>r' \<in> set rs. valued hs r' \<and> recordKey sn hs r' = k \<longrightarrow>
        \<not> better (keepMinOf sn) (valueOf hs r') (valueOf hs r))"
proof -
  let ?b = "foldl (recordStep sn hs) [] rs"
  have "distinct (map fst ?b)" by (rule distinct_record_fold) simp
  with assms have "map_of ?b k = Some (r, v)" by simp
  with byRecord_lookup [of sn hs rs k] show ?thesis by (auto simp: bestOf_def)
qed

lemma byRecord_covers:
  assumes "r' \<in> set rs" and "valued hs r'"
  shows "\<exists>r v. (recordKey sn hs r', r, v) \<in> set (foldl (recordStep sn hs) [] rs)"
proof -
  let ?b = "foldl (recordStep sn hs) [] rs"
  from assms byRecord_lookup [of sn hs rs "recordKey sn hs r'"]
  obtain e where "map_of ?b (recordKey sn hs r') = Some e"
    by (cases "map_of ?b (recordKey sn hs r')") (auto simp: bestOf_def)
  then have "(recordKey sn hs r', e) \<in> set ?b" by (rule map_of_SomeD)
  then show ?thesis by (cases e) auto
qed

lemma dedupeSection_Some:
  assumes "dedupeSection e = Some sec"
  shows "sec_title sec = fst e \<and> sec_headers sec = fst (snd e) \<and>
     sec_rows sec = map (\<lambda>v. fst (snd v))
        (foldl (recordStep (normalizeCell (fst e)) (fst (snd e))) [] (snd (snd e))) \<and>
     sec_rows sec \<noteq> []"
  using assms by (auto simp: dedupeSection_def Let_def split: if_splits)

lemma dedupeSection_keys:
  "map (recordKey sn hs) (map (\<lambda>v. fst (snd v)) (foldl (recordStep sn hs) [] rs)) =
     map fst (foldl (recordStep sn hs) [] rs)"
proof -
  have "recordKey sn hs (fst (snd x)) = fst x" if "x \<in> set (foldl (recordStep sn hs) [] rs)" for x
    using byRecord_entry [of "fst x" "fst (snd x)" "snd (snd x)" sn hs rs] that by simp
  then show ?thesis by simp
qed

lemma push_fold_Some:
  "ps \<noteq> [] \<Longrightarrow> \<exists>e. foldl (\<lambda>found p. Some (pushEntry found (snd p))) found ps = Some e"
proof (induction ps arbitrary: found)
  case Nil
  then show ?case by simp
next
  case (Cons p ps)
  then show ?case by (cases "ps = []") simp_all
qed

lemma headers_push_fold:
  "foldl (\<lambda>found p. Some (pushEntry found (snd p))) (Some e) ps = Some e' \<Longrightarrow> fst e' = fst e"
proof (induction ps arbitrary: e)
  case Nil
  then show ?case by simp
next
  case (Cons p ps)
  from Cons.IH [of "pushEntry (Some e) (snd p)"] Cons.prems show ?case
    by (simp add: pushEntry_def)
qed

lemma headers_push_first:
  assumes "foldl (\<lambda>found p. Some (pushEntry found (snd p))) None ps = Some e'"
  shows "fst e' = (case ps of [] \<Rightarrow> [] | p # _ \<Rightarrow> fst (snd p))"
proof (cases ps)
  case Nil
  with assms show ?thesis by simp
next
  case (Cons p ps')
  with assms have "fst e' = fst (pushEntry None (snd p))"
    using headers_push_fold [of "pushEntry None (snd p)" ps' e'] by simp
  with Cons show ?thesis by (simp add: pushEntry_def)
qed

lemma bySection_headers:
  assumes "e \<in> set (foldl push [] (allTimePushes d))"
  shows "fst (snd e) = allTimeHeaders d (fst e)"
proof -
  let ?b = "foldl push [] (allTimePushes d)"
  have "distinct (map fst ?b)" by (rule distinct_push_fold) simp
  with assms have "map_of ?b (fst e) = Some (snd e)"
    by (metis map_of_eq_Some_iff prod.collapse)
  then have "foldl (\<lambda>found p. Some (pushEntry found (snd p))) None
      (filter (\<lambda>p. fst p = fst e) (allTimePushes d)) = Some (snd e)"
    unfolding lookup_push_fold by simp
  from headers_push_first [OF this] show ?thesis by (simp add: allTimeHeaders_def)
qed

lemma bySection_covers:
  assumes "allTimeRows d t \<noteq> []"
  shows "(t, allTimeHeaders d t, allTimeRows d t) \<in> set (foldl push [] (allTimePushes d))"
proof -
  let ?b = "foldl push [] (allTimePushes d)"
  from assms have "filter (\<lambda>p. fst p = t) (allTimePushes d) \<noteq> []"
    by (auto simp: allTimeRows_def)
  from push_fold_Some [OF this, of None] obtain e where "map_of ?b t = Some e"
    unfolding lookup_push_fold by auto
  then have m: "(t, e) \<in> set ?b" by (rule map_of_SomeD)
  from bySection_entry [OF m] bySection_headers [OF m] have "e = (allTimeHeaders d t, allTimeRows d t)"
    by (cases e) simp
  with m show ?thesis by simp
qed

lemma set_allTimeSections: "set (allTimeSections lc (Some d)) = set (allTimeOut d)"
  by (simp add: allTimeSections_def set_sort_by)

lemma allTimeOut_entry:
  assumes "sec \<in> set (allTimeOut d)"
  shows "sec_rows sec = map (\<lambda>v. fst (snd v))
        (foldl (recordStep (normalizeCell (sec_title sec)) (sec_headers sec)) []
           (allTimeRows d (sec_title sec))) \<and>
     sec_headers sec = allTimeHeaders d (sec_title sec) \<and> sec_rows sec \<noteq> []"
proof -
  from assms obtain e where e: "e \<in> set (foldl push [] (allTimePushes d))"
    and s: "dedupeSection e = Some sec"
    by (auto simp: allTimeOut_def set_map_filter_conv)
  note ds = dedupeSection_Some [OF s]
  from ds have t: "sec_title sec = fst e" and h: "sec_headers sec = fst (snd e)"
    and n: "sec_rows sec \<noteq> []" by blast+
  from ds have "sec_rows sec = map (\<lambda>v. fst (snd v))
        (foldl (recordStep (normalizeCell (fst e)) (fst (snd e))) [] (snd (snd e)))" by blast
  then have r: "sec_rows sec = map (\<lambda>v. fst (snd v))
        (foldl (recordStep (normalizeCell (sec_title sec)) (sec_headers sec)) []
           (allTimeRows d (sec_title sec)))"
    by (simp only: t h bySection_entry [OF e])
  have "sec_headers sec = allTimeHeaders d (sec_title sec)"
    by (simp only: t h bySection_headers [OF e])
  with r n show ?thesis by (intro conjI)
qed

lemma allTimeOut_numbered:
  assumes sec: "sec \<in> set (allTimeOut d)"
  shows "\<exists>r \<in> set (allTimeRows d (sec_title sec)). valued (allTimeHeaders d (sec_title sec)) r"
proof -
  let ?b = "foldl (recordStep (normalizeCell (sec_title sec)) (sec_headers sec)) []
      (allTimeRows d (sec_title sec))"
  note en = allTimeOut_entry [OF sec]
  from en have rows: "sec_rows sec = map (\<lambda>v. fst (snd v)) ?b" by (rule conjunct1)
  from en have h: "sec_headers sec = allTimeHeaders d (sec_title sec)" by blast
  from en have ne: "sec_rows sec \<noteq> []" by blast
  have "?b \<noteq> []" using ne rows by auto
  then obtain x where "x \<in> set ?b" by (cases ?b) auto
  then have "(fst x, fst (snd x), snd (snd x)) \<in> set ?b" by simp
  from byRecord_entry [OF this]
  have "fst (snd x) \<in> set (allTimeRows d (sec_title sec)) \<and> valued (sec_headers sec) (fst (snd x))"
    by blast
  with h show ?thesis by auto
qed

lemma allTimeOut_covers:
  assumes r: "r \<in> set (allTimeRows d t)" and v: "valued (allTimeHeaders d t) r"
  shows "\<exists>sec \<in> set (allTimeOut d). sec_title sec = t"
proof -
  let ?e = "(t, allTimeHeaders d t, allTimeRows d t)"
  from r have "allTimeRows d t \<noteq> []" by auto
  then have m: "?e \<in> set (foldl push [] (allTimePushes d))" by (rule bySection_covers)
  from byRecord_covers [OF r v, of "normalizeCell t"]
  have "foldl (recordStep (normalizeCell t) (allTimeHeaders d t)) [] (allTimeRows d t) \<noteq> []"
    by auto
  then obtain sec where s: "dedupeSection ?e = Some sec"
    by (simp add: dedupeSection_def Let_def)
  with m have "sec \<in> set (allTimeOut d)"
    unfolding allTimeOut_def set_map_filter_conv by force
  moreover from dedupeSection_Some [OF s] have "sec_title sec = t" by simp
  ultimately show ?thesis by blast
qed

lemma titles_map_filter:
  "map sec_title (List.map_filter dedupeSection b) =
     map fst (filter (\<lambda>e. dedupeSection e \<noteq> None) b)"
proof (induction b)
  case Nil
  then show ?case by (simp add: List.map_filter_simps)
next
  case (Cons e b)
  then show ?case
    using dedupeSection_Some [of e]
    by (cases "dedupeSection e") (simp_all add: List.map_filter_simps)
qed

lemma distinct_titles_allTimeOut: "distinct (map sec_title (allTimeOut d))"
proof -
  have "distinct (map fst (foldl push [] (allTimePushes d)))"
    by (rule distinct_push_fold) simp
  then have "distinct (map fst (filter (\<lambda>e. dedupeSection e \<noteq> None)
      (foldl push [] (allTimePushes d))))"
    by (rule distinct_map_filter)
  then show ?thesis by (simp only: allTimeOut_def titles_map_filter)
qed

lemma distinct_titles_allTimeSections: "distinct (map sec_title (allTimeSections lc (Some d)))"
proof -
  have "distinct (map sec_title (sort_by (compareSections lc) (allTimeOut d)))"
    using distinct_titles_allTimeOut [of d] by (simp only: distinct_map_sort_by)
  then show ?thesis by (simp add: allTimeSections_def)
qed

lemma allTimePushes_tagged:
  "p \<in> set (allTimePushes d) \<Longrightarrow> hasAllTimeTag (snd (snd p)) \<and> \<not> shouldExcludeSection (fst p)"
  by (auto simp: allTimePushes_def split: option.splits if_splits)

lemma most_points_example:
  "allTimeSections lc (Some (pointsData ''Most Points'' ''Most Points'')) =
     [\<lparr>sec_title = ''Most Points'', sec_headers = pointsHeaders, sec_rows = [row50]\<rparr>]"
  unfolding pointsData_def pointsHeaders_def row42_def row50_def by code_simp

lemma least_points_example:
  "allTimeSections lc (Some (pointsData ''Least Points'' ''Least Points'')) =
     [\<lparr>sec_title = ''Least Points'', sec_headers = pointsHeaders, sec_rows = [row42]\<rparr>]"
  unfolding pointsData_def pointsHeaders_def row42_def row50_def by code_simp

text \<open>
  C4 (as amended). In all-time mode the rows tagged "all time" are collected per section
  under its title as supplied, with the headers of the first section of that title. The
  output has exactly one section for every title that has collected a row with a number in
  its last column, and no other section. Within each such section exactly one row is kept
  per group of the normalised title and the normalised first-column value: a row of the
  group whose number, the first numeric substring of the last column, is maximal, or
  minimal when the normalised title contains "least", "easiest" or "smallest" (no row of
  the group is better than the kept one, and every group with a numbered row is kept).
  Rows without a number in the last column are discarded. Two rows of one section and
  entrant with 42 and 50 collapse to the row with 50 under "Most Points" and to the row
  with 42 under "Least Points".
\<close>

theorem all_time_best:
  "(\<forall>sec \<in> set (allTimeSections lc (Some d)).
      distinct (map (recordKey (normalizeCell (sec_title sec)) (sec_headers sec)) (sec_rows sec)) \<and>
      (\<forall>r \<in> set (sec_rows sec).
         r \<in> set (allTimeRows d (sec_title sec)) \<and> valued (sec_headers sec) r \<and>
         (\<forall>r' \<in> set (allTimeRows d (sec_title sec)).
            valued (sec_headers sec) r' \<and>
            recordKey (normalizeCell (sec_title sec)) (sec_headers sec) r' =
              recordKey (normalizeCell (sec_title sec)) (sec_headers sec) r \<longrightarrow>
            \<not> better (keepMinOf (normalizeCell (sec_title sec)))
                (valueOf (sec_headers sec) r') (valueOf (sec_headers sec) r))) \<and>
      (\<forall>r' \<in> set (allTimeRows d (sec_title sec)).
         valued (sec_headers sec) r' \<longrightarrow>
         (\<exists>r \<in> set (sec_rows sec).
            recordKey (normalizeCell (sec_title sec)) (sec_headers sec) r =
              recordKey (normalizeCell (sec_title sec)) (sec_headers sec) r')) \<and>
      sec_headers sec = allTimeHeaders d (sec_title sec) \<and> sec_rows sec \<noteq> []) \<and>
   distinct (map sec_title (allTimeSections lc (Some d))) \<and>
   (\<forall>t. (\<exists>r \<in> set (allTimeRows d t). valued (allTimeHeaders d t) r) \<longleftrightarrow>
        (\<exists>sec \<in> set (allTimeSections lc (Some d)). sec_title sec = t)) \<and>
   (\<forall>r \<in> set (allTimeRows d t). hasAllTimeTag r) \<and>
   (better False v' v \<longleftrightarrow> jsLess v v') \<and> (better True v' v \<longleftrightarrow> jsLess v' v) \<and>
   allTimeSections lc (Some (pointsData ''Most Points'' ''Most Points'')) =
     [\<lparr>sec_title = ''Most Points'', sec_headers = pointsHeaders, sec_rows = [row50]\<rparr>] \<and>
   allTimeSections lc (Some (pointsData ''Least Points'' ''Least Points'')) =
     [\<lparr>sec_title = ''Least Points'', sec_headers = pointsHeaders, sec_rows = [row42]\<rparr>]"
proof (intro conjI)
  show "\<forall>sec \<in> set (allTimeSections lc (Some d)).
      distinct (map (recordKey (normalizeCell (sec_title sec)) (sec_headers sec)) (sec_rows sec)) \<and>
      (\<forall>r \<in> set (sec_rows sec).
         r \<in> set (allTimeRows d (sec_title sec)) \<and> valued (sec_headers sec) r \<and>
         (\<forall>r' \<in> set (allTimeRows d (sec_title sec)).
            valued (sec_headers sec) r' \<and>
            recordKey (normalizeCell (sec_title sec)) (sec_headers sec) r' =
              recordKey (normalizeCell (sec_title sec)) (sec_headers sec) r \<longrightarrow>
            \<not> better (keepMinOf (normalizeCell (sec_title sec)))
                (valueOf (sec_headers sec) r') (valueOf (sec_headers sec) r))) \<and>
      (\<forall>r' \<in> set (allTimeRows d (sec_title sec)).
         valued (sec_headers sec) r' \<longrightarrow>
         (\<exists>r \<in> set (sec_rows sec).
            recordKey (normalizeCell (sec_title sec)) (sec_headers sec) r =
              recordKey (normalizeCell (sec_title sec)) (sec_headers sec) r')) \<and>
      sec_headers sec = allTimeHeaders d (sec_title sec) \<and> sec_rows sec \<noteq> []"
  proof (rule ballI)
    fix sec assume "sec \<in> set (allTimeSections lc (Some d))"
    then have sec: "sec \<in> set (allTimeOut d)" by (simp only: set_allTimeSections)
    let ?sn = "normalizeCell (sec_title sec)" and ?hs = "sec_headers sec"
    let ?rs = "allTimeRows d (sec_title sec)"
    let ?b = "foldl (recordStep ?sn ?hs) [] ?rs"
    note rows = allTimeOut_entry [OF sec, THEN conjunct1]
    have 1: "distinct (map (recordKey ?sn ?hs) (sec_rows sec))"
      unfolding rows dedupeSection_keys by (rule distinct_record_fold) simp
    have 2: "\<forall>r \<in> set (sec_rows sec).
         r \<in> set ?rs \<and> valued ?hs r \<and>
         (\<forall>r' \<in> set ?rs. valued ?hs r' \<and> recordKey ?sn ?hs r' = recordKey ?sn ?hs r \<longrightarrow>
            \<not> better (keepMinOf ?sn) (valueOf ?hs r') (valueOf ?hs r))"
    proof
      fix r assume "r \<in> set (sec_rows sec)"
      then obtain k v where m: "(k, r, v) \<in> set ?b" unfolding rows by auto
      from byRecord_entry [OF m]
      show "r \<in> set ?rs \<and> valued ?hs r \<and>
         (\<forall>r' \<in> set ?rs. valued ?hs r' \<and> recordKey ?sn ?hs r' = recordKey ?sn ?hs r \<longrightarrow>
            \<not> better (keepMinOf ?sn) (valueOf ?hs r') (valueOf ?hs r))"
        by blast
    qed
    have 3: "\<forall>r' \<in> set ?rs. valued ?hs r' \<longrightarrow>
         (\<exists>r \<in> set (sec_rows sec). recordKey ?sn ?hs r = recordKey ?sn ?hs r')"
    proof (intro ballI impI)
      fix r' assume r': "r' \<in> set ?rs" "valued ?hs r'"
      from byRecord_covers [OF r', of ?sn] obtain r v
        where m: "(recordKey ?sn ?hs r', r, v) \<in> set ?b" by blast
      from byRecord_entry [OF m] have "recordKey ?sn ?hs r = recordKey ?sn ?hs r'" by blast
      moreover have "r \<in> set (sec_rows sec)"
        unfolding rows using m by (metis (no_types, lifting) fst_conv image_eqI set_map snd_conv)
      ultimately show "\<exists>r \<in> set (sec_rows sec). recordKey ?sn ?hs r = recordKey ?sn ?hs r'"
        by blast
    qed
    from allTimeOut_entry [OF sec]
    have 4: "sec_headers sec = allTimeHeaders d (sec_title sec)" and 5: "sec_rows sec \<noteq> []"
      by blast+
    from 1 2 3 4 5 show "distinct (map (recordKey ?sn ?hs) (sec_rows sec)) \<and>
      (\<forall>r \<in> set (sec_rows sec).
         r \<in> set ?rs \<and> valued ?hs r \<and>
         (\<forall>r' \<in> set ?rs. valued ?hs r' \<and> recordKey ?sn ?hs r' = recordKey ?sn ?hs r \<longrightarrow>
            \<not> better (keepMinOf ?sn) (valueOf ?hs r') (valueOf ?hs r))) \<and>
      (\<forall>r' \<in> set ?rs. valued ?hs r' \<longrightarrow>
         (\<exists>r \<in> set (sec_rows sec). recordKey ?sn ?hs r = recordKey ?sn ?hs r')) \<and>
      sec_headers sec = allTimeHeaders d (sec_title sec) \<and> sec_rows sec \<noteq> []"
      by (intro conjI)
  qed
next
  show "distinct (map sec_title (allTimeSections lc (Some d)))"
    by (rule distinct_titles_allTimeSections)
next
  show "\<forall>t. (\<exists>r \<in> set (allTimeRows d t). valued (allTimeHeaders d t) r) \<longleftrightarrow>
        (\<exists>sec \<in> set (allTimeSections lc (Some d)). sec_title sec = t)"
  proof (intro allI iffI)
    fix t assume "\<exists>r \<in> set (allTimeRows d t). valued (allTimeHeaders d t) r"
    then show "\<exists>sec \<in> set (allTimeSections lc (Some d)). sec_title sec = t"
      unfolding set_allTimeSections using allTimeOut_covers by blast
  next
    fix t assume "\<exists>sec \<in> set (allTimeSections lc (Some d)). sec_title sec = t"
    then obtain sec where sec: "sec \<in> set (allTimeOut d)" and t: "sec_title sec = t"
      unfolding set_allTimeSections by blast
    from allTimeOut_numbered [OF sec] t
    show "\<exists>r \<in> set (allTimeRows d t). valued (allTimeHeaders d t) r" by simp
  qed
next
  show "\<forall>r \<in> set (allTimeRows d t). hasAllTimeTag r"
    using allTimePushes_tagged by (auto simp: allTimeRows_def)
next
  show "better False v' v \<longleftrightarrow> jsLess v v'" by (simp add: better_def)
  show "better True v' v \<longleftrightarrow> jsLess v' v" by (simp add: better_def)
  show "allTimeSections lc (Some (pointsData ''Most Points'' ''Most Points'')) =
     [\<lparr>sec_title = ''Most Points'', sec_headers = pointsHeaders, sec_rows = [row50]\<rparr>]"
    by (rule most_points_example)
  show "allTimeSections lc (Some (pointsData ''Least Points'' ''Least Points'')) =
     [\<lparr>sec_title = ''Least Points'', sec_headers = pointsHeaders, sec_rows = [row42]\<rparr>]"
    by (rule least_points_example)
qed

lemma points_rows: "allTimeRows (pointsData ''Most Points'' ''Most Points'') ''Most Points'' = [row42, row50]"
  unfolding allTimeRows_def pointsData_def pointsHeaders_def row42_def row50_def by code_simp

lemma points_headers: "allTimeHeaders (pointsData ''Most Points'' ''Most Points'') ''Most Points'' = pointsHeaders"
  unfolding allTimeHeaders_def pointsData_def pointsHeaders_def row42_def row50_def by code_simp

lemma value_row42: "valueOf pointsHeaders row42 = Fin 42"
  unfolding pointsHeaders_def row42_def by code_simp

lemma value_row50: "valueOf pointsHeaders row50 = Fin 50"
  unfolding pointsHeaders_def row50_def by code_simp

lemma valued_row42: "valued pointsHeaders row42"
  unfolding pointsHeaders_def row42_def by code_simp

lemma same_key_row42_row50: "recordKey (normalizeCell ''Most Points'') pointsHeaders row42 =
      recordKey (normalizeCell ''Most Points'') pointsHeaders row50"
  unfolding pointsHeaders_def row42_def row50_def by code_simp

lemma most_points_keeps_max: "keepMinOf (normalizeCell ''Most Points'') = False" by code_simp

lemma two_titles_out:
  "allTimeOut (pointsData ''Most Points'' ''Most points'') =
     [\<lparr>sec_title = ''Most Points'', sec_headers = pointsHeaders, sec_rows = [row42]\<rparr>,
      \<lparr>sec_title = ''Most points'', sec_headers = pointsHeaders, sec_rows = [row50]\<rparr>]"
  unfolding pointsData_def pointsHeaders_def row42_def row50_def by code_simp

theorem all_time_best_witness:
  "\<lparr>sec_title = ''Most Points'', sec_headers = pointsHeaders, sec_rows = [row50]\<rparr>
     \<in> set (allTimeSections codeUnitCompare (Some (pointsData ''Most Points'' ''Most Points''))) \<and>
   allTimeRows (pointsData ''Most Points'' ''Most Points'') ''Most Points'' = [row42, row50] \<and>
   valued pointsHeaders row50 \<and>
   valueOf pointsHeaders row42 = Fin 42 \<and> valueOf pointsHeaders row50 = Fin 50 \<and>
   \<not> better False (valueOf pointsHeaders row42) (valueOf pointsHeaders row50) \<and>
   (\<exists>sec \<in> set (allTimeSections codeUnitCompare (Some (pointsData ''Most Points'' ''Most Points''))).
      sec_title sec = ''Most Points'')"
proof -
  let ?d = "pointsData ''Most Points'' ''Most Points''"
  let ?sec = "\<lparr>sec_title = ''Most Points'', sec_headers = pointsHeaders, sec_rows = [row50]\<rparr>"
  have m: "?sec \<in> set (allTimeSections codeUnitCompare (Some ?d))"
    by (simp only: most_points_example list.set_intros)
  have r50: "row50 \<in> set (sec_rows ?sec)" by simp
  have r42: "row42 \<in> set (allTimeRows ?d (sec_title ?sec))" by (simp add: points_rows)
  have pre: "valued (sec_headers ?sec) row42 \<and>
      recordKey (normalizeCell (sec_title ?sec)) (sec_headers ?sec) row42 =
        recordKey (normalizeCell (sec_title ?sec)) (sec_headers ?sec) row50"
    by (simp add: valued_row42 same_key_row42_row50)
  note all = all_time_best [of codeUnitCompare ?d "''Most Points''" NaN NaN]
  note th = all [THEN conjunct1, THEN bspec, OF m,
      THEN conjunct2, THEN conjunct1, THEN bspec, OF r50]
  from th have "valued (sec_headers ?sec) row50" by (rule conjunct2 [THEN conjunct1])
  then have g50: "valued pointsHeaders row50" by simp
  from th [THEN conjunct2, THEN conjunct2, THEN bspec, OF r42, THEN mp, OF pre]
  have "\<not> better (keepMinOf (normalizeCell ''Most Points''))
      (valueOf pointsHeaders row42) (valueOf pointsHeaders row50)" by simp
  then have b: "\<not> better False (valueOf pointsHeaders row42) (valueOf pointsHeaders row50)"
    unfolding most_points_keeps_max by assumption
  have "\<exists>r \<in> set (allTimeRows ?d ''Most Points''). valued (allTimeHeaders ?d ''Most Points'') r"
    unfolding points_rows points_headers using valued_row42 by simp
  with all [THEN conjunct2, THEN conjunct2, THEN conjunct1, THEN spec, of "''Most Points''"]
  have c: "\<exists>sec \<in> set (allTimeSections codeUnitCompare (Some ?d)). sec_title sec = ''Most Points''"
    by blast
  from m points_rows g50 value_row42 value_row50 b c show ?thesis by (intro conjI)
qed

theorem all_time_two_titles:
  "allTimeOut (pointsData ''Most Points'' ''Most points'') =
     [\<lparr>sec_title = ''Most Points'', sec_headers = pointsHeaders, sec_rows = [row42]\<rparr>,
      \<lparr>sec_title = ''Most points'', sec_headers = pointsHeaders, sec_rows = [row50]\<rparr>] \<and>
   (\<forall>lc. set (allTimeSections lc (Some (pointsData ''Most Points'' ''Most points''))) =
     {\<lparr>sec_title = ''Most Points'', sec_headers = pointsHeaders, sec_rows = [row42]\<rparr>,
      \<lparr>sec_title = ''Most points'', sec_headers = pointsHeaders, sec_rows = [row50]\<rparr>}) \<and>
   recordKey (normalizeCell ''Most Points'') pointsHeaders row42 =
     recordKey (normalizeCell ''Most points'') pointsHeaders row50 \<and>
   hasAllTimeTag row42 \<and> hasAllTimeTag row50 \<and>
   numericFromRow pointsHeaders row42 = Some (Fin 42) \<and>
   numericFromRow pointsHeaders row50 = Some (Fin 50)"
proof (intro conjI allI)
  show "allTimeOut (pointsData ''Most Points'' ''Most points'') =
     [\<lparr>sec_title = ''Most Points'', sec_headers = pointsHeaders, sec_rows = [row42]\<rparr>,
      \<lparr>sec_title = ''Most points'', sec_headers = pointsHeaders, sec_rows = [row50]\<rparr>]"
    by (rule two_titles_out)
  show "set (allTimeSections lc (Some (pointsData ''Most Points'' ''Most points''))) =
     {\<lparr>sec_title = ''Most Points'', sec_headers = pointsHeaders, sec_rows = [row42]\<rparr>,
      \<lparr>sec_title = ''Most points'', sec_headers = pointsHeaders, sec_rows = [row50]\<rparr>}" for lc
    by (simp only: set_allTimeSections two_titles_out list.set)
  show "recordKey (normalizeCell ''Most Points'') pointsHeaders row42 =
     recordKey (normalizeCell ''Most points'') pointsHeaders row50"
    unfolding pointsHeaders_def row42_def row50_def by code_simp
  show "hasAllTimeTag row42" unfolding row42_def by code_simp
  show "hasAllTimeTag row50" unfolding row50_def by code_simp
  show "numericFromRow pointsHeaders row42 = Some (Fin 42)"
    unfolding pointsHeaders_def row42_def by code_simp
  show "numericFromRow pointsHeaders row50 = Some (Fin 50)"
    unfolding pointsHeaders_def row50_def by code_simp
qed

end
